(* ===== verification/Prelude.thy ===== *)
theory Prelude
  imports Main "HOL-Library.Word"
begin

text \<open>
  Shared vocabulary of the development: the machine integers of the Rust sources as words, byte
  buffers as lists, the three ways a Rust call can end (a value, an error, a panic) as the type
  \<open>outcome\<close>, slices and in-place copies, little-endian encodings, and the arithmetic whose
  overflow behaviour depends on the build profile.  The generic lemmas about these are collected in
  \<open>slice_simps\<close> and \<open>outcome_simps\<close>.
\<close>

section \<open>Types\<close>

type_synonym u8 = "8 word"
type_synonym u16 = "16 word"
type_synonym u32 = "32 word"
type_synonym u64 = "64 word"
type_synonym i64 = "64 word"
type_synonym bytes = "8 word list"

named_theorems slice_simps "evaluation of slices, copies and little-endian reads"
named_theorems outcome_simps "evaluation of outcomes and their sequencing"

section \<open>Outcomes\<close>

text \<open>
  A Rust call returns \<open>Ok\<close>, returns \<open>Err\<close>, or panics (an out-of-range slice index, an
  arithmetic overflow where overflow checks are compiled in).  \<open>bind_outcome\<close> is the
  \<^verbatim>\<open>?\<close> operator.
\<close>

datatype ('e, 'a) outcome = Ok 'a | Err 'e | Panic

fun bind_outcome :: "('e, 'a) outcome \<Rightarrow> ('a \<Rightarrow> ('e, 'b) outcome) \<Rightarrow> ('e, 'b) outcome" where
  "bind_outcome (Ok a) f = f a"
| "bind_outcome (Err e) f = Err e"
| "bind_outcome Panic f = Panic"

fun map_err :: "('e \<Rightarrow> 'f) \<Rightarrow> ('e, 'a) outcome \<Rightarrow> ('f, 'a) outcome" where
  "map_err g (Ok a) = Ok a"
| "map_err g (Err e) = Err (g e)"
| "map_err g Panic = Panic"

fun ok_or :: "'a option \<Rightarrow> 'e \<Rightarrow> ('e, 'a) outcome" where
  "ok_or None e = Err e"
| "ok_or (Some a) e = Ok a"

section \<open>Slices and buffers\<close>

text \<open>\<^verbatim>\<open>b.get(i..j)\<close> and \<^verbatim>\<open>b.get(i..)\<close>: \<open>None\<close> when the range is not inside the slice.\<close>

definition get_range :: "'a list \<Rightarrow> nat \<Rightarrow> nat \<Rightarrow> 'a list option" where
  "get_range b i j = (if i \<le> j \<and> j \<le> length b then Some (take (j - i) (drop i b)) else None)"

definition get_from :: "'a list \<Rightarrow> nat \<Rightarrow> 'a list option" where
  "get_from b i = (if i \<le> length b then Some (drop i b) else None)"

text \<open>\<^verbatim>\<open>&b[i..j]\<close>, \<^verbatim>\<open>&b[i..]\<close>: the same, but a panic out of range.\<close>

definition index_range :: "'a list \<Rightarrow> nat \<Rightarrow> nat \<Rightarrow> ('e, 'a list) outcome" where
  "index_range b i j = (case get_range b i j of Some s \<Rightarrow> Ok s | None \<Rightarrow> Panic)"

definition index_from :: "'a list \<Rightarrow> nat \<Rightarrow> ('e, 'a list) outcome" where
  "index_from b i = (case get_from b i of Some s \<Rightarrow> Ok s | None \<Rightarrow> Panic)"

text \<open>\<^verbatim>\<open>buf[i..i + src.len()].copy_from_slice(src)\<close> for a range inside \<open>buf\<close>.\<close>

definition copy_into :: "'a list \<Rightarrow> nat \<Rightarrow> 'a list \<Rightarrow> 'a list" where
  "copy_into buf i src = take i buf @ src @ drop (i + length src) buf"

text \<open>
  A series of such copies, in program order; \<open>patched\<close> is the same with the latest copy first, the
  form in which reads are evaluated, and \<open>fits\<close> says that every copy stays inside the buffer.
\<close>

fun apply_patches :: "'a list \<Rightarrow> (nat \<times> 'a list) list \<Rightarrow> 'a list" where
  "apply_patches b [] = b"
| "apply_patches b (p # ps) = apply_patches (copy_into b (fst p) (snd p)) ps"

fun patched :: "'a list \<Rightarrow> (nat \<times> 'a list) list \<Rightarrow> 'a list" where
  "patched b [] = b"
| "patched b (p # ps) = copy_into (patched b ps) (fst p) (snd p)"

fun fits :: "nat \<Rightarrow> (nat \<times> 'a list) list \<Rightarrow> bool" where
  "fits n [] = True"
| "fits n (p # ps) = (fst p + length (snd p) \<le> n \<and> fits n ps)"

text \<open>A buffer cut or zero-extended to \<open>n\<close> bytes.\<close>

definition fit :: "nat \<Rightarrow> bytes \<Rightarrow> bytes" where
  "fit n bs = take n bs @ replicate (n - length bs) 0"

text \<open>\<^verbatim>\<open>usize::saturating_add\<close> on a 64-bit target.\<close>

definition usize_sat_add :: "nat \<Rightarrow> nat \<Rightarrow> nat" where
  "usize_sat_add a b = min (a + b) (2 ^ 64 - 1)"

section \<open>Little-endian integers\<close>

fun le_nat :: "bytes \<Rightarrow> nat" where
  "le_nat [] = 0"
| "le_nat (b # bs) = unat b + 256 * le_nat bs"

fun le_bytes :: "nat \<Rightarrow> nat \<Rightarrow> bytes" where
  "le_bytes 0 k = []"
| "le_bytes (Suc n) k = word_of_nat k # le_bytes n (k div 256)"

text \<open>\<^verbatim>\<open>uN::from_le_bytes\<close> and \<^verbatim>\<open>uN::to_le_bytes\<close>.\<close>

definition from_le :: "bytes \<Rightarrow> 'a::len word" where
  "from_le bs = word_of_nat (le_nat bs)"

definition to_le :: "'a::len word \<Rightarrow> bytes" where
  "to_le w = le_bytes (LENGTH('a) div 8) (unat w)"

section \<open>Arithmetic\<close>

text \<open>
  A plain \<^verbatim>\<open>+\<close> on \<^verbatim>\<open>u64\<close>.  The workspace's release profile does not set
  \<^verbatim>\<open>overflow-checks\<close>, so the sum wraps there; a dev or test build panics.  \<open>oc\<close> says
  whether overflow checks are compiled in.
\<close>

definition add_u64 :: "bool \<Rightarrow> u64 \<Rightarrow> u64 \<Rightarrow> ('e, u64) outcome" where
  "add_u64 oc a b = (if oc \<and> 2 ^ 64 \<le> unat a + unat b then Panic else Ok (a + b))"

text \<open>\<^verbatim>\<open>u64::saturating_mul\<close> and \<^verbatim>\<open>u64::saturating_sub\<close>.\<close>

definition sat_mul_u64 :: "u64 \<Rightarrow> u64 \<Rightarrow> u64" where
  "sat_mul_u64 a b = (if unat a * unat b < 2 ^ 64 then a * b else 0xFFFFFFFFFFFFFFFF)"

definition sat_sub_u64 :: "u64 \<Rightarrow> u64 \<Rightarrow> u64" where
  "sat_sub_u64 a b = (if a < b then 0 else a - b)"

section \<open>Lemmas on outcomes\<close>

declare bind_outcome.simps [outcome_simps] map_err.simps [outcome_simps] ok_or.simps [outcome_simps]

lemma bind_outcome_Ok_iff:
  "bind_outcome m f = Ok b \<longleftrightarrow> (\<exists>a. m = Ok a \<and> f a = Ok b)"
  by (cases m) auto

lemma bind_outcome_Err_iff:
  "bind_outcome m f = Err e \<longleftrightarrow> m = Err e \<or> (\<exists>a. m = Ok a \<and> f a = Err e)"
  by (cases m) auto

lemma bind_outcome_Panic_iff:
  "bind_outcome m f = Panic \<longleftrightarrow> m = Panic \<or> (\<exists>a. m = Ok a \<and> f a = Panic)"
  by (cases m) auto

lemma ok_or_Ok_iff [simp]: "ok_or x e = Ok a \<longleftrightarrow> x = Some a"
  by (cases x) auto

lemma ok_or_Err_iff [simp]: "ok_or x e = Err e' \<longleftrightarrow> x = None \<and> e' = e"
  by (cases x) auto

lemma ok_or_not_Panic [simp]: "ok_or x e \<noteq> Panic"
  by (cases x) auto

section \<open>Lemmas on slices\<close>

lemma get_range_eq_Some [slice_simps]:
  "i \<le> j \<Longrightarrow> j \<le> length b \<Longrightarrow> get_range b i j = Some (take (j - i) (drop i b))"
  by (simp add: get_range_def)

lemma get_range_eq_None_iff: "get_range b i j = None \<longleftrightarrow> \<not> (i \<le> j \<and> j \<le> length b)"
  by (simp add: get_range_def)

lemma get_range_length: "get_range b i j = Some s \<Longrightarrow> length s = j - i"
  by (auto simp: get_range_def split: if_splits)

lemma get_from_min [simp]: "get_from b (min i (length b)) = Some (drop i b)"
  by (simp add: get_from_def min_def)

lemma length_copy_into [simp]:
  "i + length src \<le> length buf \<Longrightarrow> length (copy_into buf i src) = length buf"
  by (simp add: copy_into_def)

lemma take_drop_copy_same:
  "i + length src \<le> length b \<Longrightarrow> n = length src \<Longrightarrow> take n (drop i (copy_into b i src)) = src"
  by (simp add: copy_into_def)

lemma take_drop_copy_before:
  assumes "i + length src \<le> length b" and "off + n \<le> i"
  shows "take n (drop off (copy_into b i src)) = take n (drop off b)"
  using assms by (simp add: copy_into_def drop_take)

lemma take_drop_copy_after:
  assumes "i + length src \<le> length b" and "i + length src \<le> off"
  shows "take n (drop off (copy_into b i src)) = take n (drop off b)"
  using assms by (simp add: copy_into_def min_def)

lemma copy_into_append:
  "i + length a \<le> length buf \<Longrightarrow> j = i + length a \<Longrightarrow>
   copy_into (copy_into buf i a) j b = copy_into buf i (a @ b)"
  by (simp add: copy_into_def ac_simps)

lemma copy_into_whole [simp]: "length src = length buf \<Longrightarrow> copy_into buf 0 src = src"
  by (simp add: copy_into_def)

lemma copy_into_empty [simp]: "copy_into buf i [] = buf"
  by (simp add: copy_into_def)

lemma patched_append: "patched b (ps @ qs) = patched (patched b qs) ps"
  by (induction ps) auto

lemma apply_patches_eq: "apply_patches b ps = patched b (rev ps)"
  by (induction b ps rule: apply_patches.induct) (auto simp: patched_append)

lemma length_patched: "fits (length b) ps \<Longrightarrow> length (patched b ps) = length b"
  by (induction ps) auto

lemma fits_append [simp]: "fits n (ps @ qs) \<longleftrightarrow> fits n ps \<and> fits n qs"
  by (induction ps) auto

lemma take_drop_patched_here [slice_simps]:
  "fits (length b) ((i, src) # ps) \<Longrightarrow> n = length src \<Longrightarrow> take n (drop i (patched b ((i, src) # ps))) = src"
  by (simp add: length_patched take_drop_copy_same)

lemma take_drop_patched_skip [slice_simps]:
  "fits (length b) ((i, src) # ps) \<Longrightarrow> off + n \<le> i \<or> i + length src \<le> off \<Longrightarrow>
   take n (drop off (patched b ((i, src) # ps))) = take n (drop off (patched b ps))"
  by (auto simp: length_patched take_drop_copy_before take_drop_copy_after)

lemma length_fit [simp]: "length (fit n bs) = n"
  by (simp add: fit_def)

lemma fit_exact [simp]: "length bs = n \<Longrightarrow> fit n bs = bs"
  by (simp add: fit_def)

lemma usize_sat_add_eq: "a + b < 2 ^ 64 \<Longrightarrow> usize_sat_add a b = a + b"
  by (simp add: usize_sat_add_def)

lemma drop_patched_last [slice_simps]:
  "fits (length b) ((i, src) # ps) \<Longrightarrow> i + length src = length b \<Longrightarrow> drop i (patched b ((i, src) # ps)) = src"
  by (simp add: length_patched copy_into_def)

declare patched.simps(2) [simp del]

lemma take_patched_here [slice_simps]:
  "fits (length b) ((0, src) # ps) \<Longrightarrow> n = length src \<Longrightarrow> take n (patched b ((0, src) # ps)) = src"
  using take_drop_patched_here [of b 0 src ps n] by simp

lemma take_patched_skip [slice_simps]:
  "fits (length b) ((i, src) # ps) \<Longrightarrow> n \<le> i \<Longrightarrow>
   take n (patched b ((i, src) # ps)) = take n (patched b ps)"
  using take_drop_patched_skip [of b i src ps 0 n] by simp

section \<open>Lemmas on little-endian integers\<close>

lemma length_le_bytes [simp]: "length (le_bytes n k) = n"
  by (induction n k rule: le_bytes.induct) auto

lemma le_bytes_numeral [simp]:
  "le_bytes (numeral v) k = word_of_nat k # le_bytes (pred_numeral v) (k div 256)"
  by (simp only: numeral_eq_Suc [of v] le_bytes.simps)

lemma le_nat_less: "le_nat bs < 256 ^ length bs"
proof (induction bs)
  case (Cons b bs)
  have "unat b < 256"
    using unsigned_less [of b, where 'a = nat] by simp
  moreover have "256 * le_nat bs + 256 \<le> 256 * 256 ^ length bs"
    using Cons.IH by (metis Suc_leI add.commute mult_Suc_right mult_le_mono2)
  ultimately show ?case
    by simp
qed simp

lemma le_nat_le_bytes: "le_nat (le_bytes n k) = k mod 256 ^ n"
proof (induction n k rule: le_bytes.induct)
  case (2 n k)
  then show ?case
    by (simp add: unat_of_nat mod_mult2_eq)
qed simp

lemma le_bytes_le_nat: "le_bytes (length bs) (le_nat bs) = bs"
proof (induction bs)
  case (Cons b bs)
  have b: "unat b < 256"
    using unsigned_less [of b, where 'a = nat] by simp
  then have "(unat b + 256 * le_nat bs) div 256 = le_nat bs"
    by simp
  moreover have "(word_of_nat (unat b + 256 * le_nat bs) :: u8) = b"
    using b by (intro word_unat_eq_iff [THEN iffD2])
      (simp add: unat_of_nat del: of_nat_add of_nat_mult)
  ultimately show ?case
    using Cons.IH by (simp del: of_nat_add)
qed simp

lemma le_nat_replicate_0 [simp]: "le_nat (replicate n 0) = 0"
  by (induction n) auto

lemma length_to_le [simp]: "length (to_le (w :: 'a::len word)) = LENGTH('a) div 8"
  by (simp add: to_le_def)

lemma pow256_bytes: "8 dvd l \<Longrightarrow> (256 :: nat) ^ (l div 8) = 2 ^ l"
proof -
  assume "8 dvd l"
  then have "(2 :: nat) ^ l = (2 ^ 8) ^ (l div 8)"
    by (simp only: power_mult [symmetric] dvd_mult_div_cancel)
  then show ?thesis
    by simp
qed

lemma from_le_to_le:
  assumes "8 dvd LENGTH('a::len)"
  shows "from_le (to_le w) = (w :: 'a word)"
proof -
  have "unat w < 2 ^ LENGTH('a)"
    by (rule unsigned_less)
  then show ?thesis
    by (simp add: from_le_def to_le_def le_nat_le_bytes pow256_bytes [OF assms])
qed

lemma to_le_from_le:
  assumes "8 * length bs = LENGTH('a::len)"
  shows "to_le (from_le bs :: 'a word) = bs"
proof -
  have l: "length bs = LENGTH('a) div 8" and "(256 :: nat) ^ length bs = 2 ^ LENGTH('a)"
    using assms pow256_bytes [of "LENGTH('a)"] by (simp_all flip: assms)
  then have "unat (word_of_nat (le_nat bs) :: 'a word) = le_nat bs"
    using le_nat_less [of bs] by (simp add: unat_of_nat)
  then show ?thesis
    using le_bytes_le_nat [of bs] by (simp add: from_le_def to_le_def flip: l)
qed

lemma from_le_zeros [simp]: "from_le (replicate n 0) = 0"
  by (simp add: from_le_def)

end
