(* ===== verification/Fmt.thy ===== *)
theory Fmt
  imports Prelude
begin

text \<open>
  The pieces of Rust's formatting that the sources use: \<^verbatim>\<open>{:0Wx}\<close> (lower-case hexadecimal,
  zero-padded to at least \<open>W\<close> digits), \<^verbatim>\<open>{}\<close> of an unsigned integer, and the \<^verbatim>\<open>{:?}\<close> and
  \<^verbatim>\<open>{:02x?}\<close> renderings of a list of integers.
\<close>

section \<open>Digits\<close>

definition digit_char :: "nat \<Rightarrow> char" where
  "digit_char d = ''0123456789abcdef'' ! (d mod 16)"

fun hex_digits :: "nat \<Rightarrow> string" where
  "hex_digits n = (if n < 16 then [digit_char n] else hex_digits (n div 16) @ [digit_char (n mod 16)])"

fun dec_digits :: "nat \<Rightarrow> string" where
  "dec_digits n = (if n < 10 then [digit_char n] else dec_digits (n div 10) @ [digit_char (n mod 10)])"

declare hex_digits.simps [simp del] dec_digits.simps [simp del]

definition pad_zero :: "nat \<Rightarrow> string \<Rightarrow> string" where
  "pad_zero w s = replicate (w - length s) (CHR ''0'') @ s"

definition fmt_hex :: "nat \<Rightarrow> nat \<Rightarrow> string" where
  "fmt_hex w n = pad_zero w (hex_digits n)"

fun comma_sep :: "string list \<Rightarrow> string" where
  "comma_sep [] = []"
| "comma_sep [x] = x"
| "comma_sep (x # y # ys) = x @ '', '' @ comma_sep (y # ys)"

definition fmt_list :: "string list \<Rightarrow> string" where
  "fmt_list xs = ''['' @ comma_sep xs @ '']''"

section \<open>Fixed-width hexadecimal\<close>

text \<open>The reference rendering: exactly \<open>w\<close> digits, most significant first.\<close>

fun hex_fixed :: "nat \<Rightarrow> nat \<Rightarrow> string" where
  "hex_fixed 0 n = []"
| "hex_fixed (Suc w) n = hex_fixed w (n div 16) @ [digit_char n]"

definition hex2 :: "u8 \<Rightarrow> string" where
  "hex2 b = hex_fixed 2 (unat b)"

lemma length_hex_fixed [simp]: "length (hex_fixed w n) = w"
  by (induction w n rule: hex_fixed.induct) auto

lemma digit_char_mod [simp]: "digit_char (n mod 16) = digit_char n"
  by (simp add: digit_char_def)

lemma digit_char_less: "n < 16 \<Longrightarrow> digit_char n = ''0123456789abcdef'' ! n"
  by (simp add: digit_char_def)

lemma hex_digits_nonempty [simp]: "hex_digits n \<noteq> []"
  by (subst hex_digits.simps) simp

lemma hex_fixed_zero: "hex_fixed w 0 = replicate w (CHR ''0'')"
  by (induction w) (simp_all add: digit_char_def replicate_append_same)

lemma pad_zero_snoc: "pad_zero (Suc w) (s @ [c]) = pad_zero w s @ [c]"
  by (simp add: pad_zero_def)

lemma fmt_hex_eq_fixed: "n < 16 ^ w \<Longrightarrow> 0 < w \<Longrightarrow> fmt_hex w n = hex_fixed w n"
proof (induction w arbitrary: n)
  case (Suc w)
  show ?case
  proof (cases "n < 16")
    case True
    then have "n div 16 = 0"
      by simp
    with True show ?thesis
      by (simp add: fmt_hex_def hex_digits.simps [of n] hex_fixed_zero pad_zero_def)
  next
    case False
    with Suc.prems have "n div 16 < 16 ^ w"
      by (simp add: div_less_iff_less_mult mult.commute)
    moreover have "0 < w"
      using False Suc.prems by (cases w) auto
    ultimately have "fmt_hex w (n div 16) = hex_fixed w (n div 16)"
      by (rule Suc.IH)
    with False show ?thesis
      by (simp add: fmt_hex_def hex_digits.simps [of n] pad_zero_snoc)
  qed
qed simp

lemma digit_char_inj: "digit_char a = digit_char b \<Longrightarrow> a mod 16 = b mod 16"
proof -
  have "distinct ''0123456789abcdef''" and "length ''0123456789abcdef'' = 16"
    by simp_all
  then show "digit_char a = digit_char b \<Longrightarrow> a mod 16 = b mod 16"
    unfolding digit_char_def by (simp add: nth_eq_iff_index_eq)
qed

lemma hex_fixed_inj: "hex_fixed w m = hex_fixed w n \<Longrightarrow> m mod 16 ^ w = n mod 16 ^ w"
proof (induction w arbitrary: m n)
  case (Suc w)
  then have "hex_fixed w (m div 16) = hex_fixed w (n div 16)" and "digit_char m = digit_char n"
    by simp_all
  then have "m div 16 mod 16 ^ w = n div 16 mod 16 ^ w" and "m mod 16 = n mod 16"
    using Suc.IH digit_char_inj by blast+
  then show ?case
    by (simp add: mod_mult2_eq)
qed simp

lemma hex2_inj: "hex2 a = hex2 b \<Longrightarrow> a = b"
proof -
  assume "hex2 a = hex2 b"
  then have "unat a mod 256 = unat b mod 256"
    using hex_fixed_inj [of 2 "unat a" "unat b"] by (simp add: hex2_def)
  moreover have "unat a < 256" and "unat b < 256"
    using unsigned_less [of a, where 'a = nat] unsigned_less [of b, where 'a = nat] by simp_all
  ultimately show "a = b"
    by (simp add: word_unat_eq_iff)
qed

lemma hex2_eq: "hex2 b = [digit_char (unat b div 16), digit_char (unat b)]"
  by (simp add: hex2_def numeral_2_eq_2)

lemma length_hex2 [simp]: "length (hex2 b) = 2"
  by (simp add: hex2_def)

lemma hex_fixed_split: "hex_fixed (v + w) n = hex_fixed v (n div 16 ^ w) @ hex_fixed w n"
  by (induction w arbitrary: n) (simp_all add: div_mult2_eq)

lemma hex_fixed_mod: "hex_fixed w (n mod 16 ^ w) = hex_fixed w n"
proof (induction w arbitrary: n)
  case (Suc w)
  have "n mod 16 ^ Suc w = 16 * (n div 16 mod 16 ^ w) + n mod 16"
    by (simp add: mod_mult2_eq)
  then have "n mod 16 ^ Suc w div 16 = n div 16 mod 16 ^ w" and "n mod 16 ^ Suc w mod 16 = n mod 16"
    by simp_all
  then show ?case
    using Suc.IH by (metis digit_char_mod hex_fixed.simps(2))
qed simp

text \<open>A little-endian integer prints as its bytes in reverse order.\<close>

lemma hex_fixed_le_nat: "hex_fixed (2 * length bs) (le_nat bs) = concat (map hex2 (rev bs))"
proof (induction bs)
  case (Cons b bs)
  have b: "unat b < 256"
    using unsigned_less [of b, where 'a = nat] by simp
  have "hex_fixed (2 * length bs + 2) (le_nat (b # bs))
        = hex_fixed (2 * length bs) (le_nat (b # bs) div 16 ^ 2) @ hex_fixed 2 (le_nat (b # bs))"
    by (rule hex_fixed_split)
  moreover have "le_nat (b # bs) div 16 ^ 2 = le_nat bs" and "le_nat (b # bs) mod 16 ^ 2 = unat b"
    using b by simp_all
  ultimately have "hex_fixed (2 * length bs + 2) (le_nat (b # bs))
        = hex_fixed (2 * length bs) (le_nat bs) @ hex2 b"
    by (metis hex2_def hex_fixed_mod)
  then show ?case
    using Cons.IH by simp
qed simp

end
