(* ===== verification/Errors.thy ===== *)
theory Errors
  imports Fmt
begin

text \<open>
  \<^verbatim>\<open>core/src/error.rs\<close>: the error type of the reader and the text each error renders to
  (\<^verbatim>\<open>#[error(...)]\<close>), with the I/O errors of the standard library that it wraps.  A
  \<^verbatim>\<open>&'static str\<close> payload is a \<open>string\<close>.
\<close>

section \<open>I/O errors\<close>

datatype io_kind = Interrupted | UnexpectedEof | InvalidInput | OtherError | OtherKind nat

text \<open>\<open>io_text\<close> is what the error's \<^verbatim>\<open>Display\<close> prints.\<close>

record io_error =
  io_kind_of :: io_kind
  io_text :: string

section \<open>BdeError\<close>

datatype bde_error =
    Io io_error
  | NotBitLocker bytes
  | NoValidMetadata "u64 list"
  | UnsupportedEncryptionMethod u16
  | UnvalidatedEncryptionMethod u16
  | NoUnlockProtector string "u16 list"
  | InvalidRecoveryPassword string
  | MissingKeyMaterial string
  | AuthenticationFailed string
  | MalformedKeyContainer string nat nat

definition quoted :: "string \<Rightarrow> string" where
  "quoted s = [CHR 0x22] @ s @ [CHR 0x22]"

fun bde_error_display :: "bde_error \<Rightarrow> string" where
  "bde_error_display (Io e) = ''i/o error reading BitLocker volume: '' @ io_text e"
| "bde_error_display (NotBitLocker sig) =
     ''not a BitLocker volume: signature at offset 3 is '' @ fmt_list (map (fmt_hex 2 \<circ> unat) sig)
     @ '' (expected '' @ quoted ''-FVE-FS-'' @ '' or '' @ quoted ''MSWIN4.1'' @ '')''"
| "bde_error_display (NoValidMetadata offsets) =
     ''no valid FVE metadata block found at candidate offsets '' @ fmt_list (map (dec_digits \<circ> unat) offsets)"
| "bde_error_display (UnsupportedEncryptionMethod m) =
     ''unsupported encryption method 0x'' @ fmt_hex 4 (unat m)
     @ '' (not a recognized BitLocker cipher; this build decrypts 0x8000 AES-128-CBC + Elephant Diffuser and 0x8002 AES-128-CBC)''"
| "bde_error_display (UnvalidatedEncryptionMethod m) =
     ''recognized but unvalidated encryption method 0x'' @ fmt_hex 4 (unat m)
     @ '' (no oracle yet; this build decrypts only 0x8000 and 0x8002)''"
| "bde_error_display (NoUnlockProtector protector found) =
     ''no '' @ protector @ '' protector present; protectors found: '' @ fmt_list (map (dec_digits \<circ> unat) found)"
| "bde_error_display (InvalidRecoveryPassword reason) = ''invalid recovery password: '' @ reason"
| "bde_error_display (MissingKeyMaterial what) = ''password protector is malformed: missing '' @ what"
| "bde_error_display (AuthenticationFailed what) =
     ''AES-CCM authentication failed unwrapping the '' @ what @ '' (wrong password or corrupt metadata)''"
| "bde_error_display (MalformedKeyContainer what got need) =
     ''decrypted '' @ what @ '' key container is malformed (got '' @ dec_digits got
     @ '' bytes, need at least '' @ dec_digits need @ '')''"

end
