(* ===== verification/Reader.thy ===== *)
theory Reader
  imports Errors
begin

text \<open>
  Readers: what \<^verbatim>\<open>core/src/volume.rs\<close> uses of \<^verbatim>\<open>std::io::{Read, Seek}\<close>, the two fill loops it
  builds on them, and the contract of a reader that serves a byte image (\<open>image_reader\<close>), which may
  answer with short reads and be interrupted a bounded number of times.  The contract is interpreted on
  \<^verbatim>\<open>Cursor<Vec<u8>>\<close> here and on the decrypted volume itself in \<open>ReadPath\<close>.
\<close>

section \<open>Calls on a reader\<close>

text \<open>A call ends with an outcome and the reader's next state, or never returns (\<open>None\<close>).\<close>

type_synonym ('e, 'a, 'r) io = "(('e, 'a) outcome \<times> 'r) option"

datatype seek_from = SeekStart u64 | SeekEnd i64 | SeekCurrent i64

text \<open>
  \<open>read_op ops r n\<close> is \<^verbatim>\<open>read\<close> on a buffer of \<open>n\<close> bytes; a value \<^verbatim>\<open>Ok(k)\<close> is the list of the \<open>k\<close>
  bytes at the front of the buffer afterwards.
\<close>

record 'r reader_ops =
  read_op :: "'r \<Rightarrow> nat \<Rightarrow> (io_error, bytes, 'r) io"
  seek_op :: "'r \<Rightarrow> seek_from \<Rightarrow> (io_error, u64, 'r) io"

text \<open>The \<^verbatim>\<open>?\<close> operator on such calls, and \<^verbatim>\<open>From<std::io::Error>\<close>.\<close>

definition bind_io :: "('e, 'a, 'r) io \<Rightarrow> ('a \<Rightarrow> 'r \<Rightarrow> ('e, 'b, 'r) io) \<Rightarrow> ('e, 'b, 'r) io" where
  "bind_io m f =
     (case m of None \<Rightarrow> None
      | Some (Ok a, r) \<Rightarrow> f a r | Some (Err e, r) \<Rightarrow> Some (Err e, r) | Some (Panic, r) \<Rightarrow> Some (Panic, r))"

definition map_io_err :: "('e \<Rightarrow> 'f) \<Rightarrow> ('e, 'a, 'r) io \<Rightarrow> ('f, 'a, 'r) io" where
  "map_io_err g m = map_option (\<lambda>(x, r). (map_err g x, r)) m"

definition pure_io :: "('e, 'a) outcome \<Rightarrow> 'r \<Rightarrow> ('e, 'a, 'r) io" where
  "pure_io x r = Some (x, r)"

definition bde_io :: "(io_error, 'a, 'r) io \<Rightarrow> (bde_error, 'a, 'r) io" where
  "bde_io = map_io_err Io"

section \<open>Fill loops\<close>

text \<open>
  The loop of \<^verbatim>\<open>read_available\<close>, which is also that of the standard \<^verbatim>\<open>read_exact\<close>: read into what is left
  of an \<open>n\<close>-byte buffer until it is full or the reader reports the end; retry when interrupted.
  \<open>filled\<close> holds the bytes read so far.
\<close>

partial_function (option) fill_loop ::
    "'r reader_ops \<Rightarrow> 'r \<Rightarrow> nat \<Rightarrow> bytes \<Rightarrow> (io_error, bytes, 'r) io" where
  "fill_loop ops r n filled =
     (if length filled < n then
        Option.bind (read_op ops r (n - length filled)) (\<lambda>(res, r').
          case res of
            Ok d \<Rightarrow> if d = [] then Some (Ok filled, r') else fill_loop ops r' n (filled @ d)
          | Err e \<Rightarrow> if io_kind_of e = Interrupted then fill_loop ops r' n filled else Some (Err e, r')
          | Panic \<Rightarrow> Some (Panic, r'))
      else Some (Ok filled, r))"

text \<open>
  \<^verbatim>\<open>read_available\<close>: the buffer, zero-filled after the real bytes, and their count.  A reader that
  claims more bytes than the buffer holds makes the slice \<^verbatim>\<open>buf[filled..]\<close> panic.
\<close>

definition read_available :: "'r reader_ops \<Rightarrow> 'r \<Rightarrow> nat \<Rightarrow> (bde_error, bytes \<times> nat, 'r) io" where
  "read_available ops r n =
     bind_io (bde_io (fill_loop ops r n [])) (\<lambda>filled r'.
       if length filled \<le> n
       then pure_io (Ok (filled @ replicate (n - length filled) 0, length filled)) r'
       else pure_io Panic r')"

definition EOF_ERROR :: io_error where
  "EOF_ERROR = \<lparr>io_kind_of = UnexpectedEof, io_text = ''failed to fill whole buffer''\<rparr>"

text \<open>The standard library's default \<^verbatim>\<open>read_exact\<close>, and \<^verbatim>\<open>read_fill\<close> on top of it.\<close>

definition read_exact :: "'r reader_ops \<Rightarrow> 'r \<Rightarrow> nat \<Rightarrow> (io_error, bytes, 'r) io" where
  "read_exact ops r n =
     bind_io (fill_loop ops r n []) (\<lambda>filled r'.
       if length filled < n then pure_io (Err EOF_ERROR) r'
       else if length filled = n then pure_io (Ok filled) r' else pure_io Panic r')"

definition read_fill :: "'r reader_ops \<Rightarrow> 'r \<Rightarrow> nat \<Rightarrow> (bde_error, bytes, 'r) io" where
  "read_fill ops r n = bde_io (read_exact ops r n)"

section \<open>Cursor\<close>

text \<open>\<^verbatim>\<open>std::io::Cursor<Vec<u8>>\<close>.\<close>

record cursor =
  cur_data :: bytes
  cur_pos :: u64

definition INVALID_SEEK :: io_error where
  "INVALID_SEEK = \<lparr>io_kind_of = InvalidInput, io_text = ''invalid seek to a negative or overflowing position''\<rparr>"

definition checked_add_signed :: "u64 \<Rightarrow> i64 \<Rightarrow> u64 option" where
  "checked_add_signed base off =
     (let s = uint base + sint off in if 0 \<le> s \<and> s < 2 ^ 64 then Some (word_of_int s) else None)"

definition cursor_read :: "cursor \<Rightarrow> nat \<Rightarrow> (io_error, bytes, cursor) io" where
  "cursor_read c n =
     (let d = take n (drop (unat (cur_pos c)) (cur_data c))
      in Some (Ok d, c\<lparr>cur_pos := cur_pos c + word_of_nat (length d)\<rparr>))"

definition cursor_seek :: "cursor \<Rightarrow> seek_from \<Rightarrow> (io_error, u64, cursor) io" where
  "cursor_seek c s =
     (case (case s of SeekStart n \<Rightarrow> Some n
            | SeekEnd off \<Rightarrow> checked_add_signed (word_of_nat (length (cur_data c))) off
            | SeekCurrent off \<Rightarrow> checked_add_signed (cur_pos c) off) of
        Some n \<Rightarrow> Some (Ok n, c\<lparr>cur_pos := n\<rparr>)
      | None \<Rightarrow> Some (Err INVALID_SEEK, c))"

definition cursor_ops :: "cursor reader_ops" where
  "cursor_ops = \<lparr>read_op = cursor_read, seek_op = cursor_seek\<rparr>"

definition cursor_of :: "bytes \<Rightarrow> cursor" where
  "cursor_of bs = \<lparr>cur_data = bs, cur_pos = 0\<rparr>"

definition cursor_inv :: "cursor \<Rightarrow> bool" where
  "cursor_inv c \<longleftrightarrow> length (cur_data c) < 2 ^ 63"

section \<open>Lemmas on calls\<close>

lemma bind_io_simps [simp]:
  "bind_io (Some (Ok a, r)) f = f a r" "bind_io (Some (Err e, r)) f = Some (Err e, r)"
  "bind_io (Some (Panic, r)) f = Some (Panic, r)" "bind_io None f = None"
  by (simp_all add: bind_io_def)

lemma map_io_err_simps [simp]:
  "map_io_err g (Some (x, r)) = Some (map_err g x, r)" "map_io_err g None = None"
  by (simp_all add: map_io_err_def)

lemma bde_io_simps [simp]:
  "bde_io (Some (Ok a, r)) = Some (Ok a, r)" "bde_io (Some (Err e, r)) = Some (Err (Io e), r)"
  "bde_io (Some (Panic, r)) = Some (Panic, r)" "bde_io None = None"
  by (simp_all add: bde_io_def)

lemma pure_io_simps [simp]: "bind_io (pure_io (Ok a) r) f = f a r" "bind_io (pure_io (Err e) r) f = Some (Err e, r)"
  by (simp_all add: pure_io_def)

lemma bind_io_Some_iff:
  "bind_io m f = Some (x, r') \<longleftrightarrow>
     (\<exists>a r. m = Some (Ok a, r) \<and> f a r = Some (x, r'))
     \<or> (\<exists>e. m = Some (Err e, r') \<and> x = Err e) \<or> m = Some (Panic, r') \<and> x = Panic"
  by (auto simp: bind_io_def split: option.splits outcome.splits)

section \<open>The contract of a reader over an image\<close>

locale image_reader =
  fixes ops :: "'r reader_ops" and inv :: "'r \<Rightarrow> bool" and img :: "'r \<Rightarrow> bytes" and pos :: "'r \<Rightarrow> nat"
    and patience :: "'r \<Rightarrow> nat"
  assumes img_bound: "inv r \<Longrightarrow> length (img r) < 2 ^ 64"
    and read_cases: "inv r \<Longrightarrow>
      (\<exists>d r'. read_op ops r n = Some (Ok d, r') \<and> length d \<le> n \<and> d = take (length d) (drop (pos r) (img r))
              \<and> (d = [] \<longrightarrow> n = 0 \<or> length (img r) \<le> pos r)
              \<and> inv r' \<and> img r' = img r \<and> pos r' = pos r + length d)
      \<or> (\<exists>e r'. read_op ops r n = Some (Err e, r') \<and> io_kind_of e = Interrupted
              \<and> inv r' \<and> img r' = img r \<and> pos r' = pos r \<and> patience r' < patience r)"
    and seek_start: "inv r \<Longrightarrow>
      \<exists>r'. seek_op ops r (SeekStart p) = Some (Ok p, r') \<and> inv r' \<and> img r' = img r \<and> pos r' = unat p"
    and seek_end: "inv r \<Longrightarrow>
      \<exists>r'. seek_op ops r (SeekEnd 0) = Some (Ok (word_of_nat (length (img r))), r') \<and> inv r' \<and> img r' = img r"
begin

text \<open>The fill loop returns, and returns everything there is up to the size asked for.\<close>

lemma fill_loop_image:
  assumes "inv r" and "length filled \<le> n"
  shows "\<exists>r'. fill_loop ops r n filled = Some (Ok (filled @ take (n - length filled) (drop (pos r) (img r))), r')
              \<and> inv r' \<and> img r' = img r"
  using assms
proof (induction "(n - length filled, patience r)" arbitrary: r filled
    rule: wf_induct_rule [OF wf_lex_prod [OF wf_less wf_less]])
  case (1 r filled)
  show ?case
  proof (cases "length filled < n")
    case False
    then show ?thesis
      using "1.prems" by (subst fill_loop.simps) auto
  next
    case True
    from read_cases [OF "1.prems"(1), of "n - length filled"] show ?thesis
    proof (elim disjE exE conjE)
      fix d r'
      assume rd: "read_op ops r (n - length filled) = Some (Ok d, r')" and len: "length d \<le> n - length filled"
        and d: "d = take (length d) (drop (pos r) (img r))" and e: "d = [] \<longrightarrow> n - length filled = 0 \<or> length (img r) \<le> pos r"
        and r': "inv r'" "img r' = img r" "pos r' = pos r + length d"
      show ?thesis
      proof (cases "d = []")
        case True
        with rd e r' \<open>length filled < n\<close> show ?thesis
          by (subst fill_loop.simps) auto
      next
        case False
        then have "n - length (filled @ d) < n - length filled" "length (filled @ d) \<le> n"
          using len \<open>length filled < n\<close> by (auto simp flip: length_greater_0_conv)
        then obtain r2 where r2: "fill_loop ops r' n (filled @ d)
            = Some (Ok ((filled @ d) @ take (n - length (filled @ d)) (drop (pos r') (img r'))), r2)"
          "inv r2" "img r2 = img r'"
          using "1.hyps" [of "filled @ d" r'] r'(1) by auto
        have "length d + (n - length (filled @ d)) = n - length filled"
          using len by simp
        then have "take (n - length filled) (drop (pos r) (img r))
            = take (length d) (drop (pos r) (img r)) @ take (n - length (filled @ d)) (drop (pos r') (img r'))"
          using take_add [of "length d" "n - length (filled @ d)" "drop (pos r) (img r)"] r'(2,3)
          by (metis drop_drop add.commute)
        then have "d @ take (n - length (filled @ d)) (drop (pos r') (img r')) = take (n - length filled) (drop (pos r) (img r))"
          using d by simp
        with r2 r' rd False \<open>length filled < n\<close> show ?thesis
          by (subst fill_loop.simps) simp
      qed
    next
      fix e r'
      assume rd: "read_op ops r (n - length filled) = Some (Err e, r')" "io_kind_of e = Interrupted"
        and r': "inv r'" "img r' = img r" "pos r' = pos r" "patience r' < patience r"
      then show ?thesis
        using "1.hyps" [of filled r'] "1.prems" \<open>length filled < n\<close> by (subst fill_loop.simps) auto
    qed
  qed
qed

lemma read_available_image:
  assumes "inv r"
  shows "\<exists>r'. read_available ops r n
      = Some (Ok (fit n (drop (pos r) (img r)), min n (length (img r) - pos r)), r') \<and> inv r' \<and> img r' = img r"
  using fill_loop_image [OF assms, of "[]" n]
  by (auto simp: read_available_def pure_io_def fit_def min_def)

lemma seek_read_image:
  assumes "inv r"
  shows "\<exists>r1 r2. seek_op ops r (SeekStart p) = Some (Ok p, r1)
      \<and> read_available ops r1 n = Some (Ok (fit n (drop (unat p) (img r)), min n (length (img r) - unat p)), r2)
      \<and> inv r2 \<and> img r2 = img r"
  using seek_start [OF assms, of p] read_available_image by metis

lemma read_fill_image:
  assumes "inv r"
  shows "\<exists>r'. read_fill ops r n
      = Some (if pos r + n \<le> length (img r) \<or> n = 0 then Ok (take n (drop (pos r) (img r))) else Err (Io EOF_ERROR), r')
        \<and> inv r' \<and> img r' = img r"
  using fill_loop_image [OF assms, of "[]" n]
  by (auto simp: read_fill_def read_exact_def pure_io_def min_def)

end

interpretation cur: image_reader cursor_ops cursor_inv cur_data "\<lambda>c. unat (cur_pos c)" "\<lambda>c. 0"
proof unfold_locales
  fix c n
  assume c: "cursor_inv c"
  let ?d = "take n (drop (unat (cur_pos c)) (cur_data c))"
  have "unat (cur_pos c + word_of_nat (length ?d)) = unat (cur_pos c) + length ?d"
  proof (cases "unat (cur_pos c) \<le> length (cur_data c)")
    case True
    then have "unat (cur_pos c) + length ?d < 2 ^ 64"
      using c by (simp add: cursor_inv_def)
    then show ?thesis
      by (simp add: unat_word_ariths unat_of_nat)
  qed simp
  then show "(\<exists>d c'. read_op cursor_ops c n = Some (Ok d, c') \<and> length d \<le> n
        \<and> d = take (length d) (drop (unat (cur_pos c)) (cur_data c))
        \<and> (d = [] \<longrightarrow> n = 0 \<or> length (cur_data c) \<le> unat (cur_pos c))
        \<and> cursor_inv c' \<and> cur_data c' = cur_data c \<and> unat (cur_pos c') = unat (cur_pos c) + length d)
      \<or> (\<exists>e c'. read_op cursor_ops c n = Some (Err e, c') \<and> io_kind_of e = Interrupted
        \<and> cursor_inv c' \<and> cur_data c' = cur_data c \<and> unat (cur_pos c') = unat (cur_pos c) \<and> 0 < (0 :: nat))"
    using c by (auto simp: cursor_ops_def cursor_read_def cursor_inv_def Let_def min_def)
next
  have "uint (w :: u64) < 2 ^ 64" for w
    using uint_bounded [of w] by simp
  then show "cursor_inv c \<Longrightarrow> \<exists>c'. seek_op cursor_ops c (SeekEnd 0) = Some (Ok (word_of_nat (length (cur_data c))), c')
      \<and> cursor_inv c' \<and> cur_data c' = cur_data c" for c
    by (auto simp: cursor_ops_def cursor_seek_def cursor_inv_def checked_add_signed_def Let_def)
qed (auto simp: cursor_ops_def cursor_seek_def cursor_inv_def)

end
