(* ===== verification/Bytes.thy ===== *)
theory Bytes
  imports Prelude
begin

text \<open>
  The bounds-checked little-endian readers of \<^verbatim>\<open>core/src/bytes.rs\<close>.  Every multi-byte field of a
  volume is read through these functions.  The locale \<open>le_reader\<close> states what a reader of one width
  promises; it is interpreted on the three readers, and the parsers rest on its facts.  A Rust slice
  is at most \<^verbatim>\<open>isize::MAX\<close> bytes long, which is the hypothesis \<open>length b < 2 ^ 63\<close> below.
\<close>

section \<open>The readers\<close>

definition le_u16 :: "bytes \<Rightarrow> nat \<Rightarrow> u16" where
  "le_u16 b off =
     from_le (case get_range b off (usize_sat_add off 2) of Some s \<Rightarrow> s | None \<Rightarrow> replicate 2 0)"

definition le_u32 :: "bytes \<Rightarrow> nat \<Rightarrow> u32" where
  "le_u32 b off =
     from_le (case get_range b off (usize_sat_add off 4) of Some s \<Rightarrow> s | None \<Rightarrow> replicate 4 0)"

definition le_u64 :: "bytes \<Rightarrow> nat \<Rightarrow> u64" where
  "le_u64 b off =
     from_le (case get_range b off (usize_sat_add off 8) of Some s \<Rightarrow> s | None \<Rightarrow> replicate 8 0)"

definition read_guid :: "bytes \<Rightarrow> nat \<Rightarrow> bytes" where
  "read_guid b off =
     (case get_range b off (usize_sat_add off 16) of Some s \<Rightarrow> s | None \<Rightarrow> replicate 16 0)"

definition slice_owned :: "bytes \<Rightarrow> nat \<Rightarrow> nat \<Rightarrow> bytes" where
  "slice_owned b off len =
     (let end' = min (usize_sat_add off len) (length b)
      in case get_range b off end' of Some s \<Rightarrow> s | None \<Rightarrow> [])"

section \<open>Saturation never matters for a real slice\<close>

lemma get_range_sat_add:
  assumes "length b < 2 ^ 63"
  shows "get_range b off (usize_sat_add off n)
         = (if off + n \<le> length b then Some (take n (drop off b)) else None)"
  using assms by (auto simp: get_range_def usize_sat_add_def min_def)

section \<open>The contract of a little-endian reader\<close>

locale le_reader =
  fixes rd :: "bytes \<Rightarrow> nat \<Rightarrow> 'a::len word"
  assumes whole_bytes: "8 dvd LENGTH('a)"
    and rd_eq: "length b < 2 ^ 63 \<Longrightarrow>
      rd b off = (if off + LENGTH('a) div 8 \<le> length b
                  then from_le (take (LENGTH('a) div 8) (drop off b)) else 0)"
begin

lemma rd_out_of_range: "length b < 2 ^ 63 \<Longrightarrow> length b < off + LENGTH('a) div 8 \<Longrightarrow> rd b off = 0"
  by (simp add: rd_eq)

lemma rd_skip:
  "length (xs @ ys) < 2 ^ 63 \<Longrightarrow> length xs \<le> off \<Longrightarrow> rd (xs @ ys) off = rd ys (off - length xs)"
  by (auto simp: rd_eq)

lemma rd_drop: "length b < 2 ^ 63 \<Longrightarrow> n \<le> length b \<Longrightarrow> rd (drop n b) off = rd b (n + off)"
  by (auto simp: rd_eq add.commute add.left_commute le_diff_conv2 less_imp_diff_less)

lemma rd_take:
  "length b < 2 ^ 63 \<Longrightarrow> off + LENGTH('a) div 8 \<le> n \<Longrightarrow> n \<le> length b \<Longrightarrow> rd (take n b) off = rd b off"
  by (auto simp: rd_eq drop_take min_def)

lemma rd_front: "length (to_le w @ ys) < 2 ^ 63 \<Longrightarrow> rd (to_le w @ ys) 0 = w"
  using from_le_to_le [OF whole_bytes, of w] by (simp add: rd_eq)

lemma rd_copy_same:
  assumes "length b < 2 ^ 63" and "off + LENGTH('a) div 8 \<le> length b"
  shows "rd (copy_into b off (to_le w)) off = w"
  using assms from_le_to_le [OF whole_bytes, of w] by (simp add: rd_eq copy_into_def)

lemma rd_copy_before:
  assumes "length b < 2 ^ 63" and "i + length src \<le> length b" and "off + LENGTH('a) div 8 \<le> i"
  shows "rd (copy_into b i src) off = rd b off"
proof -
  have "off \<le> i" and "LENGTH('a) div 8 \<le> i - off"
    using assms(3) by simp_all
  then have "take (LENGTH('a) div 8) (drop off (copy_into b i src)) = take (LENGTH('a) div 8) (drop off b)"
    using assms by (simp add: copy_into_def drop_take)
  then show ?thesis
    using assms by (simp add: rd_eq)
qed

lemma rd_copy_after:
  assumes "length b < 2 ^ 63" and "i + length src \<le> length b" and "i + length src \<le> off"
  shows "rd (copy_into b i src) off = rd b off"
proof -
  have "drop off (copy_into b i src) = drop off b"
    using assms by (simp add: copy_into_def min_def)
  then show ?thesis
    using assms by (simp add: rd_eq)
qed

lemma rd_patched_here:
  "length b < 2 ^ 63 \<Longrightarrow> fits (length b) ((off, to_le w) # ps) \<Longrightarrow> rd (patched b ((off, to_le w) # ps)) off = w"
  by (simp add: patched.simps length_patched rd_copy_same)

lemma rd_patched_skip:
  "length b < 2 ^ 63 \<Longrightarrow> fits (length b) ((i, src) # ps) \<Longrightarrow>
   off + LENGTH('a) div 8 \<le> i \<or> i + length src \<le> off \<Longrightarrow>
   rd (patched b ((i, src) # ps)) off = rd (patched b ps) off"
  by (auto simp: patched.simps length_patched rd_copy_before rd_copy_after)

end

interpretation le16: le_reader le_u16
  by unfold_locales (simp_all add: le_u16_def get_range_sat_add from_le_def)

interpretation le32: le_reader le_u32
  by unfold_locales (simp_all add: le_u32_def get_range_sat_add from_le_def)

interpretation le64: le_reader le_u64
  by unfold_locales (simp_all add: le_u64_def get_range_sat_add from_le_def)

lemmas patched_reads =
  le16.rd_patched_here le16.rd_patched_skip le32.rd_patched_here le32.rd_patched_skip
  le64.rd_patched_here le64.rd_patched_skip length_patched

lemma read_guid_eq:
  "length b < 2 ^ 63 \<Longrightarrow>
   read_guid b off = (if off + 16 \<le> length b then take 16 (drop off b) else replicate 16 0)"
  by (simp add: read_guid_def get_range_sat_add)

lemma length_read_guid: "length b < 2 ^ 63 \<Longrightarrow> length (read_guid b off) = 16"
  by (simp add: read_guid_eq)

lemma slice_owned_eq: "length b < 2 ^ 63 \<Longrightarrow> slice_owned b off n = take n (drop off b)"
  by (auto simp: slice_owned_def usize_sat_add_def get_range_def min_def Let_def)

text \<open>
  Writing a value with \<^verbatim>\<open>to_le_bytes\<close> at an offset inside a buffer and reading it back
  there gives the value, at each of the three widths, and a write elsewhere does not disturb it.
\<close>

lemma le_write_read_roundtrip:
  assumes "length b < 2 ^ 63" and "off + 8 \<le> length b"
    and "i + length src \<le> length b" and "i + length src \<le> off \<or> off + 8 \<le> i"
  shows "le_u16 (copy_into b off (to_le u)) off = u
    \<and> le_u32 (copy_into b off (to_le v)) off = v
    \<and> le_u64 (copy_into b off (to_le w)) off = w
    \<and> le_u64 (copy_into (copy_into b off (to_le w)) i src) off = w"
  using assms le16.rd_copy_same [of b off u] le32.rd_copy_same [of b off v] le64.rd_copy_same [of b off w]
    le64.rd_copy_before [of "copy_into b off (to_le w)" i src off]
    le64.rd_copy_after [of "copy_into b off (to_le w)" i src off]
  by auto

section \<open>Properties\<close>

text \<open>
  Property C39.  On every buffer a Rust program can hold, each reader returns the little-endian value
  of the bytes at its offset when all of them are inside the buffer, and zero (or the all-zero GUID)
  when any of them is not; \<open>slice_owned\<close> returns the part of the range that exists.
\<close>

theorem readers_in_and_out_of_range:
  assumes "length b < 2 ^ 63"
  shows "le_u16 b off = (if off + 2 \<le> length b then from_le (take 2 (drop off b)) else 0)
    \<and> le_u32 b off = (if off + 4 \<le> length b then from_le (take 4 (drop off b)) else 0)
    \<and> le_u64 b off = (if off + 8 \<le> length b then from_le (take 8 (drop off b)) else 0)
    \<and> read_guid b off = (if off + 16 \<le> length b then take 16 (drop off b) else replicate 16 0)
    \<and> slice_owned b off n = take n (drop off b)"
  using le16.rd_eq [OF assms, of off] le32.rd_eq [OF assms, of off] le64.rd_eq [OF assms, of off]
    read_guid_eq [OF assms, of off] slice_owned_eq [OF assms, of off n]
  by simp

theorem readers_in_and_out_of_range_witness:
  "le_u16 [1, 2, 3] 0 = 0x0201 \<and> le_u16 [1, 2, 3] 10 = 0 \<and> le_u32 [1, 2, 3] 0 = 0
   \<and> slice_owned [1, 2, 3] 2 100 = [3]"
  using readers_in_and_out_of_range [of "[1, 2, 3]" 0] readers_in_and_out_of_range [of "[1, 2, 3]" 10]
    readers_in_and_out_of_range [of "[1, 2, 3]" 2 100]
  by (simp add: from_le_def)

end
