(* ===== verification/Header.thy ===== *)
theory Header
  imports Bytes Errors
begin

text \<open>
  \<^verbatim>\<open>core/src/header.rs\<close>: recognising the three volume-header layouts and locating the FVE metadata
  blocks.  \<open>wf_volume_header\<close> is the well-formedness the parser establishes and the read path relies
  on; \<open>write_to_go\<close> and \<open>write_win7\<close> lay out a header the parser is proved to read back.
\<close>

section \<open>The code\<close>

datatype bde_variant = WindowsVista | Windows7OrLater | BitLockerToGo

record volume_header =
  variant :: bde_variant
  bytes_per_sector :: u16
  bitlocker_guid :: bytes
  fve_metadata_offsets :: "u64 list"

definition SIG_FVE :: bytes where
  "SIG_FVE = [0x2d, 0x46, 0x56, 0x45, 0x2d, 0x46, 0x53, 0x2d]"

definition SIG_TO_GO :: bytes where
  "SIG_TO_GO = [0x4d, 0x53, 0x57, 0x49, 0x4e, 0x34, 0x2e, 0x31]"

definition BOOT_WIN7 :: bytes where
  "BOOT_WIN7 = [0xeb, 0x58, 0x90]"

definition VolumeHeader_parse :: "bytes \<Rightarrow> (bde_error, volume_header) outcome" where
  "VolumeHeader_parse sector =
     (let signature = (case get_range sector 3 11 of Some s \<Rightarrow> s | None \<Rightarrow> replicate 8 0);
          bps0 = le_u16 sector 11;
          bps = (if bps0 = 0 then 512 else bps0)
      in if signature = SIG_TO_GO then
           Ok \<lparr>variant = BitLockerToGo, bytes_per_sector = bps, bitlocker_guid = read_guid sector 424,
              fve_metadata_offsets = [le_u64 sector 440, le_u64 sector 448, le_u64 sector 456]\<rparr>
         else if signature = SIG_FVE then
           (let boot = (case get_range sector 0 3 of Some s \<Rightarrow> s | None \<Rightarrow> [])
            in if boot = BOOT_WIN7 then
                 Ok \<lparr>variant = Windows7OrLater, bytes_per_sector = bps, bitlocker_guid = read_guid sector 160,
                    fve_metadata_offsets = [le_u64 sector 176, le_u64 sector 184, le_u64 sector 192]\<rparr>
               else
                 (let spc8 = (if 13 < length sector then sector ! 13 else 1);
                      sectors_per_cluster = (ucast (max spc8 1) :: u64);
                      cluster_size = (ucast bps :: u64) * sectors_per_cluster;
                      block1 = sat_mul_u64 (le_u64 sector 56) cluster_size
                  in Ok \<lparr>variant = WindowsVista, bytes_per_sector = bps, bitlocker_guid = replicate 16 0,
                        fve_metadata_offsets = [block1, 0, 0]\<rparr>))
         else Err (NotBitLocker signature))"

section \<open>Specification\<close>

definition wf_volume_header :: "volume_header \<Rightarrow> bool" where
  "wf_volume_header h \<longleftrightarrow>
     bytes_per_sector h \<noteq> 0 \<and> length (bitlocker_guid h) = 16 \<and> length (fve_metadata_offsets h) = 3"

text \<open>The eight signature bytes the parser sees: zeros when the sector is too short.\<close>

definition signature_of :: "bytes \<Rightarrow> bytes" where
  "signature_of sector = (if 11 \<le> length sector then take 8 (drop 3 sector) else replicate 8 0)"

text \<open>Writers for the two layouts with fixed offsets, over any 512-byte base sector.\<close>

definition write_to_go :: "bytes \<Rightarrow> u16 \<Rightarrow> bytes \<Rightarrow> u64 \<Rightarrow> u64 \<Rightarrow> u64 \<Rightarrow> bytes" where
  "write_to_go base bps guid a b c =
     apply_patches base
       [(3, SIG_TO_GO), (11, to_le bps), (424, guid), (440, to_le a), (448, to_le b), (456, to_le c)]"

definition write_win7 :: "bytes \<Rightarrow> u16 \<Rightarrow> bytes \<Rightarrow> u64 \<Rightarrow> u64 \<Rightarrow> u64 \<Rightarrow> bytes" where
  "write_win7 base bps guid a b c =
     apply_patches base
       [(0, BOOT_WIN7), (3, SIG_FVE), (11, to_le bps), (160, guid), (176, to_le a), (184, to_le b), (192, to_le c)]"

section \<open>Lemmas\<close>

lemma length_signatures [simp]: "length SIG_FVE = 8" "length SIG_TO_GO = 8" "length BOOT_WIN7 = 3"
  by (simp_all add: SIG_FVE_def SIG_TO_GO_def BOOT_WIN7_def)

lemma signature_distinct [simp]: "SIG_FVE \<noteq> SIG_TO_GO" "SIG_TO_GO \<noteq> SIG_FVE"
  by (simp_all add: SIG_FVE_def SIG_TO_GO_def)

lemma zero_signature [simp]: "replicate 8 0 \<noteq> SIG_FVE" "replicate 8 0 \<noteq> SIG_TO_GO"
  by (auto simp: SIG_FVE_def SIG_TO_GO_def dest!: arg_cong [of _ _ hd])

lemma signature_case:
  "(case get_range sector 3 11 of Some s \<Rightarrow> s | None \<Rightarrow> replicate 8 0) = signature_of sector"
  by (simp add: get_range_def signature_of_def)

lemma VolumeHeader_parse_Ok_wf:
  assumes "length sector < 2 ^ 63" and "VolumeHeader_parse sector = Ok h"
  shows "wf_volume_header h"
  using assms
  by (auto simp: VolumeHeader_parse_def wf_volume_header_def Let_def length_read_guid split: if_splits)

text \<open>The Vista offset is a saturating product.\<close>

lemma vista_block_offset:
  assumes "length sector < 2 ^ 63" and "VolumeHeader_parse sector = Ok h" and "variant h = WindowsVista"
  shows "map unat (fve_metadata_offsets h) =
    [min (2 ^ 64 - 1) (unat (le_u64 sector 56) *
       (unat (bytes_per_sector h) * unat (max (if 13 < length sector then sector ! 13 else 1) 1))), 0, 0]"
proof -
  have cluster: "unat ((ucast (b :: u16) :: u64) * ucast (c :: u8)) = unat b * unat c" for b c
  proof -
    have "unat b < 2 ^ 16" and "unat c < 2 ^ 8"
      using unsigned_less [of b, where 'a = nat] unsigned_less [of c, where 'a = nat] by simp_all
    then have "unat b * unat c < 2 ^ 16 * 2 ^ 8"
      by (intro mult_strict_mono) simp_all
    with \<open>unat b < 2 ^ 16\<close> \<open>unat c < 2 ^ 8\<close> show ?thesis
      by (simp add: unat_word_ariths unsigned_ucast_eq take_bit_nat_eq_self less_trans)
  qed
  have sat: "unat (sat_mul_u64 x y) = min (2 ^ 64 - 1) (unat x * unat y)" for x y
    by (auto simp: sat_mul_u64_def unat_word_ariths min_def)
  have "fve_metadata_offsets h = [sat_mul_u64 (le_u64 sector 56)
      (ucast (bytes_per_sector h) * ucast (max (if 13 < length sector then sector ! 13 else 1) 1)), 0, 0]"
    using assms by (auto simp: VolumeHeader_parse_def Let_def split: if_splits)
  then show ?thesis
    by (simp only: list.map sat cluster) simp
qed

section \<open>Properties\<close>

text \<open>
  Property C28.  Parsing accepts a sector exactly when its eight bytes at offset 3 are one of the two
  signatures, reports those bytes otherwise, and picks the variant by signature and boot entry; it
  never panics, whatever the sector's length.
\<close>

theorem header_parse_classifies:
  "VolumeHeader_parse sector \<noteq> Panic
   \<and> (VolumeHeader_parse sector = Err e \<longleftrightarrow>
        signature_of sector \<noteq> SIG_TO_GO \<and> signature_of sector \<noteq> SIG_FVE
        \<and> e = NotBitLocker (signature_of sector))
   \<and> (\<exists>h. VolumeHeader_parse sector = Ok h \<and> variant h = BitLockerToGo) = (signature_of sector = SIG_TO_GO)
   \<and> (\<exists>h. VolumeHeader_parse sector = Ok h \<and> variant h = Windows7OrLater)
       = (signature_of sector = SIG_FVE \<and> take 3 sector = BOOT_WIN7)
   \<and> (\<exists>h. VolumeHeader_parse sector = Ok h \<and> variant h = WindowsVista)
       = (signature_of sector = SIG_FVE \<and> take 3 sector \<noteq> BOOT_WIN7)"
proof -
  have boot: "(case get_range sector 0 3 of Some s \<Rightarrow> s | None \<Rightarrow> []) = BOOT_WIN7 \<longleftrightarrow> take 3 sector = BOOT_WIN7"
    by (auto simp: get_range_def BOOT_WIN7_def dest: arg_cong [of _ _ length])
  show ?thesis
    by (auto simp: VolumeHeader_parse_def Let_def signature_case boot)
qed

text \<open>
  Property C29.  Round trip: a header written in the To Go or the Windows 7 layout over any 512-byte
  sector parses back to the sector size, GUID and three offsets that were written.  On the Vista layout
  the one metadata offset is the cluster number times the cluster size, clamped to the largest \<^verbatim>\<open>u64\<close>:
  the multiplication never wraps to a small offset.
\<close>

theorem header_roundtrip:
  assumes "length base = 512" and "length guid = 16" and "bps \<noteq> 0"
  shows "VolumeHeader_parse (write_to_go base bps guid a b c)
         = Ok \<lparr>variant = BitLockerToGo, bytes_per_sector = bps, bitlocker_guid = guid,
             fve_metadata_offsets = [a, b, c]\<rparr>
    \<and> VolumeHeader_parse (write_win7 base bps guid a b c)
         = Ok \<lparr>variant = Windows7OrLater, bytes_per_sector = bps, bitlocker_guid = guid,
             fve_metadata_offsets = [a, b, c]\<rparr>
    \<and> (\<forall>sector h. length sector < 2 ^ 63 \<longrightarrow> VolumeHeader_parse sector = Ok h \<longrightarrow> variant h = WindowsVista \<longrightarrow>
         map unat (fve_metadata_offsets h) =
         [min (2 ^ 64 - 1) (unat (le_u64 sector 56) *
            (unat (bytes_per_sector h) * unat (max (if 13 < length sector then sector ! 13 else 1) 1))), 0, 0])"
proof (intro conjI allI impI)
  show "VolumeHeader_parse (write_to_go base bps guid a b c)
         = Ok \<lparr>variant = BitLockerToGo, bytes_per_sector = bps, bitlocker_guid = guid,
             fve_metadata_offsets = [a, b, c]\<rparr>"
    using assms
    by (simp add: VolumeHeader_parse_def Let_def signature_case signature_of_def write_to_go_def
        read_guid_eq apply_patches_eq patched_reads slice_simps)
  show "VolumeHeader_parse (write_win7 base bps guid a b c)
         = Ok \<lparr>variant = Windows7OrLater, bytes_per_sector = bps, bitlocker_guid = guid,
             fve_metadata_offsets = [a, b, c]\<rparr>"
    using assms
    by (simp add: VolumeHeader_parse_def Let_def signature_case signature_of_def write_win7_def
        read_guid_eq apply_patches_eq patched_reads slice_simps)
qed (rule vista_block_offset)

theorem header_roundtrip_witness:
  "VolumeHeader_parse (write_to_go (replicate 512 0) 512 (replicate 16 7) 0x2100000 0x2b55800 0x35ab000)
     = Ok \<lparr>variant = BitLockerToGo, bytes_per_sector = 512, bitlocker_guid = replicate 16 7,
         fve_metadata_offsets = [0x2100000, 0x2b55800, 0x35ab000]\<rparr>"
  using header_roundtrip [of "replicate 512 0" "replicate 16 7" 512 "0x2100000" "0x2b55800" "0x35ab000"]
  by simp

end
