(* ===== verification/Metadata.thy ===== *)
theory Metadata
  imports Header
begin

text \<open>
  \<^verbatim>\<open>core/src/metadata.rs\<close>: the sequence of metadata entries (parsed by a loop that must not trust the
  sizes it reads) and the FVE metadata block.  \<open>encode_entry\<close> is the on-disk form of an entry; the
  parser is characterised against it in both directions.  \<open>write_block\<close> lays out a block the parser is
  proved to read back.
\<close>

section \<open>Entries\<close>

definition ENTRY_TYPE_VMK :: u16 where [simp]: "ENTRY_TYPE_VMK = 0x0002"
definition ENTRY_TYPE_FVEK :: u16 where [simp]: "ENTRY_TYPE_FVEK = 0x0003"
definition ENTRY_TYPE_VOLUME_HEADER :: u16 where [simp]: "ENTRY_TYPE_VOLUME_HEADER = 0x000f"
definition VALUE_TYPE_KEY :: u16 where [simp]: "VALUE_TYPE_KEY = 0x0001"
definition VALUE_TYPE_AES_CCM :: u16 where [simp]: "VALUE_TYPE_AES_CCM = 0x0005"
definition VALUE_TYPE_EXTERNAL_KEY :: u16 where [simp]: "VALUE_TYPE_EXTERNAL_KEY = 0x0009"
definition VALUE_TYPE_STRETCH :: u16 where [simp]: "VALUE_TYPE_STRETCH = 0x0003"
definition VALUE_TYPE_VMK :: u16 where [simp]: "VALUE_TYPE_VMK = 0x0008"
definition PROTECTION_PASSWORD :: u16 where [simp]: "PROTECTION_PASSWORD = 0x2000"
definition PROTECTION_RECOVERY :: u16 where [simp]: "PROTECTION_RECOVERY = 0x0800"
definition PROTECTION_STARTUP_KEY :: u16 where [simp]: "PROTECTION_STARTUP_KEY = 0x0200"
definition PROTECTION_CLEAR :: u16 where [simp]: "PROTECTION_CLEAR = 0x0000"

lemmas type_code_defs = ENTRY_TYPE_VMK_def ENTRY_TYPE_FVEK_def ENTRY_TYPE_VOLUME_HEADER_def
  VALUE_TYPE_KEY_def VALUE_TYPE_AES_CCM_def VALUE_TYPE_EXTERNAL_KEY_def VALUE_TYPE_STRETCH_def VALUE_TYPE_VMK_def

record metadata_entry =
  entry_type :: u16
  value_type :: u16
  version :: u16
  entry_data :: bytes

function parse_sequence_loop :: "bytes \<Rightarrow> nat \<Rightarrow> metadata_entry list \<Rightarrow> metadata_entry list" where
  "parse_sequence_loop dat pos out =
     (if pos + 8 \<le> length dat then
        (let size' = unat (le_u16 dat pos)
         in if size' < 8 \<or> length dat < pos + size' then out
            else parse_sequence_loop dat (pos + size')
                   (out @ [\<lparr>entry_type = le_u16 dat (pos + 2), value_type = le_u16 dat (pos + 4),
                            version = le_u16 dat (pos + 6),
                            entry_data = slice_owned dat (pos + 8) (size' - 8)\<rparr>]))
      else out)"
  by pat_completeness auto
termination
  by (relation "measure (\<lambda>(dat, pos, out). length dat - pos)") auto

declare parse_sequence_loop.simps [simp del]

definition parse_sequence :: "bytes \<Rightarrow> metadata_entry list" where
  "parse_sequence dat = parse_sequence_loop dat 0 []"

definition nested :: "metadata_entry \<Rightarrow> nat \<Rightarrow> ('e, metadata_entry list) outcome" where
  "nested e offset =
     (let start = min offset (length (entry_data e))
      in bind_outcome (index_from (entry_data e) start) (\<lambda>s. Ok (parse_sequence s)))"

definition is_vmk :: "metadata_entry \<Rightarrow> bool" where
  "is_vmk e \<longleftrightarrow> entry_type e = ENTRY_TYPE_VMK \<and> value_type e = VALUE_TYPE_VMK"

definition protection_type :: "metadata_entry \<Rightarrow> u16 option" where
  "protection_type e = (if is_vmk e then Some (le_u16 (entry_data e) 26) else None)"

section \<open>Blocks\<close>

record fve_metadata =
  encryption_method :: u16
  volume_guid :: bytes
  creation_time :: u64
  entries :: "metadata_entry list"
  encrypted_volume_size :: u64
  volume_header_offset :: u64
  volume_header_size :: u64
  metadata_offsets :: "u64 list"
  metadata_size :: u32

text \<open>The entry array: after the 48-byte metadata header at offset 64, bounded by its size field.\<close>

definition block_entries :: "bytes \<Rightarrow> ('e, metadata_entry list) outcome" where
  "block_entries block =
     (let mh = 64;
          msize = le_u32 block mh;
          entries_start = mh + 48;
          entries_end = min (mh + unat msize) (length block)
      in if entries_end > entries_start
         then bind_outcome (index_range block entries_start entries_end) (\<lambda>s. Ok (parse_sequence s))
         else Ok [])"

text \<open>The relocated volume-header region: the 0x000f entry where it is non-zero, else the defaults.\<close>

definition resolve_volume_header :: "metadata_entry list \<Rightarrow> u64 \<Rightarrow> u64 \<Rightarrow> u64 \<times> u64" where
  "resolve_volume_header ents vho0 vhs0 =
     (case find (\<lambda>e. entry_type e = ENTRY_TYPE_VOLUME_HEADER) ents of
        None \<Rightarrow> (vho0, vhs0)
      | Some e \<Rightarrow>
          (let bo = le_u64 (entry_data e) 0; bs = le_u64 (entry_data e) 8
           in (if bo \<noteq> 0 then bo else vho0, if bs \<noteq> 0 then bs else vhs0)))"

definition FveMetadata_parse :: "bytes \<Rightarrow> u16 \<Rightarrow> ('e, fve_metadata option) outcome" where
  "FveMetadata_parse block bps =
     (if get_range block 0 8 \<noteq> Some SIG_FVE then Ok None
      else
        (let evs = le_u64 block 16;
             num_volume_header_sectors = le_u32 block 28;
             offsets = [le_u64 block 32, le_u64 block 40, le_u64 block 48];
             block_volume_header_offset = le_u64 block 56;
             mh = 64;
             msize = le_u32 block mh;
             guid = read_guid block (mh + 16);
             enc_method = le_u16 block (mh + 36);
             ctime = le_u64 block (mh + 40)
         in bind_outcome (block_entries block)
              (\<lambda>ents.
                 let region =
                       resolve_volume_header ents block_volume_header_offset
                         ((ucast num_volume_header_sectors :: u64) * ucast bps)
                 in Ok (Some \<lparr>encryption_method = enc_method, volume_guid = guid, creation_time = ctime,
                              entries = ents, encrypted_volume_size = evs,
                              volume_header_offset = fst region, volume_header_size = snd region,
                              metadata_offsets = offsets, metadata_size = msize\<rparr>))))"

definition vmk_entries :: "fve_metadata \<Rightarrow> metadata_entry list" where
  "vmk_entries m = filter is_vmk (entries m)"

definition protector_types :: "fve_metadata \<Rightarrow> u16 list" where
  "protector_types m = List.map_filter protection_type (vmk_entries m)"

definition fvek_entry :: "fve_metadata \<Rightarrow> metadata_entry option" where
  "fvek_entry m = find (\<lambda>e. entry_type e = ENTRY_TYPE_FVEK \<and> value_type e = VALUE_TYPE_AES_CCM) (entries m)"

section \<open>Specification\<close>

text \<open>An entry fits its 16-bit size field; its on-disk form; a sequence of entries.\<close>

definition wf_entry :: "metadata_entry \<Rightarrow> bool" where
  "wf_entry e \<longleftrightarrow> length (entry_data e) + 8 < 2 ^ 16"

definition encode_entry :: "metadata_entry \<Rightarrow> bytes" where
  "encode_entry e =
     to_le (word_of_nat (8 + length (entry_data e)) :: u16) @ to_le (entry_type e) @ to_le (value_type e)
     @ to_le (version e) @ entry_data e"

definition encode_entries :: "metadata_entry list \<Rightarrow> bytes" where
  "encode_entries es = concat (map encode_entry es)"

text \<open>What the loop stops at: fewer than eight bytes, or a size field that lies.\<close>

definition no_entry :: "bytes \<Rightarrow> bool" where
  "no_entry rest \<longleftrightarrow>
     length rest < 8 \<or> unat (le_u16 rest 0) < 8 \<or> length rest < unat (le_u16 rest 0)"

text \<open>A block laid out field by field over a zeroed buffer, entries last.\<close>

definition write_block ::
    "u64 \<Rightarrow> u32 \<Rightarrow> u64 \<times> u64 \<times> u64 \<Rightarrow> u64 \<Rightarrow> bytes \<Rightarrow> u16 \<Rightarrow> u64 \<Rightarrow> bytes \<Rightarrow> bytes" where
  "write_block evs nsec offs vho guid meth ctime ebytes =
     (case offs of (a, b, c) \<Rightarrow>
        apply_patches (replicate (112 + length ebytes) 0)
          [(0, SIG_FVE), (16, to_le evs), (28, to_le nsec), (32, to_le a), (40, to_le b), (48, to_le c),
           (56, to_le vho), (64, to_le (word_of_nat (48 + length ebytes) :: u32)), (80, guid),
           (100, to_le meth), (104, to_le ctime), (112, ebytes)])"

text \<open>The loop as a recursion on the remaining bytes.\<close>

definition head_entry :: "bytes \<Rightarrow> metadata_entry" where
  "head_entry dat =
     \<lparr>entry_type = le_u16 dat 2, value_type = le_u16 dat 4, version = le_u16 dat 6,
      entry_data = take (unat (le_u16 dat 0) - 8) (drop 8 dat)\<rparr>"

function parse_entries :: "bytes \<Rightarrow> metadata_entry list" where
  "parse_entries dat =
     (if no_entry dat then [] else head_entry dat # parse_entries (drop (unat (le_u16 dat 0)) dat))"
  by pat_completeness auto
termination
  by (relation "measure length") (auto simp: no_entry_def)

declare parse_entries.simps [simp del]

section \<open>The entry loop\<close>

lemma parse_sequence_loop_eq:
  assumes "length dat < 2 ^ 63" and "pos \<le> length dat"
  shows "parse_sequence_loop dat pos out = out @ parse_entries (drop pos dat)"
  using assms
proof (induction dat pos out rule: parse_sequence_loop.induct)
  case (1 dat pos out)
  let ?size = "unat (le_u16 dat pos)"
  have rd: "le_u16 (drop pos dat) k = le_u16 dat (pos + k)" for k
    using "1.prems" by (simp add: le16.rd_drop)
  have stop: "no_entry (drop pos dat) \<longleftrightarrow> \<not> (pos + 8 \<le> length dat \<and> 8 \<le> ?size \<and> pos + ?size \<le> length dat)"
    using "1.prems" by (auto simp: no_entry_def rd [of 0, simplified])
  show ?case
  proof (cases "no_entry (drop pos dat)")
    case True
    then show ?thesis
      using stop by (subst parse_sequence_loop.simps, subst parse_entries.simps) (auto simp: Let_def)
  next
    case False
    then have go: "pos + 8 \<le> length dat" "\<not> (?size < 8 \<or> length dat < pos + ?size)"
      using stop by auto
    let ?e = "\<lparr>entry_type = le_u16 dat (pos + 2), value_type = le_u16 dat (pos + 4),
               version = le_u16 dat (pos + 6), entry_data = slice_owned dat (pos + 8) (?size - 8)\<rparr>"
    have "parse_sequence_loop dat pos out = parse_sequence_loop dat (pos + ?size) (out @ [?e])"
      using go by (subst parse_sequence_loop.simps) (simp add: Let_def)
    also have "\<dots> = (out @ [?e]) @ parse_entries (drop (pos + ?size) dat)"
      using "1.IH" go "1.prems" by simp
    also have "?e = head_entry (drop pos dat)"
      using "1.prems" by (simp add: head_entry_def rd rd [of 0, simplified] slice_owned_eq add.commute)
    finally have "parse_sequence_loop dat pos out
        = out @ head_entry (drop pos dat) # parse_entries (drop (pos + ?size) dat)"
      by simp
    moreover have "parse_entries (drop pos dat)
        = head_entry (drop pos dat) # parse_entries (drop (pos + ?size) dat)"
      using False by (subst parse_entries.simps) (simp add: rd [of 0, simplified] add.commute)
    ultimately show ?thesis
      by simp
  qed
qed

lemma parse_sequence_eq: "length dat < 2 ^ 63 \<Longrightarrow> parse_sequence dat = parse_entries dat"
  by (simp add: parse_sequence_def parse_sequence_loop_eq)

lemma take_chunk: "i + n = j \<Longrightarrow> n + m = k \<Longrightarrow> take n (drop i xs) @ take m (drop j xs) = take k (drop i xs)"
  by (metis take_add drop_drop add.commute)

lemma zeros_read: "le_u64 (replicate n 0) off = 0" "le_u16 (replicate n 0) off = 0" if "n < 2 ^ 63"
  using that by (simp_all add: le64.rd_eq le16.rd_eq)

lemma sector_size_512:
  assumes "take 1 (drop 11 w) = [0]" and "take 1 (drop 12 w) = [2]" and "length w < 2 ^ 63" and "13 \<le> length w"
  shows "le_u16 w 11 = 512"
proof -
  have "take 2 (drop 11 w) = [0, 2]"
    using take_chunk [of 11 1 12 1 2 w] assms(1,2) by simp
  then show ?thesis
    using assms(3,4) by (simp add: le16.rd_eq from_le_def)
qed

lemma to_le_le_u16: "length dat < 2 ^ 63 \<Longrightarrow> off + 2 \<le> length dat \<Longrightarrow> to_le (le_u16 dat off) = take 2 (drop off dat)"
  using to_le_from_le [of "take 2 (drop off dat)", where 'a = 16] by (simp add: le16.rd_eq)

lemma encode_head_entry:
  assumes "length dat < 2 ^ 63" and "\<not> no_entry dat"
  shows "encode_entry (head_entry dat) = take (unat (le_u16 dat 0)) dat" and "wf_entry (head_entry dat)"
proof -
  let ?n = "unat (le_u16 dat 0)"
  have n: "8 \<le> length dat" "8 \<le> ?n" "?n \<le> length dat" "?n < 2 ^ 16"
    using assms(2) unsigned_less [of "le_u16 dat 0", where 'a = nat] by (auto simp: no_entry_def)
  then have len: "length (entry_data (head_entry dat)) = ?n - 8"
    by (simp add: head_entry_def)
  then show "wf_entry (head_entry dat)"
    using n by (simp add: wf_entry_def)
  have "encode_entry (head_entry dat)
        = take 2 dat @ take 2 (drop 2 dat) @ take 2 (drop 4 dat) @ take 2 (drop 6 dat) @ take (?n - 8) (drop 8 dat)"
    using n len assms(1) to_le_le_u16 [of dat 0] by (simp add: encode_entry_def head_entry_def to_le_le_u16)
  also have "take 2 (drop 6 dat) @ take (?n - 8) (drop 8 dat) = take (?n - 6) (drop 6 dat)"
    using take_chunk [of 6 2 8 "?n - 8" "?n - 6" dat] n(2) by simp
  also have "take 2 (drop 4 dat) @ take (?n - 6) (drop 6 dat) = take (?n - 4) (drop 4 dat)"
    using take_chunk [of 4 2 6 "?n - 6" "?n - 4" dat] n(2) by simp
  also have "take 2 (drop 2 dat) @ take (?n - 4) (drop 4 dat) = take (?n - 2) (drop 2 dat)"
    using take_chunk [of 2 2 4 "?n - 4" "?n - 2" dat] n(2) by simp
  also have "take 2 dat @ take (?n - 2) (drop 2 dat) = take ?n dat"
    using take_chunk [of 0 2 2 "?n - 2" ?n dat] n(2) by simp
  finally show "encode_entry (head_entry dat) = take ?n dat" .
qed

lemma parse_entries_sound:
  assumes "length dat < 2 ^ 63"
  shows "\<exists>rest. dat = encode_entries (parse_entries dat) @ rest \<and> no_entry rest
                \<and> list_all wf_entry (parse_entries dat)"
  using assms
proof (induction dat rule: parse_entries.induct)
  case (1 dat)
  show ?case
  proof (cases "no_entry dat")
    case True
    then show ?thesis
      by (subst parse_entries.simps, subst (2) parse_entries.simps) (simp add: encode_entries_def)
  next
    case False
    let ?d = "drop (unat (le_u16 dat 0)) dat"
    have "length ?d < 2 ^ 63"
      using "1.prems" by (simp add: less_imp_diff_less)
    from "1.IH" [OF False this] obtain rest
      where rest: "?d = encode_entries (parse_entries ?d) @ rest" "no_entry rest" "list_all wf_entry (parse_entries ?d)"
      by auto
    have "parse_entries dat = head_entry dat # parse_entries ?d"
      using False by (subst parse_entries.simps) simp
    moreover have "dat = encode_entry (head_entry dat) @ encode_entries (parse_entries ?d) @ rest"
      using encode_head_entry(1) [OF "1.prems" False] rest(1) by (metis append_take_drop_id)
    then have "dat = encode_entries (head_entry dat # parse_entries ?d) @ rest"
      by (simp add: encode_entries_def)
    ultimately show ?thesis
      using rest(2,3) encode_head_entry(2) [OF "1.prems" False] by (metis list.pred_inject(2))
  qed
qed

lemma length_encode_entry [simp]: "length (encode_entry e) = 8 + length (entry_data e)"
  by (simp add: encode_entry_def)

lemma le_u16_encode_entry:
  assumes "length (encode_entry e @ r) < 2 ^ 63" and "wf_entry e"
  shows "unat (le_u16 (encode_entry e @ r) 0) = 8 + length (entry_data e)"
    and "le_u16 (encode_entry e @ r) 2 = entry_type e"
    and "le_u16 (encode_entry e @ r) 4 = value_type e"
    and "le_u16 (encode_entry e @ r) 6 = version e"
proof -
  let ?s = "word_of_nat (8 + length (entry_data e)) :: u16"
  have b: "encode_entry e @ r = to_le ?s @ to_le (entry_type e) @ to_le (value_type e) @ to_le (version e) @ entry_data e @ r"
    by (simp add: encode_entry_def)
  have "le_u16 (encode_entry e @ r) 0 = ?s"
    using assms(1) unfolding b by (subst le16.rd_front) simp_all
  then show "unat (le_u16 (encode_entry e @ r) 0) = 8 + length (entry_data e)"
    using assms(2) by (simp add: wf_entry_def unat_of_nat del: of_nat_add)
  show "le_u16 (encode_entry e @ r) 2 = entry_type e"
    using assms(1) unfolding b by (simp add: le16.rd_skip le16.rd_front)
  show "le_u16 (encode_entry e @ r) 4 = value_type e"
    using assms(1) unfolding b by (simp add: le16.rd_skip le16.rd_front)
  show "le_u16 (encode_entry e @ r) 6 = version e"
    using assms(1) unfolding b by (simp add: le16.rd_skip le16.rd_front)
qed

lemma parse_entries_encode:
  assumes "length (encode_entries es @ rest) < 2 ^ 63" and "list_all wf_entry es" and "no_entry rest"
  shows "parse_entries (encode_entries es @ rest) = es"
  using assms
proof (induction es)
  case Nil
  then show ?case
    by (subst parse_entries.simps) (simp add: encode_entries_def)
next
  case (Cons e es)
  let ?r = "encode_entries es @ rest"
  have d: "encode_entries (e # es) @ rest = encode_entry e @ ?r"
    by (simp add: encode_entries_def)
  have wf: "wf_entry e" and len: "length (encode_entry e @ ?r) < 2 ^ 63"
    using Cons.prems by (simp_all flip: d)
  note f = le_u16_encode_entry [OF len wf]
  have "\<not> no_entry (encode_entry e @ ?r)"
    using f(1) by (simp add: no_entry_def)
  moreover have "head_entry (encode_entry e @ ?r) = e"
    using f by (simp add: head_entry_def encode_entry_def)
  moreover have "drop (unat (le_u16 (encode_entry e @ ?r) 0)) (encode_entry e @ ?r) = ?r"
    using f(1) by simp
  ultimately have "parse_entries (encode_entry e @ ?r) = e # parse_entries ?r"
    by (metis parse_entries.simps)
  moreover have "parse_entries ?r = es"
    using Cons.prems len by (intro Cons.IH) simp_all
  ultimately show ?case
    by (simp add: d)
qed

section \<open>Blocks: lemmas\<close>

lemma nested_eq: "nested e offset = Ok (parse_sequence (drop offset (entry_data e)))"
  by (simp add: nested_def index_from_def Let_def)

lemma block_entries_eq:
  "block_entries block = Ok (if 48 < unat (le_u32 block 64) \<and> 112 < length block
     then parse_sequence (take (unat (le_u32 block 64) - 48) (drop 112 block)) else [])"
  by (auto simp: block_entries_def Let_def index_range_def get_range_def min_def)

lemma get_signature: "get_range block 0 8 = Some SIG_FVE \<longleftrightarrow> take 8 block = SIG_FVE"
  by (auto simp: get_range_def dest: arg_cong [of _ _ length])

lemma FveMetadata_parse_eq:
  "FveMetadata_parse block bps =
     (if take 8 block \<noteq> SIG_FVE then Ok None
      else bind_outcome (block_entries block)
        (\<lambda>ents. let region = resolve_volume_header ents (le_u64 block 56) (ucast (le_u32 block 28) * ucast bps)
           in Ok (Some
           \<lparr>encryption_method = le_u16 block 100, volume_guid = read_guid block 80,
            creation_time = le_u64 block 104, entries = ents, encrypted_volume_size = le_u64 block 16,
            volume_header_offset = fst region, volume_header_size = snd region,
            metadata_offsets = [le_u64 block 32, le_u64 block 40, le_u64 block 48],
            metadata_size = le_u32 block 64\<rparr>)))"
  by (simp add: FveMetadata_parse_def Let_def get_signature)

lemma FveMetadata_parse_None_iff:
  "FveMetadata_parse block bps = Ok None \<longleftrightarrow> take 8 block \<noteq> SIG_FVE"
  by (simp add: FveMetadata_parse_eq block_entries_eq Let_def)

lemma FveMetadata_parse_total: "\<exists>r. FveMetadata_parse block bps = Ok r"
  by (simp add: FveMetadata_parse_eq block_entries_eq Let_def)

lemma write_block_fields:
  fixes evs vho ctime a b c :: u64 and nsec :: u32 and meth :: u16 and guid eb :: bytes
  assumes "length guid = 16" and "48 + length eb < 2 ^ 32"
  defines "w \<equiv> write_block evs nsec (a, b, c) vho guid meth ctime eb"
  shows "length w = 112 + length eb" and "take 8 w = SIG_FVE" and "le_u64 w 16 = evs" and "le_u32 w 28 = nsec"
    and "le_u64 w 32 = a" and "le_u64 w 40 = b" and "le_u64 w 48 = c" and "le_u64 w 56 = vho"
    and "le_u32 w 64 = word_of_nat (48 + length eb)" and "read_guid w 80 = guid"
    and "le_u16 w 100 = meth" and "le_u64 w 104 = ctime" and "drop 112 w = eb"
proof -
  note s = w_def write_block_def apply_patches_eq patched_reads slice_simps
  show len: "length w = 112 + length eb"
    using assms(1) by (simp add: s)
  show "take 8 w = SIG_FVE" "le_u64 w 16 = evs" "le_u32 w 28 = nsec" "le_u64 w 32 = a" "le_u64 w 40 = b"
    "le_u64 w 48 = c" "le_u64 w 56 = vho" "le_u32 w 64 = word_of_nat (48 + length eb)"
    "le_u16 w 100 = meth" "le_u64 w 104 = ctime"
    using assms(1,2) by (simp_all add: s)
  show "read_guid w 80 = guid"
    using assms(1,2) len by (simp add: read_guid_eq) (simp add: s)
  show "drop 112 w = eb"
    using assms(1) by (simp add: s)
qed

lemma le_u64_pair:
  "le_u64 (to_le (bo :: u64) @ to_le (bs :: u64)) 0 = bo" "le_u64 (to_le (bo :: u64) @ to_le (bs :: u64)) 8 = bs"
  using le64.rd_front [of bo "to_le bs"] le64.rd_skip [of "to_le bo" "to_le bs" 8] le64.rd_front [of bs "[]"]
  by simp_all


lemma write_block_parse:
  assumes "length guid = 16" and "list_all wf_entry es" and "48 + length (encode_entries (vh # es)) < 2 ^ 32"
    and "vh = \<lparr>entry_type = ENTRY_TYPE_VOLUME_HEADER, value_type = vt, version = ver,
               entry_data = to_le bo @ to_le bs\<rparr>"
    and "bo \<noteq> 0" and "bs \<noteq> 0"
  shows "FveMetadata_parse (write_block evs nsec (a, b, c) vho guid meth ctime (encode_entries (vh # es))) bps
    = Ok (Some \<lparr>encryption_method = meth, volume_guid = guid, creation_time = ctime, entries = vh # es,
        encrypted_volume_size = evs, volume_header_offset = bo, volume_header_size = bs,
        metadata_offsets = [a, b, c],
        metadata_size = word_of_nat (48 + length (encode_entries (vh # es)))\<rparr>)"
proof -
  let ?eb = "encode_entries (vh # es)"
  have "wf_entry vh"
    using assms(4) by (simp add: wf_entry_def)
  then have "parse_sequence ?eb = vh # es"
    using assms(2,3) parse_entries_encode [of "vh # es" "[]"] by (simp add: parse_sequence_eq no_entry_def)
  moreover have "unat (word_of_nat (48 + length ?eb) :: u32) = 48 + length ?eb"
    using assms(3) by (simp add: unat_of_nat del: of_nat_add)
  moreover have "112 < 64 + (48 + length ?eb)"
    using assms(4) by (simp add: encode_entries_def)
  ultimately show ?thesis
    using assms(5,6) unfolding FveMetadata_parse_eq block_entries_eq write_block_fields [OF assms(1,3)]
    by (simp add: resolve_volume_header_def assms(4) Let_def le_u64_pair)
qed

lemma parsed_block_entries:
  assumes "length bs < 2 ^ 63"
    and "FveMetadata_parse bs bps = (Ok (Some m) :: (bde_error, fve_metadata option) outcome)"
  shows "list_all wf_entry (entries m) \<and> (\<exists>rest. drop 112 bs = encode_entries (entries m) @ rest)
    \<and> (entries m \<noteq> [] \<longrightarrow> 48 + length (encode_entries (entries m)) \<le> unat (metadata_size m))"
proof -
  let ?n = "unat (le_u32 bs 64)"
  have es: "entries m = (if 48 < ?n \<and> 112 < length bs then parse_sequence (take (?n - 48) (drop 112 bs)) else [])"
    and size': "metadata_size m = le_u32 bs 64"
    using assms(2) by (auto simp: FveMetadata_parse_eq block_entries_eq Let_def split: if_splits)
  show ?thesis
  proof (cases "48 < ?n \<and> 112 < length bs")
    case True
    define dat where "dat = take (?n - 48) (drop 112 bs)"
    have len: "length dat < 2 ^ 63" "length dat \<le> ?n - 48"
      using assms(1) by (simp_all add: dat_def)
    obtain rest where rest: "dat = encode_entries (parse_entries dat) @ rest" "list_all wf_entry (parse_entries dat)"
      using parse_entries_sound [OF len(1)] by blast
    have e: "entries m = parse_entries dat"
      using es True len(1) parse_sequence_eq [of dat] by (simp add: dat_def)
    have "drop 112 bs = encode_entries (entries m) @ rest @ drop (?n - 48) (drop 112 bs)"
      using append_take_drop_id [of "?n - 48" "drop 112 bs"] rest(1) unfolding e dat_def [symmetric] by (metis append.assoc)
    moreover have "length (encode_entries (entries m)) \<le> length dat"
      unfolding e by (subst (2) rest(1)) simp
    ultimately show ?thesis
      using rest(2) e len True size' by auto
  next
    case False
    then have "entries m = []"
      using es by auto
    then show ?thesis
      by (simp add: encode_entries_def)
  qed
qed

section \<open>Properties\<close>

text \<open>
  Property C8.  The entry loop reads exactly the entries that are there: its result is \<open>es\<close> if and
  only if the buffer is the on-disk form of \<open>es\<close>, each fitting its size field, followed by bytes that
  cannot start another entry.  In particular it always stops, never reads past the buffer, and loses
  nothing.
\<close>

theorem parse_sequence_characterised:
  assumes "length dat < 2 ^ 63"
  shows "parse_sequence dat = es \<longleftrightarrow>
    (\<exists>rest. dat = encode_entries es @ rest \<and> no_entry rest \<and> list_all wf_entry es)"
  using assms parse_entries_sound [OF assms] parse_entries_encode [of es]
  by (auto simp: parse_sequence_eq)

theorem parse_sequence_characterised_witness:
  "parse_sequence ([12, 0, 15, 0, 15, 0, 1, 0, 1, 2, 3, 4] @ [8, 0, 2, 0, 8, 0, 1, 0] @ [0, 0, 0, 0, 0, 0, 0, 0])
   = [\<lparr>entry_type = 15, value_type = 15, version = 1, entry_data = [1, 2, 3, 4]\<rparr>,
      \<lparr>entry_type = 2, value_type = 8, version = 1, entry_data = []\<rparr>]"
  (is "parse_sequence ?dat = ?es")
proof -
  have "?dat = encode_entries ?es @ [0, 0, 0, 0, 0, 0, 0, 0]"
    by (simp add: encode_entries_def encode_entry_def to_le_def)
  moreover have "no_entry [0, 0, 0, 0, 0, 0, 0, 0]" and "list_all wf_entry ?es" and "length ?dat < 2 ^ 63"
    by (simp_all add: no_entry_def wf_entry_def le16.rd_eq from_le_def)
  ultimately show ?thesis
    using parse_sequence_characterised [of ?dat ?es] by blast
qed



text \<open>
  Property C25.  Round trip: a block laid out from its fields and entries parses back to them, with the
  volume-header region taken from the leading 0x000f entry.
\<close>

theorem block_roundtrip:
  assumes "length guid = 16" and "list_all wf_entry es" and "48 + length (encode_entries (vh # es)) < 2 ^ 32"
    and "vh = \<lparr>entry_type = ENTRY_TYPE_VOLUME_HEADER, value_type = vt, version = ver,
               entry_data = to_le bo @ to_le bs\<rparr>"
    and "bo \<noteq> 0" and "bs \<noteq> 0"
  shows "FveMetadata_parse (write_block evs nsec (a, b, c) vho guid meth ctime (encode_entries (vh # es))) bps
    = Ok (Some \<lparr>encryption_method = meth, volume_guid = guid, creation_time = ctime, entries = vh # es,
        encrypted_volume_size = evs, volume_header_offset = bo, volume_header_size = bs,
        metadata_offsets = [a, b, c],
        metadata_size = word_of_nat (48 + length (encode_entries (vh # es)))\<rparr>)"
  by (rule write_block_parse [OF assms])

theorem block_roundtrip_witness:
  "FveMetadata_parse (write_block 0x4000000 16 (0x1000, 0, 0) 1 (replicate 16 0xAB) 0x8000 5
      (encode_entries [\<lparr>entry_type = ENTRY_TYPE_VOLUME_HEADER, value_type = 15, version = 1,
                        entry_data = to_le (0x2110800 :: u64) @ to_le (0x515a00 :: u64)\<rparr>])) 512
    = Ok (Some \<lparr>encryption_method = 0x8000, volume_guid = replicate 16 0xAB, creation_time = 5,
        entries = [\<lparr>entry_type = ENTRY_TYPE_VOLUME_HEADER, value_type = 15, version = 1,
                    entry_data = to_le (0x2110800 :: u64) @ to_le (0x515a00 :: u64)\<rparr>],
        encrypted_volume_size = 0x4000000, volume_header_offset = 0x2110800, volume_header_size = 0x515a00,
        metadata_offsets = [0x1000, 0, 0], metadata_size = 72\<rparr>)"
  using block_roundtrip [of "replicate 16 0xAB" "[]" "\<lparr>entry_type = ENTRY_TYPE_VOLUME_HEADER, value_type = 15, version = 1,
                        entry_data = to_le (0x2110800 :: u64) @ to_le (0x515a00 :: u64)\<rparr>" 15 1 "0x2110800" "0x515a00"
      "0x4000000" 16 "0x1000" 0 0 1 "0x8000" 5 512]
  by (simp add: encode_entries_def del: ENTRY_TYPE_VOLUME_HEADER_def)

text \<open>
  Property C27.  Nothing the parsers return comes from outside the bytes they were given.  The entries of
  a parsed block are well formed (their data fits the 16-bit size field), lie end to end from byte 112 of
  the block, and stay within the size the block declares; the nested entries of each of them, at any
  offset, are well formed and lie end to end in its data.  A parsed header has a non-zero sector size.
\<close>

theorem parsed_values_typed:
  assumes "length bs < 2 ^ 63"
  shows "(\<forall>h. VolumeHeader_parse bs = Ok h \<longrightarrow> bytes_per_sector h \<noteq> 0)
    \<and> (\<forall>m. FveMetadata_parse bs bps = (Ok (Some m) :: (bde_error, fve_metadata option) outcome) \<longrightarrow>
        list_all wf_entry (entries m) \<and> (\<exists>rest. drop 112 bs = encode_entries (entries m) @ rest)
        \<and> (entries m \<noteq> [] \<longrightarrow> 48 + length (encode_entries (entries m)) \<le> unat (metadata_size m))
        \<and> (\<forall>e \<in> set (entries m). \<forall>off. \<exists>ns rest. nested e off = (Ok ns :: (bde_error, metadata_entry list) outcome)
             \<and> list_all wf_entry ns \<and> drop off (entry_data e) = encode_entries ns @ rest))"
proof (intro conjI allI impI)
  fix h
  assume "VolumeHeader_parse bs = Ok h"
  from VolumeHeader_parse_Ok_wf [OF assms this] show "bytes_per_sector h \<noteq> 0"
    by (simp add: wf_volume_header_def)
next
  fix m
  assume m: "FveMetadata_parse bs bps = (Ok (Some m) :: (bde_error, fve_metadata option) outcome)"
  from parsed_block_entries [OF assms m] show wf: "list_all wf_entry (entries m)"
    and "\<exists>rest. drop 112 bs = encode_entries (entries m) @ rest"
    and "entries m \<noteq> [] \<Longrightarrow> 48 + length (encode_entries (entries m)) \<le> unat (metadata_size m)"
    by blast+
  show "\<forall>e \<in> set (entries m). \<forall>off. \<exists>ns rest. nested e off = (Ok ns :: (bde_error, metadata_entry list) outcome)
      \<and> list_all wf_entry ns \<and> drop off (entry_data e) = encode_entries ns @ rest"
  proof (intro ballI allI)
    fix e off
    assume "e \<in> set (entries m)"
    then have "length (drop off (entry_data e)) < 2 ^ 63"
      using wf by (auto simp: list_all_iff wf_entry_def)
    from parse_entries_sound [OF this] parse_sequence_eq [OF this]
    show "\<exists>ns rest. nested e off = (Ok ns :: (bde_error, metadata_entry list) outcome)
        \<and> list_all wf_entry ns \<and> drop off (entry_data e) = encode_entries ns @ rest"
      by (auto simp: nested_eq)
  qed
qed

theorem parsed_values_typed_witness:
  "\<exists>m. FveMetadata_parse (write_block 0x4000000 16 (0x1000, 0, 0) 1 (replicate 16 0xAB) 0x8000 5
         (encode_entries [\<lparr>entry_type = ENTRY_TYPE_VOLUME_HEADER, value_type = 15, version = 1,
            entry_data = to_le (0x2110800 :: u64) @ to_le (0x515a00 :: u64)\<rparr>])) 512
       = (Ok (Some m) :: (bde_error, fve_metadata option) outcome)
     \<and> length (entries m) = 1 \<and> list_all wf_entry (entries m)
     \<and> 48 + length (encode_entries (entries m)) \<le> unat (metadata_size m)"
proof -
  let ?vh = "\<lparr>entry_type = ENTRY_TYPE_VOLUME_HEADER, value_type = 15, version = 1,
    entry_data = to_le (0x2110800 :: u64) @ to_le (0x515a00 :: u64)\<rparr>"
  let ?b = "write_block 0x4000000 16 (0x1000, 0, 0) 1 (replicate 16 0xAB) 0x8000 5 (encode_entries [?vh])"
  have small: "48 + length (encode_entries [?vh]) < 2 ^ 32"
    by (simp add: encode_entries_def)
  have "length ?b < 2 ^ 63"
    using write_block_fields(1) [of "replicate 16 0xAB" "encode_entries [?vh]"] small by simp
  moreover obtain m where "FveMetadata_parse ?b 512 = (Ok (Some m) :: (bde_error, fve_metadata option) outcome)" "entries m = [?vh]"
    using write_block_parse [of "replicate 16 0xAB" "[]" ?vh 15 1 "0x2110800" "0x515a00" "0x4000000" 16 "0x1000" 0 0 1 "0x8000" 5 512,
        where 'a = bde_error] small
    by auto
  ultimately show ?thesis
    using parsed_values_typed [of ?b 512] by (intro exI [of _ m]) auto
qed

end
