(* ===== verification/Method.thy ===== *)
theory Method
  imports Prelude
begin

text \<open>
  \<^verbatim>\<open>core/src/method.rs\<close>: the raw encryption method decoded into key size, cipher mode and diffuser,
  and the gate that says which decoded methods this build decrypts.
\<close>

unbundle bit_operations_syntax

section \<open>The code\<close>

datatype cipher_mode = Cbc | Xts

record encryption_axes =
  raw_method :: u16
  key_bits :: u16
  cipher_mode_of :: cipher_mode
  diffuser :: bool

datatype sector_cipher_kind = KCbc128Diffuser | KCbc128 | KCbc256 | KXts128 | KXts256

definition EncryptionMethod_decode :: "u16 \<Rightarrow> encryption_axes option" where
  "EncryptionMethod_decode raw =
     (if raw < 0x8000 then None
      else
        (let index = raw - 0x8000
         in if index > 5 then None
            else
              (let kb = (if index AND 1 = 1 then 256 else 128);
                   md = (if drop_bit 1 index = 0 then (Cbc, True)
                         else if drop_bit 1 index = 1 then (Cbc, False) else (Xts, False))
               in Some \<lparr>raw_method = raw, key_bits = kb, cipher_mode_of = fst md, diffuser = snd md\<rparr>)))"

definition validated_kind :: "encryption_axes \<Rightarrow> sector_cipher_kind option" where
  "validated_kind m =
     (if cipher_mode_of m = Cbc \<and> key_bits m = 128 \<and> diffuser m then Some KCbc128Diffuser
      else if cipher_mode_of m = Cbc \<and> key_bits m = 128 \<and> \<not> diffuser m then Some KCbc128
      else if cipher_mode_of m = Cbc \<and> key_bits m = 256 \<and> \<not> diffuser m then Some KCbc256
      else if cipher_mode_of m = Xts \<and> key_bits m = 128 \<and> \<not> diffuser m then Some KXts128
      else if cipher_mode_of m = Xts \<and> key_bits m = 256 \<and> \<not> diffuser m then Some KXts256
      else None)"

section \<open>Specification\<close>

text \<open>The documented axes of the six BitLocker ciphers, and the cipher each is decrypted with: all but 0x8001 have one.\<close>

definition method_table :: "(u16 \<times> u16 \<times> cipher_mode \<times> bool \<times> sector_cipher_kind option) list" where
  "method_table =
     [(0x8000, 128, Cbc, True, Some KCbc128Diffuser), (0x8001, 256, Cbc, True, None),
      (0x8002, 128, Cbc, False, Some KCbc128), (0x8003, 256, Cbc, False, Some KCbc256),
      (0x8004, 128, Xts, False, Some KXts128), (0x8005, 256, Xts, False, Some KXts256)]"

section \<open>Lemmas\<close>

lemma decode_values:
  "EncryptionMethod_decode 0x8000 = Some \<lparr>raw_method = 0x8000, key_bits = 128, cipher_mode_of = Cbc, diffuser = True\<rparr>"
  "EncryptionMethod_decode 0x8001 = Some \<lparr>raw_method = 0x8001, key_bits = 256, cipher_mode_of = Cbc, diffuser = True\<rparr>"
  "EncryptionMethod_decode 0x8002 = Some \<lparr>raw_method = 0x8002, key_bits = 128, cipher_mode_of = Cbc, diffuser = False\<rparr>"
  "EncryptionMethod_decode 0x8003 = Some \<lparr>raw_method = 0x8003, key_bits = 256, cipher_mode_of = Cbc, diffuser = False\<rparr>"
  "EncryptionMethod_decode 0x8004 = Some \<lparr>raw_method = 0x8004, key_bits = 128, cipher_mode_of = Xts, diffuser = False\<rparr>"
  "EncryptionMethod_decode 0x8005 = Some \<lparr>raw_method = 0x8005, key_bits = 256, cipher_mode_of = Xts, diffuser = False\<rparr>"
  by (simp_all add: EncryptionMethod_decode_def)

lemma decode_recognised:
  assumes "EncryptionMethod_decode raw \<noteq> None"
  shows "raw \<in> {0x8000, 0x8001, 0x8002, 0x8003, 0x8004, 0x8005}"
proof -
  have ge: "0x8000 \<le> raw" and le: "raw - 0x8000 \<le> 5"
    using assms by (auto simp: EncryptionMethod_decode_def Let_def split: if_splits)
  from le have "unat (raw - 0x8000) \<in> {0, 1, 2, 3, 4, 5}"
    by (auto simp: word_le_nat_alt)
  then have "raw - 0x8000 \<in> {0, 1, 2, 3, 4, 5}"
    by (auto simp: word_unat_eq_iff)
  then have "raw - 0x8000 + 0x8000 \<in> {0x8000, 0x8001, 0x8002, 0x8003, 0x8004, 0x8005}"
    by auto
  then show ?thesis
    by simp
qed

lemma decode_validated:
  assumes "EncryptionMethod_decode raw = Some m" and "validated_kind m = Some k"
  shows "raw \<in> {0x8000, 0x8002, 0x8003, 0x8004, 0x8005}"
proof -
  have "raw \<noteq> 0x8001"
    using assms by (auto simp: decode_values validated_kind_def)
  moreover have "EncryptionMethod_decode raw \<noteq> None"
    using assms(1) by simp
  ultimately show ?thesis
    using decode_recognised by blast
qed

section \<open>Properties\<close>

text \<open>
  Property C30.  Decoding gives the documented axes of the six methods and nothing for any other 16-bit
  value; the gate gives each its cipher, and none to 0x8001 alone.
\<close>

theorem decode_matches_table:
  "case find (\<lambda>row. fst row = raw) method_table of
     Some (_, kb, md, df, kind) \<Rightarrow>
       EncryptionMethod_decode raw
         = Some \<lparr>raw_method = raw, key_bits = kb, cipher_mode_of = md, diffuser = df\<rparr>
       \<and> validated_kind \<lparr>raw_method = raw, key_bits = kb, cipher_mode_of = md, diffuser = df\<rparr> = kind
   | None \<Rightarrow> EncryptionMethod_decode raw = None"
proof (cases "raw \<in> {0x8000, 0x8001, 0x8002, 0x8003, 0x8004, 0x8005}")
  case True
  then show ?thesis
    by (auto simp: method_table_def decode_values validated_kind_def)
next
  case False
  then have "EncryptionMethod_decode raw = None"
    using decode_recognised by blast
  with False show ?thesis
    by (auto simp: method_table_def)
qed

end
