(* ===== verification/Rust_Str.thy ===== *)
theory Rust_Str
  imports Prelude
begin

text \<open>
  What the sources use of Rust's \<^verbatim>\<open>str\<close>: a string is its list of Unicode scalar values;
  \<^verbatim>\<open>len\<close> and \<^verbatim>\<open>bytes\<close> see its UTF-8 encoding, \<^verbatim>\<open>encode_utf16\<close> its UTF-16 code units,
  \<^verbatim>\<open>split\<close> cuts at a character and \<^verbatim>\<open>parse::<u32>\<close> reads a decimal number.
\<close>

type_synonym str = "nat list"

section \<open>Scalar values and encodings\<close>

definition is_scalar :: "nat \<Rightarrow> bool" where
  "is_scalar c \<longleftrightarrow> c < 0xD800 \<or> 0xE000 \<le> c \<and> c < 0x110000"

definition valid_str :: "str \<Rightarrow> bool" where
  "valid_str s \<longleftrightarrow> list_all is_scalar s"

definition utf8_char :: "nat \<Rightarrow> bytes" where
  "utf8_char c =
     (if c < 0x80 then [word_of_nat c]
      else if c < 0x800 then [word_of_nat (0xC0 + c div 64), word_of_nat (0x80 + c mod 64)]
      else if c < 0x10000 then
        [word_of_nat (0xE0 + c div 4096), word_of_nat (0x80 + c div 64 mod 64), word_of_nat (0x80 + c mod 64)]
      else
        [word_of_nat (0xF0 + c div 262144), word_of_nat (0x80 + c div 4096 mod 64),
         word_of_nat (0x80 + c div 64 mod 64), word_of_nat (0x80 + c mod 64)])"

definition str_bytes :: "str \<Rightarrow> bytes" where
  "str_bytes s = concat (map utf8_char s)"

definition str_len :: "str \<Rightarrow> nat" where
  "str_len s = length (str_bytes s)"

definition utf16_char :: "nat \<Rightarrow> u16 list" where
  "utf16_char c =
     (if c < 0x10000 then [word_of_nat c]
      else [word_of_nat (0xD800 + (c - 0x10000) div 1024), word_of_nat (0xDC00 + (c - 0x10000) mod 1024)])"

definition encode_utf16 :: "str \<Rightarrow> u16 list" where
  "encode_utf16 s = concat (map utf16_char s)"

section \<open>Splitting and numbers\<close>

fun str_split :: "nat \<Rightarrow> str \<Rightarrow> str list" where
  "str_split sep [] = [[]]"
| "str_split sep (c # cs) =
     (if c = sep then [] # str_split sep cs
      else case str_split sep cs of [] \<Rightarrow> [[c]] | g # gs \<Rightarrow> (c # g) # gs)"

definition is_ascii_digit :: "u8 \<Rightarrow> bool" where
  "is_ascii_digit b \<longleftrightarrow> 0x30 \<le> b \<and> b \<le> 0x39"

fun dec_value :: "nat \<Rightarrow> str \<Rightarrow> nat" where
  "dec_value acc [] = acc"
| "dec_value acc (c # cs) = dec_value (10 * acc + (c - 48)) cs"

text \<open>\<^verbatim>\<open>str::parse::<u32>\<close>: an optional sign, at least one digit, no overflow.\<close>

definition parse_u32 :: "str \<Rightarrow> nat option" where
  "parse_u32 s =
     (let ds = (case s of [] \<Rightarrow> [] | c # cs \<Rightarrow> if c = 43 then cs else c # cs)
      in if ds \<noteq> [] \<and> list_all (\<lambda>c. 48 \<le> c \<and> c \<le> 57) ds \<and> dec_value 0 ds < 2 ^ 32
         then Some (dec_value 0 ds) else None)"

text \<open>An ASCII literal as a \<^verbatim>\<open>str\<close>.\<close>

definition lit :: "string \<Rightarrow> str" where
  "lit s = map of_char s"

section \<open>Joining is the inverse of splitting\<close>

fun str_join :: "nat \<Rightarrow> str list \<Rightarrow> str" where
  "str_join sep [] = []"
| "str_join sep [g] = g"
| "str_join sep (g # h # gs) = g @ sep # str_join sep (h # gs)"

lemma str_split_nonempty [simp]: "str_split sep s \<noteq> []"
  by (induction s) (auto split: list.splits)

lemma str_join_split: "str_join sep (str_split sep s) = s"
proof (induction s)
  case (Cons c cs)
  then obtain g gs where "str_split sep cs = g # gs"
    by (metis list.exhaust str_split_nonempty)
  with Cons.IH show ?case
    by (cases gs) auto
qed simp

lemma str_split_no_sep: "\<forall>g \<in> set (str_split sep s). sep \<notin> set g"
  by (induction s) (auto split: list.splits)

lemma str_split_free: "sep \<notin> set g \<Longrightarrow> str_split sep g = [g]"
  by (induction g) auto

lemma str_split_append: "sep \<notin> set g \<Longrightarrow> str_split sep (g @ sep # s) = g # str_split sep s"
  by (induction g) auto

lemma str_split_join:
  "gs \<noteq> [] \<Longrightarrow> \<forall>g \<in> set gs. sep \<notin> set g \<Longrightarrow> str_split sep (str_join sep gs) = gs"
  by (induction sep gs rule: str_join.induct) (auto simp: str_split_free str_split_append)

lemma set_str_split: "g \<in> set (str_split sep s) \<Longrightarrow> set g \<subseteq> set s"
proof (induction s arbitrary: g)
  case (Cons c s)
  obtain h hs where hs: "str_split sep s = h # hs"
    by (metis list.exhaust str_split_nonempty)
  with Cons.prems Cons.IH [of g] Cons.IH [of h] show ?case
    by (auto split: if_splits)
qed simp

lemma valid_str_split: "valid_str s \<Longrightarrow> list_all valid_str (str_split sep s)"
  using set_str_split by (fastforce simp: valid_str_def list_all_iff)

section \<open>UTF-16 determines the string\<close>

fun decode_utf16 :: "u16 list \<Rightarrow> str" where
  "decode_utf16 [] = []"
| "decode_utf16 [u] = [unat u]"
| "decode_utf16 (u # v # us) =
     (if 0xD800 \<le> unat u \<and> unat u < 0xDC00
      then (0x10000 + (unat u - 0xD800) * 1024 + (unat v - 0xDC00)) # decode_utf16 us
      else unat u # decode_utf16 (v # us))"

lemma decode_utf16_low:
  "c < 0xD800 \<or> 0xE000 \<le> c \<and> c < 0x10000 \<Longrightarrow>
   decode_utf16 (word_of_nat c # us) = c # decode_utf16 us"
  by (cases us) (auto simp: unat_of_nat)

lemma decode_utf16_pair:
  assumes "0x10000 \<le> c" and "c < 0x110000"
  shows "decode_utf16 (utf16_char c @ us) = c # decode_utf16 us"
proof -
  have "(c - 0x10000) div 1024 < 1024"
    using assms by simp
  then have "unat (word_of_nat (0xD800 + (c - 0x10000) div 1024) :: u16) = 0xD800 + (c - 0x10000) div 1024"
    by (simp add: unat_of_nat del: of_nat_add)
  moreover have "unat (word_of_nat (0xDC00 + (c - 0x10000) mod 1024) :: u16) = 0xDC00 + (c - 0x10000) mod 1024"
    by (simp add: unat_of_nat trans_less_add1 del: of_nat_add)
  moreover have "0x10000 + (c - 0x10000) div 1024 * 1024 + (c - 0x10000) mod 1024 = c"
    using assms by simp
  ultimately show ?thesis
    using assms \<open>(c - 0x10000) div 1024 < 1024\<close> by (simp add: utf16_char_def del: of_nat_add)
qed

lemma decode_encode_utf16: "valid_str s \<Longrightarrow> decode_utf16 (encode_utf16 s) = s"
proof (induction s)
  case (Cons c s)
  then have c: "is_scalar c" and IH: "decode_utf16 (concat (map utf16_char s)) = s"
    by (simp_all add: valid_str_def encode_utf16_def)
  show ?case
  proof (cases "c < 0x10000")
    case True
    with c IH show ?thesis
      by (auto simp: encode_utf16_def utf16_char_def is_scalar_def decode_utf16_low)
  next
    case False
    with c IH show ?thesis
      by (simp add: encode_utf16_def is_scalar_def decode_utf16_pair)
  qed
qed (simp add: encode_utf16_def)

section \<open>ASCII digits\<close>

lemma utf8_char_nonempty [simp]: "utf8_char c \<noteq> []"
  by (simp add: utf8_char_def)

text \<open>The bytes of a non-ASCII character are never ASCII digits.\<close>

lemma utf8_char_digits:
  assumes "is_scalar c"
  shows "list_all is_ascii_digit (utf8_char c) \<longleftrightarrow> 48 \<le> c \<and> c \<le> 57"
proof -
  have w: "unat (word_of_nat n :: u8) = n" if "n < 256" for n
    using that by (simp add: unat_of_nat)
  have d: "is_ascii_digit (word_of_nat n) \<longleftrightarrow> 48 \<le> n \<and> n \<le> 57" if "n < 256" for n
    using that by (simp add: is_ascii_digit_def word_le_nat_alt w)
  show ?thesis
    using assms
    by (auto simp: utf8_char_def is_scalar_def d trans_less_add1 simp del: of_nat_add)
qed

lemma length_utf8_digit: "c < 128 \<Longrightarrow> length (utf8_char c) = 1"
  by (simp add: utf8_char_def)

lemma str_bytes_digits:
  "valid_str s \<Longrightarrow> list_all is_ascii_digit (str_bytes s) \<longleftrightarrow> list_all (\<lambda>c. 48 \<le> c \<and> c \<le> 57) s"
  by (induction s) (auto simp: str_bytes_def valid_str_def utf8_char_digits)

lemma str_len_digits: "list_all (\<lambda>c. 48 \<le> c \<and> c \<le> 57) s \<Longrightarrow> str_len s = length s"
  by (induction s) (auto simp: str_len_def str_bytes_def length_utf8_digit)

lemma dec_value_bound:
  "list_all (\<lambda>c. 48 \<le> c \<and> c \<le> 57) s \<Longrightarrow> dec_value acc s < (acc + 1) * 10 ^ length s"
proof (induction s arbitrary: acc)
  case (Cons c s)
  then have "dec_value (10 * acc + (c - 48)) s < (10 * acc + (c - 48) + 1) * 10 ^ length s"
    by simp
  also have "\<dots> \<le> (10 * (acc + 1)) * 10 ^ length s"
    using Cons.prems by (intro mult_right_mono) auto
  finally show ?case
    by (simp add: algebra_simps)
qed simp

text \<open>A number in a fixed count of decimal digits, as \<^verbatim>\<open>{:06}\<close> prints it.\<close>

fun digits_of :: "nat \<Rightarrow> nat \<Rightarrow> str" where
  "digits_of 0 n = []"
| "digits_of (Suc k) n = digits_of k (n div 10) @ [48 + n mod 10]"

lemma digits_of_numeral [simp]:
  "digits_of (numeral v) n = digits_of (pred_numeral v) (n div 10) @ [48 + n mod 10]"
  by (simp only: numeral_eq_Suc [of v] digits_of.simps)

lemma dec_value_snoc: "dec_value acc (s @ [c]) = 10 * dec_value acc s + (c - 48)"
  by (induction s arbitrary: acc) auto

lemma dec_value_digits_of: "n < 10 ^ k \<Longrightarrow> dec_value 0 (digits_of k n) = n"
  by (induction k arbitrary: n) (auto simp: dec_value_snoc)

lemma digits_of_dec_value:
  "list_all (\<lambda>c. 48 \<le> c \<and> c \<le> 57) s \<Longrightarrow> digits_of (length s) (dec_value 0 s) = s"
proof (induction s rule: rev_induct)
  case (snoc c s)
  then obtain d where "c = 48 + d" "d < 10"
    by (auto dest!: le_Suc_ex [of 48])
  with snoc show ?case
    by (simp add: dec_value_snoc)
qed simp

lemma length_digits_of: "length (digits_of k n) = k"
  by (induction k arbitrary: n) auto

lemma digits_of_are_digits: "list_all (\<lambda>c. 48 \<le> c \<and> c \<le> 57) (digits_of k n)"
  by (induction k arbitrary: n) auto

lemma parse_u32_digits:
  assumes "list_all (\<lambda>c. 48 \<le> c \<and> c \<le> 57) s" and "s \<noteq> []" and "length s \<le> 9"
  shows "parse_u32 s = Some (dec_value 0 s)"
proof -
  have "dec_value 0 s < 10 ^ length s"
    using dec_value_bound [OF assms(1), of 0] by simp
  also have "\<dots> \<le> 10 ^ 9"
    using assms(3) by (intro power_increasing) auto
  finally have "dec_value 0 s < 2 ^ 32"
    by simp
  with assms(1,2) show ?thesis
    by (cases s) (auto simp: parse_u32_def)
qed

end
