(* ===== verification/Crypto.thy ===== *)
theory Crypto
  imports Method Bytes Rust_Str
begin

text \<open>
  \<^verbatim>\<open>core/src/crypto.rs\<close>: key derivation, AES-CCM key unwrap, and sector decryption.  The primitives
  come from crates outside the repository (\<^verbatim>\<open>sha2\<close>, \<^verbatim>\<open>aes\<close>, \<^verbatim>\<open>cbc\<close>, \<^verbatim>\<open>ccm\<close>, \<^verbatim>\<open>xts-mode\<close>,
  \<^verbatim>\<open>elephant-diffuser\<close>); they are the fields of the record \<open>primitives\<close>, an argument of every
  definition that calls them, and what the code relies on is stated by the predicates \<open>sha256_ok\<close>,
  \<open>ccm_ok\<close>, \<open>cbc_ok\<close>, \<open>xts_ok\<close> and \<open>diffuser_ok\<close>.  An AES or XTS object is represented by the key
  material it was built from.  Fixed-size arrays are byte lists of that length.
\<close>

section \<open>The primitives\<close>

text \<open>
  \<open>cbc128_dec k iv buf\<close> is \<^verbatim>\<open>decrypt_padded_mut::<NoPadding>\<close>: the length of the plaintext slice it
  returns (\<open>None\<close> for \<^verbatim>\<open>Err\<close>) and the contents of the buffer afterwards.  \<open>ccm_open k nonce tag ct\<close> is
  \<^verbatim>\<open>decrypt_in_place_detached\<close> with no associated data, \<open>ccm_seal\<close> its inverse (ciphertext, tag).
  \<open>xts128_dec data_key tweak_key tweak buf\<close> is \<^verbatim>\<open>Xts128::decrypt_sector\<close>.
\<close>

record primitives =
  sha256 :: "bytes \<Rightarrow> bytes"
  aes128_block :: "bytes \<Rightarrow> bytes \<Rightarrow> bytes"
  aes256_block :: "bytes \<Rightarrow> bytes \<Rightarrow> bytes"
  cbc128_dec :: "bytes \<Rightarrow> bytes \<Rightarrow> bytes \<Rightarrow> nat option \<times> bytes"
  cbc256_dec :: "bytes \<Rightarrow> bytes \<Rightarrow> bytes \<Rightarrow> nat option \<times> bytes"
  cbc128_enc :: "bytes \<Rightarrow> bytes \<Rightarrow> bytes \<Rightarrow> bytes"
  cbc256_enc :: "bytes \<Rightarrow> bytes \<Rightarrow> bytes \<Rightarrow> bytes"
  ccm_open :: "bytes \<Rightarrow> bytes \<Rightarrow> bytes \<Rightarrow> bytes \<Rightarrow> bytes option"
  ccm_seal :: "bytes \<Rightarrow> bytes \<Rightarrow> bytes \<Rightarrow> bytes \<times> bytes"
  xts128_dec :: "bytes \<Rightarrow> bytes \<Rightarrow> bytes \<Rightarrow> bytes \<Rightarrow> bytes"
  xts256_dec :: "bytes \<Rightarrow> bytes \<Rightarrow> bytes \<Rightarrow> bytes \<Rightarrow> bytes"
  xts128_enc :: "bytes \<Rightarrow> bytes \<Rightarrow> bytes \<Rightarrow> bytes \<Rightarrow> bytes"
  xts256_enc :: "bytes \<Rightarrow> bytes \<Rightarrow> bytes \<Rightarrow> bytes \<Rightarrow> bytes"
  get_tweak_default :: "nat \<Rightarrow> bytes"
  diffuser_dec :: "bytes \<Rightarrow> bytes \<Rightarrow> bytes"
  diffuser_enc :: "bytes \<Rightarrow> bytes \<Rightarrow> bytes"

section \<open>Key derivation\<close>

definition STRETCH_ITERATIONS :: u64 where
  "STRETCH_ITERATIONS = 0x100000"

definition password_hash :: "primitives \<Rightarrow> str \<Rightarrow> bytes" where
  "password_hash C password =
     (let utf16 = concat (map to_le (encode_utf16 password));
          first = sha256 C utf16;
          second = sha256 C first
      in second)"

text \<open>The loop body of \<^verbatim>\<open>stretch_key_n\<close>, run for the counts \<open>count\<close>, \<open>count + 1\<close>, ...\<close>

fun stretch_loop :: "primitives \<Rightarrow> u64 \<Rightarrow> nat \<Rightarrow> bytes \<Rightarrow> bytes" where
  "stretch_loop C count 0 buf = buf"
| "stretch_loop C count (Suc n) buf =
     (let buf' = copy_into buf 80 (to_le count);
          digest = sha256 C buf'
      in stretch_loop C (count + 1) n (copy_into buf' 0 digest))"

definition stretch_key_n :: "primitives \<Rightarrow> bytes \<Rightarrow> bytes \<Rightarrow> u64 \<Rightarrow> bytes" where
  "stretch_key_n C pw_hash salt iterations =
     (let buf = copy_into (copy_into (replicate 88 0) 32 pw_hash) 64 salt
      in take 32 (stretch_loop C 0 (unat iterations) buf))"

definition stretch_key :: "primitives \<Rightarrow> bytes \<Rightarrow> bytes \<Rightarrow> bytes" where
  "stretch_key C pw_hash salt = stretch_key_n C pw_hash salt STRETCH_ITERATIONS"

section \<open>Recovery passwords\<close>

fun recovery_loop :: "nat \<Rightarrow> bytes \<Rightarrow> nat \<Rightarrow> str list \<Rightarrow> (string, bytes \<times> nat) outcome" where
  "recovery_loop i key groups [] = Ok (key, groups)"
| "recovery_loop i key groups (g # rest) =
     (if 8 \<le> i then Err ''recovery password must be exactly 8 groups''
      else if str_len g \<noteq> 6 \<or> \<not> list_all is_ascii_digit (str_bytes g)
        then Err ''each recovery group must be 6 digits''
      else case parse_u32 g of
          None \<Rightarrow> Err ''invalid recovery digits''
        | Some v \<Rightarrow>
            if v mod 11 \<noteq> 0 then Err ''recovery group failed the divisible-by-11 checksum''
            else (let w = v div 11
                  in if w > 0xffff then Err ''recovery group out of range (value / 11 exceeds 16 bits)''
                     else recovery_loop (i + 1) (copy_into key (i * 2) (to_le (word_of_nat w :: u16))) (i + 1) rest))"

definition recovery_key_hash :: "primitives \<Rightarrow> str \<Rightarrow> (string, bytes) outcome" where
  "recovery_key_hash C recovery =
     bind_outcome (recovery_loop 0 (replicate 16 0) 0 (str_split 45 recovery))
       (\<lambda>(key, groups). if groups \<noteq> 8 then Err ''recovery password must be exactly 8 groups''
                        else Ok (sha256 C key))"

section \<open>AES-CCM key wrapping\<close>

definition aes_ccm_unwrap :: "primitives \<Rightarrow> bytes \<Rightarrow> bytes \<Rightarrow> bytes option" where
  "aes_ccm_unwrap C key value_data =
     Option.bind (get_range value_data 0 12) (\<lambda>nonce.
     Option.bind (get_range value_data 12 28) (\<lambda>tag.
     Option.bind (get_from value_data 28) (\<lambda>buffer.
       ccm_open C key nonce tag buffer)))"

definition aes_ccm_wrap :: "primitives \<Rightarrow> bytes \<Rightarrow> bytes \<Rightarrow> bytes \<Rightarrow> bytes" where
  "aes_ccm_wrap C key nonce plaintext =
     (let (buffer, tag) = ccm_seal C key nonce plaintext in nonce @ tag @ buffer)"

section \<open>Sector ciphers\<close>

datatype sector_transform =
    Cbc128 (t_fvek: bytes) (t_fvek_ecb: bytes) (t_tweak: "bytes option")
  | Cbc256 (t_fvek: bytes) (t_fvek_ecb: bytes)
  | Xts128 (t_data: bytes) (t_tweak_key: bytes)
  | Xts256 (t_data: bytes) (t_tweak_key: bytes)

record sector_cipher =
  transform :: sector_transform

definition SectorCipher_new :: "bytes \<Rightarrow> bytes \<Rightarrow> sector_cipher" where
  "SectorCipher_new fvek tweak = \<lparr>transform = Cbc128 fvek fvek (Some tweak)\<rparr>"

definition SectorCipher_new_cbc :: "bytes \<Rightarrow> sector_cipher" where
  "SectorCipher_new_cbc fvek = \<lparr>transform = Cbc128 fvek fvek None\<rparr>"

definition SectorCipher_new_cbc256 :: "bytes \<Rightarrow> sector_cipher" where
  "SectorCipher_new_cbc256 fvek = \<lparr>transform = Cbc256 fvek fvek\<rparr>"

definition SectorCipher_new_xts128 :: "bytes \<Rightarrow> sector_cipher" where
  "SectorCipher_new_xts128 fvek = \<lparr>transform = Xts128 (take 16 fvek) (take 16 (drop 16 fvek))\<rparr>"

definition SectorCipher_new_xts256 :: "bytes \<Rightarrow> sector_cipher" where
  "SectorCipher_new_xts256 fvek = \<lparr>transform = Xts256 (take 32 fvek) (take 32 (drop 32 fvek))\<rparr>"

definition le128 :: "u64 \<Rightarrow> bytes" where
  "le128 byte_offset = copy_into (replicate 16 0) 0 (to_le byte_offset)"

definition sector_key :: "primitives \<Rightarrow> bytes \<Rightarrow> u64 \<Rightarrow> bytes" where
  "sector_key C tweak byte_offset =
     (let iv = le128 byte_offset;
          lower = aes128_block C tweak iv;
          upper = aes128_block C tweak (iv[15 := 0x80])
      in copy_into (copy_into (replicate 32 0) 0 lower) 16 upper)"

text \<open>The plaintext length reported and the buffer after decrypting its whole blocks in place.\<close>

definition cbc_decrypt_inplace ::
    "(bytes \<Rightarrow> bytes \<Rightarrow> bytes \<Rightarrow> nat option \<times> bytes) \<Rightarrow> bytes \<Rightarrow> bytes \<Rightarrow> bytes \<Rightarrow> nat \<times> bytes" where
  "cbc_decrypt_inplace dec fvek iv buf =
     (let len = length buf - length buf mod 16;
          (plain, front) = dec fvek iv (take len buf);
          plain_len = (case plain of Some n \<Rightarrow> n | None \<Rightarrow> len)
      in (plain_len, copy_into buf 0 front))"

definition xts_decrypt_sector ::
    "primitives \<Rightarrow> (bytes \<Rightarrow> bytes \<Rightarrow> bytes) \<Rightarrow> bytes \<Rightarrow> u64 \<Rightarrow> bytes" where
  "xts_decrypt_sector C dec buf byte_offset =
     (if 16 \<le> length buf then dec (get_tweak_default C (unat (byte_offset div 512))) buf else buf)"

definition decrypt_sector :: "primitives \<Rightarrow> sector_cipher \<Rightarrow> bytes \<Rightarrow> u64 \<Rightarrow> bytes" where
  "decrypt_sector C sc ciphertext byte_offset =
     (let iv = le128 byte_offset
      in case transform sc of
           Cbc128 fvek fvek_ecb tweak \<Rightarrow>
             (let cbc_iv = aes128_block C fvek_ecb iv;
                  (plain_len, buf) = cbc_decrypt_inplace (cbc128_dec C) fvek cbc_iv ciphertext
              in case tweak of
                   None \<Rightarrow> buf
                 | Some tw \<Rightarrow>
                     copy_into buf 0 (diffuser_dec C (sector_key C tw byte_offset) (take plain_len buf)))
         | Cbc256 fvek fvek_ecb \<Rightarrow>
             (let cbc_iv = aes256_block C fvek_ecb iv
              in snd (cbc_decrypt_inplace (cbc256_dec C) fvek cbc_iv ciphertext))
         | Xts128 data_key tweak_key \<Rightarrow> xts_decrypt_sector C (xts128_dec C data_key tweak_key) ciphertext byte_offset
         | Xts256 data_key tweak_key \<Rightarrow> xts_decrypt_sector C (xts256_dec C data_key tweak_key) ciphertext byte_offset)"

definition encrypt_sector :: "primitives \<Rightarrow> sector_cipher \<Rightarrow> bytes \<Rightarrow> u64 \<Rightarrow> bytes" where
  "encrypt_sector C sc plain byte_offset =
     (let iv = le128 byte_offset; len = length plain - length plain mod 16
      in case transform sc of
           Cbc128 fvek fvek_ecb tweak \<Rightarrow>
             (let buf = (case tweak of None \<Rightarrow> plain
                         | Some tw \<Rightarrow> diffuser_enc C (sector_key C tw byte_offset) plain);
                  cbc_iv = aes128_block C fvek_ecb iv
              in copy_into buf 0 (cbc128_enc C fvek cbc_iv (take len buf)))
         | Cbc256 fvek fvek_ecb \<Rightarrow>
             (let cbc_iv = aes256_block C fvek_ecb iv
              in copy_into plain 0 (cbc256_enc C fvek cbc_iv (take len plain)))
         | Xts128 data_key tweak_key \<Rightarrow>
             xts128_enc C data_key tweak_key (get_tweak_default C (unat (byte_offset div 512))) plain
         | Xts256 data_key tweak_key \<Rightarrow>
             xts256_enc C data_key tweak_key (get_tweak_default C (unat (byte_offset div 512))) plain)"

section \<open>What the code relies on\<close>

definition sha256_ok :: "primitives \<Rightarrow> bool" where
  "sha256_ok C \<longleftrightarrow> (\<forall>m. length (sha256 C m) = 32)"

definition ccm_ok :: "primitives \<Rightarrow> bool" where
  "ccm_ok C \<longleftrightarrow>
     (\<forall>k n p. length k = 32 \<longrightarrow> length n = 12 \<longrightarrow>
        length (snd (ccm_seal C k n p)) = 16 \<and> length (fst (ccm_seal C k n p)) = length p
        \<and> ccm_open C k n (snd (ccm_seal C k n p)) (fst (ccm_seal C k n p)) = Some p)"

text \<open>CBC without padding keeps the length and succeeds on whole blocks; decryption inverts encryption.\<close>

definition cbc_ok :: "primitives \<Rightarrow> bool" where
  "cbc_ok C \<longleftrightarrow>
     (\<forall>k iv p. length p mod 16 = 0 \<longrightarrow>
        length (cbc128_enc C k iv p) = length p \<and> length (cbc256_enc C k iv p) = length p
        \<and> fst (cbc128_dec C k iv p) = Some (length p) \<and> fst (cbc256_dec C k iv p) = Some (length p)
        \<and> length (snd (cbc128_dec C k iv p)) = length p \<and> length (snd (cbc256_dec C k iv p)) = length p
        \<and> snd (cbc128_dec C k iv (cbc128_enc C k iv p)) = p
        \<and> snd (cbc256_dec C k iv (cbc256_enc C k iv p)) = p)"

definition xts_ok :: "primitives \<Rightarrow> bool" where
  "xts_ok C \<longleftrightarrow>
     (\<forall>d k t p. 16 \<le> length p \<longrightarrow>
        length (xts128_enc C d k t p) = length p \<and> length (xts256_enc C d k t p) = length p
        \<and> length (xts128_dec C d k t p) = length p \<and> length (xts256_dec C d k t p) = length p
        \<and> xts128_dec C d k t (xts128_enc C d k t p) = p \<and> xts256_dec C d k t (xts256_enc C d k t p) = p)"

definition diffuser_ok :: "primitives \<Rightarrow> bool" where
  "diffuser_ok C \<longleftrightarrow>
     (\<forall>k p. length (diffuser_enc C k p) = length p \<and> length (diffuser_dec C k p) = length p
        \<and> diffuser_dec C k (diffuser_enc C k p) = p)"

definition primitives_ok :: "primitives \<Rightarrow> bool" where
  "primitives_ok C \<longleftrightarrow> sha256_ok C \<and> ccm_ok C \<and> cbc_ok C \<and> xts_ok C \<and> diffuser_ok C"

section \<open>A concrete instance\<close>

text \<open>
  Simple invertible functions that satisfy the laws, so that hypotheses about the primitives can be
  seen to hold and the definitions can be run.  They have no cryptographic strength; nothing is proved
  about the program from them.
\<close>

definition demo_mask :: "bytes \<Rightarrow> bytes \<Rightarrow> u8" where
  "demo_mask k t = foldr (+) k 0 + foldr (+) t 1"

definition demo_add :: "bytes \<Rightarrow> bytes \<Rightarrow> bytes \<Rightarrow> bytes" where
  "demo_add k t = map (\<lambda>b. b + demo_mask k t)"

definition demo_sub :: "bytes \<Rightarrow> bytes \<Rightarrow> bytes \<Rightarrow> bytes" where
  "demo_sub k t = map (\<lambda>b. b - demo_mask k t)"

definition demo :: primitives where
  "demo = \<lparr>sha256 = (\<lambda>m. if length m = 88 then take 32 (drop 32 m) else fit 32 m), aes128_block = (\<lambda>k. demo_add k []), aes256_block = (\<lambda>k. demo_add k []),
     cbc128_dec = (\<lambda>k iv c. (Some (length c), demo_sub k iv c)),
     cbc256_dec = (\<lambda>k iv c. (Some (length c), demo_sub k iv c)),
     cbc128_enc = demo_add, cbc256_enc = demo_add,
     ccm_open = (\<lambda>k n tag c. if tag = take 16 k then Some (demo_sub k n c) else None),
     ccm_seal = (\<lambda>k n p. (demo_add k n p, take 16 k)),
     xts128_dec = (\<lambda>d k t. demo_sub (d @ k) t), xts256_dec = (\<lambda>d k t. demo_sub (d @ k) t),
     xts128_enc = (\<lambda>d k t. demo_add (d @ k) t), xts256_enc = (\<lambda>d k t. demo_add (d @ k) t),
     get_tweak_default = le_bytes 16,
     diffuser_dec = (\<lambda>k. demo_sub k []), diffuser_enc = (\<lambda>k. demo_add k [])\<rparr>"

section \<open>Specification\<close>

text \<open>The key stretch as a recurrence: each digest is fed back with the initial hash, the salt and the count.\<close>

fun stretch_iter :: "primitives \<Rightarrow> bytes \<Rightarrow> bytes \<Rightarrow> nat \<Rightarrow> bytes" where
  "stretch_iter C h salt 0 = replicate 32 0"
| "stretch_iter C h salt (Suc n) = sha256 C (stretch_iter C h salt n @ h @ salt @ to_le (word_of_nat n :: u64))"

text \<open>One printed group of a recovery password, and the whole password.\<close>

definition recovery_group :: "u16 \<Rightarrow> str" where
  "recovery_group w = digits_of 6 (11 * unat w)"

definition recovery_text :: "u16 list \<Rightarrow> str" where
  "recovery_text ws = str_join 45 (map recovery_group ws)"

text \<open>Key material of the lengths the constructors' array types fix.\<close>

fun wf_transform :: "sector_transform \<Rightarrow> bool" where
  "wf_transform (Cbc128 fvek fvek_ecb tweak) \<longleftrightarrow>
     length fvek = 16 \<and> fvek_ecb = fvek \<and> pred_option (\<lambda>t. length t = 16) tweak"
| "wf_transform (Cbc256 fvek fvek_ecb) \<longleftrightarrow> length fvek = 32 \<and> fvek_ecb = fvek"
| "wf_transform (Xts128 d t) \<longleftrightarrow> length d = 16 \<and> length t = 16"
| "wf_transform (Xts256 d t) \<longleftrightarrow> length d = 32 \<and> length t = 32"

section \<open>The instance satisfies the laws\<close>

lemma demo_sub_add [simp]: "demo_sub k t (demo_add k t p) = p"
  by (simp add: demo_sub_def demo_add_def comp_def)

lemma length_demo [simp]: "length (demo_add k t p) = length p" "length (demo_sub k t p) = length p"
  by (simp_all add: demo_sub_def demo_add_def)

lemma demo_ok: "primitives_ok demo"
  by (simp add: primitives_ok_def sha256_ok_def ccm_ok_def cbc_ok_def xts_ok_def diffuser_ok_def demo_def)

lemma primitives_okD:
  "primitives_ok C \<Longrightarrow> sha256_ok C" "primitives_ok C \<Longrightarrow> ccm_ok C" "primitives_ok C \<Longrightarrow> cbc_ok C"
  "primitives_ok C \<Longrightarrow> xts_ok C" "primitives_ok C \<Longrightarrow> diffuser_ok C"
  by (simp_all add: primitives_ok_def)

section \<open>The key stretch\<close>

lemma stretch_loop_invariant:
  assumes "sha256_ok C" and "length h = 32" and "length salt = 16" and "length old = 8"
  shows "take 32 (stretch_loop C (word_of_nat i) n (stretch_iter C h salt i @ h @ salt @ old))
         = stretch_iter C h salt (i + n)"
  using assms(4)
proof (induction n arbitrary: i old)
  case 0
  have "length (stretch_iter C h salt i) = 32"
    using assms(1) by (cases i) (auto simp: sha256_ok_def)
  then show ?case
    by simp
next
  case (Suc n)
  have len: "length (stretch_iter C h salt i) = 32"
    using assms(1) by (cases i) (auto simp: sha256_ok_def)
  let ?buf = "stretch_iter C h salt i @ h @ salt @ to_le (word_of_nat i :: u64)"
  have "copy_into (stretch_iter C h salt i @ h @ salt @ old) 80 (to_le (word_of_nat i :: u64)) = ?buf"
    using assms(2,3) len Suc.prems by (simp add: copy_into_def)
  moreover have "copy_into ?buf 0 (sha256 C ?buf) = stretch_iter C h salt (Suc i) @ h @ salt @ to_le (word_of_nat i :: u64)"
    using assms(1) len by (simp add: copy_into_def sha256_ok_def)
  moreover have "word_of_nat i + 1 = (word_of_nat (Suc i) :: u64)"
    by (simp add: add.commute)
  ultimately show ?case
    using Suc.IH [of "to_le (word_of_nat i :: u64)" "Suc i"] by (simp add: Let_def del: of_nat_Suc)
qed

lemma stretch_key_n_eq:
  assumes "sha256_ok C" and "length h = 32" and "length salt = 16"
  shows "stretch_key_n C h salt n = stretch_iter C h salt (unat n)"
proof -
  have "copy_into (copy_into (replicate 88 0) 32 h) 64 salt = stretch_iter C h salt 0 @ h @ salt @ replicate 8 0"
    using assms(2,3) by (simp add: copy_into_def)
  then show ?thesis
    using stretch_loop_invariant [OF assms, of "replicate 8 0" 0 "unat n"]
    by (simp add: stretch_key_n_def Let_def)
qed

lemma length_stretch_key: "sha256_ok C \<Longrightarrow> length h = 32 \<Longrightarrow> length salt = 16 \<Longrightarrow> length (stretch_key C h salt) = 32"
  by (cases "unat STRETCH_ITERATIONS") (auto simp: stretch_key_def stretch_key_n_eq sha256_ok_def)

section \<open>Recovery passwords\<close>

lemma to_le_u16_inj: "to_le (v :: u16) = to_le w \<Longrightarrow> v = w"
  by (drule arg_cong [of _ _ "from_le :: bytes \<Rightarrow> u16"]) (simp add: from_le_to_le)

lemma concat_to_le_inj: "concat (map to_le us) = concat (map to_le vs) \<Longrightarrow> us = (vs :: u16 list)"
proof (induction us arbitrary: vs)
  case Nil
  then show ?case
    by (cases vs) (auto dest!: arg_cong [of _ _ length])
next
  case (Cons u us)
  from Cons.prems have "vs \<noteq> []"
    by (auto dest!: arg_cong [of _ _ length])
  then obtain v vs' where "vs = v # vs'"
    by (cases vs) auto
  with Cons show ?case
    by (auto dest: to_le_u16_inj)
qed

lemma recovery_group_bound: "11 * unat (w :: u16) < 10 ^ 6"
  using unsigned_less [of w, where 'a = nat] by simp

lemma recovery_group_digits:
  "length (recovery_group w) = 6" "list_all (\<lambda>c. 48 \<le> c \<and> c \<le> 57) (recovery_group w)"
  "dec_value 0 (recovery_group w) = 11 * unat w"
  unfolding recovery_group_def
  by (simp_all only: length_digits_of digits_of_are_digits dec_value_digits_of recovery_group_bound)

lemma recovery_group_inj: "recovery_group v = recovery_group w \<Longrightarrow> v = w"
  using recovery_group_digits(3) [of v] recovery_group_digits(3) [of w] by (simp add: word_unat_eq_iff)

lemma recovery_group_sep: "45 \<notin> set (recovery_group w)"
  using recovery_group_digits(2) [of w] by (auto simp: list_all_iff)

lemma valid_recovery_group: "valid_str (recovery_group w)"
  using recovery_group_digits(2) [of w] by (auto simp: list_all_iff valid_str_def is_scalar_def)

text \<open>The checks one group must pass, and the word it stands for.\<close>

lemma group_accepted_iff:
  assumes "valid_str g"
  shows "(str_len g = 6 \<and> list_all is_ascii_digit (str_bytes g) \<and> dec_value 0 g mod 11 = 0 \<and> dec_value 0 g div 11 \<le> 0xffff)
    \<longleftrightarrow> (\<exists>w. g = recovery_group w)" (is "?ok \<longleftrightarrow> _")
proof
  assume ok: ?ok
  then have d: "list_all (\<lambda>c. 48 \<le> c \<and> c \<le> 57) g"
    using assms by (simp add: str_bytes_digits)
  with ok have "g = digits_of 6 (dec_value 0 g)"
    using digits_of_dec_value [OF d] str_len_digits [OF d] by metis
  moreover have "11 dvd dec_value 0 g"
    using ok by (simp add: dvd_eq_mod_eq_0)
  then have "dec_value 0 g = 11 * unat (word_of_nat (dec_value 0 g div 11) :: u16)"
    using ok by (simp add: unat_of_nat)
  ultimately have "g = recovery_group (word_of_nat (dec_value 0 g div 11))"
    unfolding recovery_group_def by metis
  then show "\<exists>w. g = recovery_group w" ..
next
  assume "\<exists>w. g = recovery_group w"
  then obtain w where "g = recovery_group w" ..
  then show ?ok
    using recovery_group_digits [of w] unsigned_less [of w, where 'a = nat] assms
    by (simp add: str_bytes_digits str_len_digits)
qed

lemma parse_recovery_group: "parse_u32 (recovery_group w) = Some (11 * unat w)"
  using recovery_group_digits [of w] parse_u32_digits [of "recovery_group w"] by fastforce

lemma recovery_loop_group:
  "i < 8 \<Longrightarrow> recovery_loop i key n (recovery_group w # gs)
     = recovery_loop (i + 1) (copy_into key (2 * i) (to_le w)) (i + 1) gs"
  using recovery_group_digits [of w] valid_recovery_group [of w] unsigned_less [of w, where 'a = nat]
    parse_recovery_group [of w]
  by (simp add: str_bytes_digits str_len_digits mult.commute Let_def)

lemma recovery_loop_prefix:
  assumes "i + length ws \<le> 8" and "length key = 16"
  shows "recovery_loop i key n (map recovery_group ws @ gs)
         = recovery_loop (i + length ws) (copy_into key (2 * i) (concat (map to_le ws)))
             (if ws = [] then n else i + length ws) gs"
  using assms
proof (induction ws arbitrary: i key n)
  case (Cons w ws)
  then have "recovery_loop (i + 1) (copy_into key (2 * i) (to_le w)) (i + 1) (map recovery_group ws @ gs)
      = recovery_loop (i + 1 + length ws) (copy_into (copy_into key (2 * i) (to_le w)) (2 * (i + 1)) (concat (map to_le ws)))
            (if ws = [] then i + 1 else i + 1 + length ws) gs"
    by (intro Cons.IH) simp_all
  also have "copy_into (copy_into key (2 * i) (to_le w)) (2 * (i + 1)) (concat (map to_le ws))
      = copy_into key (2 * i) (to_le w @ concat (map to_le ws))"
    using Cons.prems by (intro copy_into_append) simp_all
  finally show ?case
    using Cons.prems recovery_loop_group [of i key n w] by (simp del: recovery_loop.simps)
qed simp

lemma recovery_loop_accepts:
  assumes "i + length ws \<le> 8" and "length key = 16"
  shows "recovery_loop i key n (map recovery_group ws)
         = Ok (copy_into key (2 * i) (concat (map to_le ws)), if ws = [] then n else i + length ws)"
  using recovery_loop_prefix [OF assms, of n "[]"] by simp

lemma recovery_loop_Ok:
  assumes "recovery_loop i key n gs = Ok r" and "list_all valid_str gs" and "i \<le> 8"
  shows "\<exists>ws. gs = map recovery_group ws \<and> i + length ws \<le> 8"
  using assms
proof (induction gs arbitrary: i key n)
  case (Cons g gs)
  have i: "i < 8" and ok: "str_len g = 6" "list_all is_ascii_digit (str_bytes g)"
    using Cons.prems(1) by (auto split: if_splits)
  have d: "list_all (\<lambda>c. 48 \<le> c \<and> c \<le> 57) g"
    using ok(2) Cons.prems(2) by (simp add: str_bytes_digits)
  have "parse_u32 g = Some (dec_value 0 g)"
    using ok d by (intro parse_u32_digits) (auto simp: str_len_digits)
  then have "dec_value 0 g mod 11 = 0" "dec_value 0 g div 11 \<le> 0xffff"
    using Cons.prems(1) i ok by (auto simp: Let_def split: if_splits)
  then obtain w where w: "g = recovery_group w"
    using group_accepted_iff [of g] ok Cons.prems(2) by auto
  then obtain ws where "gs = map recovery_group ws" "i + 1 + length ws \<le> 8"
    using Cons.IH [of "i + 1"] Cons.prems i by (auto simp: recovery_loop_group simp del: recovery_loop.simps)
  with w show ?case
    by (intro exI [of _ "w # ws"]) simp
qed simp

lemma recovery_key_hash_text:
  "length ws = 8 \<Longrightarrow> recovery_key_hash C (recovery_text ws) = Ok (sha256 C (concat (map to_le ws)))"
proof -
  assume len: "length ws = 8"
  then have "str_split 45 (recovery_text ws) = map recovery_group ws"
    unfolding recovery_text_def by (intro str_split_join) (auto simp: recovery_group_sep)
  moreover have "length (concat (map to_le ws)) = 2 * length ws" for ws :: "u16 list"
    by (induction ws) auto
  ultimately show ?thesis
    using len by (auto simp: recovery_key_hash_def recovery_loop_accepts)
qed

lemma recovery_key_hash_Ok:
  assumes "valid_str s" and "recovery_key_hash C s = Ok h"
  shows "\<exists>ws. length ws = 8 \<and> s = recovery_text ws"
proof -
  obtain key n where r: "recovery_loop 0 (replicate 16 0) 0 (str_split 45 s) = Ok (key, n)" and n: "n = 8"
    using assms(2) by (auto simp: recovery_key_hash_def bind_outcome_Ok_iff split: if_splits)
  obtain ws where ws: "str_split 45 s = map recovery_group ws" "length ws \<le> 8"
    using recovery_loop_Ok [OF r] valid_str_split [OF assms(1)] by auto
  have "n = length ws"
    using r ws recovery_loop_accepts [of 0 ws "replicate 16 0" 0] by (auto split: if_splits)
  moreover have "s = recovery_text ws"
    unfolding recovery_text_def ws(1) [symmetric] by (rule str_join_split [symmetric])
  ultimately show ?thesis
    using n by blast
qed

lemma recovery_rejects_group:
  assumes "length ws < 8" and "valid_str g" and "\<forall>h \<in> set (g # gs). 45 \<notin> set h" and "g \<notin> range recovery_group"
  shows "recovery_key_hash C (str_join 45 (map recovery_group ws @ g # gs))
      = Err (if str_len g \<noteq> 6 \<or> \<not> list_all is_ascii_digit (str_bytes g) then ''each recovery group must be 6 digits''
             else if dec_value 0 g mod 11 \<noteq> 0 then ''recovery group failed the divisible-by-11 checksum''
             else ''recovery group out of range (value / 11 exceeds 16 bits)'')"
proof -
  have split: "str_split 45 (str_join 45 (map recovery_group ws @ g # gs)) = map recovery_group ws @ g # gs"
    using assms(3) by (intro str_split_join) (auto simp: recovery_group_sep)
  have "parse_u32 g = Some (dec_value 0 g)" if "str_len g = 6" "list_all is_ascii_digit (str_bytes g)"
    using that assms(2) str_len_digits [of g] by (intro parse_u32_digits) (auto simp: str_bytes_digits)
  moreover have "0xffff < dec_value 0 g div 11"
    if "str_len g = 6" "list_all is_ascii_digit (str_bytes g)" "dec_value 0 g mod 11 = 0"
    using that group_accepted_iff [OF assms(2)] assms(4) by (auto simp: not_le)
  ultimately show ?thesis
    using assms(1) by (simp add: recovery_key_hash_def split recovery_loop_prefix Let_def)
qed

lemma recovery_rejects_count:
  assumes "0 < length ws" and "length ws \<noteq> 8"
  shows "recovery_key_hash C (recovery_text ws) = Err ''recovery password must be exactly 8 groups''"
proof -
  have split: "str_split 45 (recovery_text ws) = map recovery_group ws"
    unfolding recovery_text_def using assms(1) by (intro str_split_join) (auto simp: recovery_group_sep)
  show ?thesis
  proof (cases "length ws < 8")
    case True
    then show ?thesis
      using assms by (auto simp: recovery_key_hash_def split recovery_loop_accepts)
  next
    case False
    then obtain us w vs where ws: "ws = us @ w # vs" "length us = 8"
      using assms(2) id_take_nth_drop [of 8 ws] by fastforce
    then show ?thesis
      unfolding recovery_key_hash_def split by (simp add: recovery_loop_prefix)
  qed
qed

section \<open>Key wrapping\<close>

lemma aes_ccm_unwrap_eq:
  "aes_ccm_unwrap C key v
   = (if 28 \<le> length v then ccm_open C key (take 12 v) (take 16 (drop 12 v)) (drop 28 v) else None)"
  by (auto simp: aes_ccm_unwrap_def get_range_def get_from_def)

lemma aes_ccm_unwrap_Some_iff:
  "aes_ccm_unwrap C k v = Some q \<longleftrightarrow>
     (\<exists>n tag ct. v = n @ tag @ ct \<and> length n = 12 \<and> length tag = 16 \<and> ccm_open C k n tag ct = Some q)"
proof
  assume u: "aes_ccm_unwrap C k v = Some q"
  then have "28 \<le> length v"
    by (auto simp: aes_ccm_unwrap_eq split: if_splits)
  moreover have "v = take 12 v @ take 16 (drop 12 v) @ drop 28 v"
    using append_take_drop_id [of 12 v] append_take_drop_id [of 16 "drop 12 v"] by simp
  ultimately show "\<exists>n tag ct. v = n @ tag @ ct \<and> length n = 12 \<and> length tag = 16 \<and> ccm_open C k n tag ct = Some q"
    using u by (intro exI [of _ "take 12 v"] exI [of _ "take 16 (drop 12 v)"] exI [of _ "drop 28 v"])
      (auto simp: aes_ccm_unwrap_eq)
qed (auto simp: aes_ccm_unwrap_eq)

lemma demo_wrong_key:
  "take 16 k \<noteq> take 16 k' \<Longrightarrow> length k = 32 \<Longrightarrow> length n = 12 \<Longrightarrow> aes_ccm_unwrap demo k' (aes_ccm_wrap demo k n p) = None"
  by (simp add: aes_ccm_unwrap_eq aes_ccm_wrap_def demo_def)

lemma ccm_okD:
  assumes "ccm_ok C" and "length k = 32" and "length n = 12"
  shows "length (snd (ccm_seal C k n p)) = 16" "length (fst (ccm_seal C k n p)) = length p"
    "ccm_open C k n (snd (ccm_seal C k n p)) (fst (ccm_seal C k n p)) = Some p"
  using assms by (auto simp: ccm_ok_def)

lemma ccm_unwrap_wrap:
  assumes "ccm_ok C" and "length key = 32" and "length nonce = 12"
  shows "aes_ccm_unwrap C key (aes_ccm_wrap C key nonce p) = Some p"
    and "length (aes_ccm_wrap C key nonce p) = 28 + length p"
  using assms(3) ccm_okD [OF assms]
  by (simp_all add: aes_ccm_unwrap_eq aes_ccm_wrap_def split_beta)

section \<open>Sectors\<close>

lemma le128_eq: "le128 off = to_le off @ replicate 8 0"
  by (simp add: le128_def copy_into_def)

lemma length_sub_mod16: "length (take (length b - length b mod 16) b) mod 16 = 0"
  by (simp add: minus_mod_eq_mult_div)

lemma cbc_inplace_length:
  assumes "\<And>p. length p mod 16 = 0 \<Longrightarrow> length (snd (dec k iv p)) = length p"
  shows "length (snd (cbc_decrypt_inplace dec k iv buf)) = length buf"
  using assms [OF length_sub_mod16 [of buf]]
  by (simp add: cbc_decrypt_inplace_def Let_def split_beta)

lemma cbc_inplace_whole:
  assumes "length buf mod 16 = 0" and "fst (dec k iv buf) = Some (length buf)"
    and "length (snd (dec k iv buf)) = length buf"
  shows "cbc_decrypt_inplace dec k iv buf = (length buf, snd (dec k iv buf))"
  using assms by (simp add: cbc_decrypt_inplace_def Let_def split_beta)

lemma cbc_okD:
  assumes "cbc_ok C" and "length p mod 16 = 0"
  shows "length (cbc128_enc C k iv p) = length p" "length (cbc256_enc C k iv p) = length p"
    "fst (cbc128_dec C k iv p) = Some (length p)" "fst (cbc256_dec C k iv p) = Some (length p)"
    "length (snd (cbc128_dec C k iv p)) = length p" "length (snd (cbc256_dec C k iv p)) = length p"
    "snd (cbc128_dec C k iv (cbc128_enc C k iv p)) = p" "snd (cbc256_dec C k iv (cbc256_enc C k iv p)) = p"
  using assms by (auto simp: cbc_ok_def)

lemma xts_okD:
  assumes "xts_ok C" and "16 \<le> length p"
  shows "length (xts128_enc C d k t p) = length p" "length (xts256_enc C d k t p) = length p"
    "length (xts128_dec C d k t p) = length p" "length (xts256_dec C d k t p) = length p"
    "xts128_dec C d k t (xts128_enc C d k t p) = p" "xts256_dec C d k t (xts256_enc C d k t p) = p"
  using assms by (auto simp: xts_ok_def)

lemma diffuser_okD:
  assumes "diffuser_ok C"
  shows "length (diffuser_enc C k p) = length p" "length (diffuser_dec C k p) = length p"
    "diffuser_dec C k (diffuser_enc C k p) = p"
  using assms by (auto simp: diffuser_ok_def)

lemma length_decrypt_sector:
  assumes "cbc_ok C" and "xts_ok C" and "diffuser_ok C"
  shows "length (decrypt_sector C sc ct off) = length ct"
proof (cases "transform sc")
  case (Cbc128 fvek fvek_ecb tweak)
  let ?d = "cbc_decrypt_inplace (cbc128_dec C) fvek (aes128_block C fvek_ecb (le128 off)) ct"
  have "length (snd ?d) = length ct"
    by (rule cbc_inplace_length) (rule cbc_okD [OF assms(1)])
  then show ?thesis
    using Cbc128 diffuser_okD [OF assms(3)]
    by (auto simp: decrypt_sector_def Let_def split_beta split: option.splits)
next
  case (Cbc256 fvek fvek_ecb)
  have "length (snd (cbc_decrypt_inplace (cbc256_dec C) fvek (aes256_block C fvek_ecb (le128 off)) ct)) = length ct"
    by (rule cbc_inplace_length) (rule cbc_okD [OF assms(1)])
  then show ?thesis
    using Cbc256 by (simp add: decrypt_sector_def Let_def)
qed (use xts_okD [OF assms(2)] in \<open>simp_all add: decrypt_sector_def xts_decrypt_sector_def Let_def\<close>)

lemma sector_roundtrip:
  assumes "cbc_ok C" and "xts_ok C" and "diffuser_ok C" and "length p mod 16 = 0" and "p \<noteq> []"
  shows "decrypt_sector C sc (encrypt_sector C sc p off) off = p"
    and "length (encrypt_sector C sc p off) = length p"
proof -
  have len: "16 \<le> length p"
    using assms(4,5) by (cases "length p < 16") auto
  note laws = cbc_okD [OF assms(1)] xts_okD [OF assms(2)] diffuser_okD [OF assms(3)]
  show "length (encrypt_sector C sc p off) = length p"
    using assms(4) len by (cases "transform sc") (auto simp: encrypt_sector_def Let_def laws split: option.splits)
  show "decrypt_sector C sc (encrypt_sector C sc p off) off = p"
    using assms(4) len
    by (cases "transform sc")
      (auto simp: encrypt_sector_def decrypt_sector_def xts_decrypt_sector_def Let_def laws cbc_inplace_whole
         split: option.splits)
qed

section \<open>Properties\<close>

text \<open>
  Property C20.  The in-place 88-byte buffer of \<^verbatim>\<open>stretch_key_n\<close> computes the key-stretch recurrence
  \<open>last' = SHA-256(last | hash | salt | count)\<close> for every 64-bit iteration count, and
  \<^verbatim>\<open>stretch_key\<close> is its 1048576th term, 32 bytes long.
\<close>

theorem stretch_key_recurrence:
  assumes "sha256_ok C" and "length h = 32" and "length salt = 16"
  shows "stretch_key_n C h salt n = stretch_iter C h salt (unat n)
    \<and> stretch_key C h salt = stretch_iter C h salt 1048576
    \<and> length (stretch_key C h salt) = 32"
  using stretch_key_n_eq [OF assms] length_stretch_key [OF assms]
  by (simp add: stretch_key_def STRETCH_ITERATIONS_def)

theorem stretch_key_recurrence_witness:
  "stretch_key_n demo (replicate 32 1) (replicate 16 2) 2 = stretch_iter demo (replicate 32 1) (replicate 16 2) 2"
  using stretch_key_recurrence [of demo "replicate 32 1" "replicate 16 2" 2] primitives_okD(1) [OF demo_ok]
  by simp

text \<open>
  Property C18.  A string is accepted as a recovery password exactly when it is the printed form of
  eight 16-bit words (each times eleven, in six digits, joined by dashes), and the result is then the
  digest of those words in little-endian order.
\<close>

theorem recovery_password_accepted:
  assumes "valid_str s"
  shows "recovery_key_hash C s = Ok h \<longleftrightarrow>
    (\<exists>ws. length ws = 8 \<and> s = recovery_text ws \<and> h = sha256 C (concat (map to_le ws)))"
  using recovery_key_hash_Ok [OF assms, of C h] recovery_key_hash_text [of _ C] by fastforce

theorem recovery_password_accepted_witness:
  "recovery_key_hash demo (recovery_text [1, 2, 3, 4, 5, 6, 7, 255])
   = Ok (sha256 demo [1, 0, 2, 0, 3, 0, 4, 0, 5, 0, 6, 0, 7, 0, 255, 0])"
proof -
  have "valid_str (recovery_text [1, 2, 3, 4, 5, 6, 7, 255])"
    by (simp add: recovery_text_def recovery_group_def valid_str_def is_scalar_def)
  then show ?thesis
    unfolding recovery_password_accepted [OF \<open>valid_str _\<close>]
    by (intro exI [of _ "[1, 2, 3, 4, 5, 6, 7, 255]"]) (simp add: to_le_def)
qed

text \<open>
  Property C19.  What a malformed recovery password is rejected for: after fewer than eight good
  groups the first bad one decides (wrong shape, failed checksum, or value out of range, in this
  order), and with only good groups a count other than eight is the reason.
\<close>

theorem recovery_password_rejected:
  assumes "length ws < 8" and "valid_str g" and "\<forall>h \<in> set (g # gs). 45 \<notin> set h" and "g \<notin> range recovery_group"
    and "0 < length vs" and "length vs \<noteq> 8"
  shows "recovery_key_hash C (str_join 45 (map recovery_group ws @ g # gs))
      = Err (if str_len g \<noteq> 6 \<or> \<not> list_all is_ascii_digit (str_bytes g) then ''each recovery group must be 6 digits''
             else if dec_value 0 g mod 11 \<noteq> 0 then ''recovery group failed the divisible-by-11 checksum''
             else ''recovery group out of range (value / 11 exceeds 16 bits)'')
    \<and> recovery_key_hash C (recovery_text vs) = Err ''recovery password must be exactly 8 groups''"
  using recovery_rejects_group [OF assms(1-4)] recovery_rejects_count [OF assms(5,6)] by simp

theorem recovery_password_rejected_witness:
  "recovery_key_hash demo (str_join 45 (map recovery_group [7] @ [48, 48, 48, 48, 49, 50] # []))
     = Err ''recovery group failed the divisible-by-11 checksum''
   \<and> recovery_key_hash demo (recovery_text [7]) = Err ''recovery password must be exactly 8 groups''"
proof -
  have "valid_str [48, 48, 48, 48, 49, 50 :: nat]"
    by (simp add: valid_str_def is_scalar_def)
  moreover have "\<not> 12 = 11 * unat (w :: u16)" for w
    by presburger
  then have "dec_value 0 [48, 48, 48, 48, 49, 50] \<noteq> dec_value 0 (recovery_group w)" for w
    by (simp add: recovery_group_digits(3))
  then have "[48, 48, 48, 48, 49, 50 :: nat] \<notin> range recovery_group"
    by (metis rangeE)
  ultimately show ?thesis
    using recovery_password_rejected [of "[7]" "[48, 48, 48, 48, 49, 50]" "[]" "[7]" demo]
    by (simp add: str_bytes_digits str_len_digits)
qed

text \<open>
  Property C38.  Two different credentials lead to the same key-stretch input only through a SHA-256
  collision between inputs that the code itself hashes for them: for passwords, their UTF-16 bytes, which
  differ, or else the digests of these; for recovery passwords, the 16-byte keys of the two groups of
  eight words they print, which differ too.
\<close>

theorem credential_hash_collision:
  assumes "valid_str p" and "valid_str q" and "p \<noteq> q"
    and "x = concat (map to_le (encode_utf16 p))" and "y = concat (map to_le (encode_utf16 q))"
  shows "(password_hash C p = password_hash C q \<longrightarrow>
        x \<noteq> y \<and> (sha256 C x = sha256 C y \<or> sha256 C x \<noteq> sha256 C y \<and> sha256 C (sha256 C x) = sha256 C (sha256 C y)))
    \<and> (recovery_key_hash C p = Ok h \<and> recovery_key_hash C q = Ok h \<longrightarrow>
        (\<exists>us vs. length us = 8 \<and> length vs = 8 \<and> p = recovery_text us \<and> q = recovery_text vs
           \<and> concat (map to_le us) \<noteq> concat (map to_le vs)
           \<and> sha256 C (concat (map to_le us)) = h \<and> sha256 C (concat (map to_le vs)) = h))"
proof (intro conjI impI)
  assume eq: "password_hash C p = password_hash C q"
  show "x \<noteq> y"
    using assms concat_to_le_inj decode_encode_utf16 by metis
  show "sha256 C x = sha256 C y \<or> sha256 C x \<noteq> sha256 C y \<and> sha256 C (sha256 C x) = sha256 C (sha256 C y)"
    using eq by (auto simp: password_hash_def assms(4,5))
next
  assume h: "recovery_key_hash C p = Ok h \<and> recovery_key_hash C q = Ok h"
  obtain us vs where *: "length us = 8" "p = recovery_text us" "length vs = 8" "q = recovery_text vs"
    using recovery_key_hash_Ok [OF assms(1)] recovery_key_hash_Ok [OF assms(2)] h by blast
  moreover have "sha256 C (concat (map to_le us)) = h" "sha256 C (concat (map to_le vs)) = h"
    using h * recovery_key_hash_text [of us C] recovery_key_hash_text [of vs C] by simp_all
  moreover have "concat (map to_le us) \<noteq> concat (map to_le vs)"
    using * assms(3) concat_to_le_inj by metis
  ultimately show "\<exists>us vs. length us = 8 \<and> length vs = 8 \<and> p = recovery_text us \<and> q = recovery_text vs
      \<and> concat (map to_le us) \<noteq> concat (map to_le vs) \<and> sha256 C (concat (map to_le us)) = h \<and> sha256 C (concat (map to_le vs)) = h"
    by blast
qed

theorem credential_hash_collision_witness:
  "password_hash demo [97] = password_hash demo [97, 0] \<and> [97, 0] \<noteq> [97, 0, 0, (0 :: u8)]
   \<and> sha256 demo (sha256 demo [97, 0]) = sha256 demo (sha256 demo [97, 0, 0, 0])"
proof -
  have eq: "password_hash demo [97] = password_hash demo [97, 0]"
    by (simp add: password_hash_def encode_utf16_def utf16_char_def to_le_def demo_def fit_def
        replicate_app_Cons_same [symmetric]) (simp add: numeral_eq_Suc)
  have "valid_str [97]" "valid_str [97, 0]"
    by (simp_all add: valid_str_def is_scalar_def)
  from credential_hash_collision [OF this _ refl refl, of demo] eq
  have "sha256 demo (sha256 demo [97, 0]) = sha256 demo (sha256 demo [97, 0, 0, 0])"
    by (simp add: encode_utf16_def utf16_char_def to_le_def) metis
  with eq show ?thesis
    by simp
qed

text \<open>
  Property C22.  Unwrapping inverts wrapping; a value too short to hold a nonce and a tag is refused;
  and a key is returned only if the AES-CCM tag verified over exactly the stored nonce, tag and
  ciphertext.
\<close>

theorem ccm_key_wrapping:
  assumes "ccm_ok C" and "length key = 32" and "length nonce = 12"
  shows "aes_ccm_unwrap C key (aes_ccm_wrap C key nonce p) = Some p
    \<and> (aes_ccm_unwrap C k v = Some q \<longleftrightarrow>
         (\<exists>n tag ct. v = n @ tag @ ct \<and> length n = 12 \<and> length tag = 16 \<and> ccm_open C k n tag ct = Some q))"
  using ccm_unwrap_wrap(1) [OF assms] aes_ccm_unwrap_Some_iff by blast

theorem ccm_key_wrapping_witness:
  "aes_ccm_unwrap demo (replicate 32 7) (aes_ccm_wrap demo (replicate 32 7) (replicate 12 1) [1, 2, 3]) = Some [1, 2, 3]"
  using ccm_key_wrapping [of demo "replicate 32 7" "replicate 12 1" "[1, 2, 3]" "[]" "[]" "[]"]
    primitives_okD(2) [OF demo_ok] by simp

text \<open>
  Property C21.  For each of the five ciphers, decrypting an encrypted sector at the same byte offset
  gives the sector back; and decryption keeps the length of any input, whole blocks or not.
\<close>

theorem sector_cipher_roundtrip:
  assumes "cbc_ok C" and "xts_ok C" and "diffuser_ok C" and "length p mod 16 = 0" and "p \<noteq> []"
  shows "decrypt_sector C sc (encrypt_sector C sc p off) off = p
    \<and> length (encrypt_sector C sc p off) = length p
    \<and> length (decrypt_sector C sc ct off) = length ct"
  using sector_roundtrip [OF assms] length_decrypt_sector [OF assms(1-3)] by blast

theorem sector_cipher_roundtrip_witness:
  "decrypt_sector demo (SectorCipher_new (replicate 16 3) (replicate 16 4))
     (encrypt_sector demo (SectorCipher_new (replicate 16 3) (replicate 16 4)) (replicate 512 9) 1024) 1024
   = replicate 512 9"
  using sector_cipher_roundtrip [of demo "replicate 512 9" "SectorCipher_new (replicate 16 3) (replicate 16 4)" 1024]
    primitives_okD(3-5) [OF demo_ok] by simp

end
