(* ===== verification/Volume.thy ===== *)
theory Volume
  imports Reader Metadata Crypto
begin

text \<open>
  \<^verbatim>\<open>core/src/volume.rs\<close>, first half: finding the metadata, deriving the sector cipher from a
  credential, and the unlock entry points.  \<open>image_metadata\<close> and \<open>image_unlock\<close> say what these compute
  from the bytes of the image alone; the code, which drives a reader, is proved to compute exactly that
  on every reader that honours the \<open>image_reader\<close> contract.
\<close>

section \<open>Reading the metadata\<close>

definition METHOD_NONE :: u16 where [simp]: "METHOD_NONE = 0x0000"
definition SECTOR_SIZE :: nat where [simp]: "SECTOR_SIZE = 512"
definition METADATA_READ_LEN :: nat where [simp]: "METADATA_READ_LEN = 65536"

text \<open>The loop over the candidate offsets; \<open>offsets\<close> is the whole list, reported when none is valid.\<close>

fun try_offsets ::
    "'r reader_ops \<Rightarrow> 'r \<Rightarrow> u16 \<Rightarrow> u64 list \<Rightarrow> u64 list \<Rightarrow> (bde_error, fve_metadata, 'r) io" where
  "try_offsets ops r bps offsets [] = pure_io (Err (NoValidMetadata offsets)) r"
| "try_offsets ops r bps offsets (offset # rest) =
     (if offset = 0 then try_offsets ops r bps offsets rest
      else
        bind_io (bde_io (seek_op ops r (SeekStart offset))) (\<lambda>_ r1.
        bind_io (read_available ops r1 METADATA_READ_LEN) (\<lambda>(block, n) r2.
        bind_io (pure_io (FveMetadata_parse (take n block) bps) r2) (\<lambda>parsed r3.
          case parsed of
            Some meta \<Rightarrow> pure_io (Ok meta) r3
          | None \<Rightarrow> try_offsets ops r3 bps offsets rest))))"

definition read_metadata :: "'r reader_ops \<Rightarrow> 'r \<Rightarrow> (bde_error, fve_metadata, 'r) io" where
  "read_metadata ops r =
     bind_io (bde_io (seek_op ops r (SeekStart 0))) (\<lambda>_ r1.
     bind_io (read_fill ops r1 SECTOR_SIZE) (\<lambda>header r2.
     bind_io (pure_io (VolumeHeader_parse header) r2) (\<lambda>vh r3.
       try_offsets ops r3 (bytes_per_sector vh) (fve_metadata_offsets vh) (fve_metadata_offsets vh))))"

section \<open>Keys\<close>

datatype vmk_unwrap = Stretch bytes | ClearKey | External bytes

definition take_key64 :: "bytes \<Rightarrow> nat \<Rightarrow> string \<Rightarrow> (bde_error, bytes) outcome" where
  "take_key64 container off what =
     ok_or (get_range container off (off + 64)) (MalformedKeyContainer what (length container) (off + 64))"

definition take_key32 :: "bytes \<Rightarrow> nat \<Rightarrow> string \<Rightarrow> (bde_error, bytes) outcome" where
  "take_key32 container off what =
     ok_or (get_range container off (off + 32)) (MalformedKeyContainer what (length container) (off + 32))"

definition take_key16 :: "bytes \<Rightarrow> nat \<Rightarrow> string \<Rightarrow> (bde_error, bytes) outcome" where
  "take_key16 container off what =
     ok_or (get_range container off (off + 16)) (MalformedKeyContainer what (length container) (off + 16))"

definition find_value :: "u16 \<Rightarrow> metadata_entry list \<Rightarrow> metadata_entry option" where
  "find_value vt es = find (\<lambda>e. value_type e = vt) es"

definition parse_startup_key :: "bytes \<Rightarrow> (bde_error, bytes) outcome" where
  "parse_startup_key bek =
     (let body = (case get_from bek 48 of Some b \<Rightarrow> b | None \<Rightarrow> [])
      in bind_outcome (ok_or (find_value VALUE_TYPE_EXTERNAL_KEY (parse_sequence body))
                        (MissingKeyMaterial ''external key'')) (\<lambda>external.
         bind_outcome (nested external 24) (\<lambda>props.
         bind_outcome (ok_or (find_value VALUE_TYPE_KEY props)
                        (MissingKeyMaterial ''external key property'')) (\<lambda>key.
           take_key32 (entry_data key) 4 ''external key''))))"

text \<open>Step 2 of \<^verbatim>\<open>derive_cipher\<close>: the key that unwraps the VMK.\<close>

definition vmk_unwrap_key ::
    "primitives \<Rightarrow> metadata_entry list \<Rightarrow> vmk_unwrap \<Rightarrow> (bde_error, bytes) outcome" where
  "vmk_unwrap_key C props unwrap =
     (case unwrap of
        Stretch key_hash \<Rightarrow>
          bind_outcome (ok_or (find_value VALUE_TYPE_STRETCH props) (MissingKeyMaterial ''stretch key''))
            (\<lambda>stretch.
          bind_outcome (ok_or (get_range (entry_data stretch) 4 20) (MissingKeyMaterial ''stretch salt''))
            (\<lambda>salt. Ok (stretch_key C key_hash salt)))
      | ClearKey \<Rightarrow>
          bind_outcome (ok_or (find_value VALUE_TYPE_KEY props) (MissingKeyMaterial ''clear key''))
            (\<lambda>key. take_key32 (entry_data key) 4 ''clear'')
      | External key \<Rightarrow> Ok key)"

text \<open>Step 3: the sector cipher from the unwrapped FVEK container.\<close>

definition cipher_from_container :: "sector_cipher_kind \<Rightarrow> bytes \<Rightarrow> (bde_error, sector_cipher) outcome" where
  "cipher_from_container kind fvek_container =
     (case kind of
        KCbc128Diffuser \<Rightarrow>
          bind_outcome (take_key16 fvek_container 12 ''FVEK'') (\<lambda>fvek.
          bind_outcome (take_key16 fvek_container 44 ''FVEK'') (\<lambda>tweak. Ok (SectorCipher_new fvek tweak)))
      | KCbc128 \<Rightarrow> bind_outcome (take_key16 fvek_container 12 ''FVEK'') (\<lambda>fvek. Ok (SectorCipher_new_cbc fvek))
      | KCbc256 \<Rightarrow> bind_outcome (take_key32 fvek_container 12 ''FVEK'') (\<lambda>fvek. Ok (SectorCipher_new_cbc256 fvek))
      | KXts128 \<Rightarrow> bind_outcome (take_key32 fvek_container 12 ''FVEK'') (\<lambda>fvek. Ok (SectorCipher_new_xts128 fvek))
      | KXts256 \<Rightarrow> bind_outcome (take_key64 fvek_container 12 ''FVEK'') (\<lambda>fvek. Ok (SectorCipher_new_xts256 fvek)))"

definition derive_cipher ::
    "primitives \<Rightarrow> fve_metadata \<Rightarrow> sector_cipher_kind \<Rightarrow> u16 \<Rightarrow> string \<Rightarrow> vmk_unwrap
     \<Rightarrow> (bde_error, sector_cipher) outcome" where
  "derive_cipher C metadata kind protector_type protector_name unwrap =
     bind_outcome (ok_or (find (\<lambda>e. protection_type e = Some protector_type) (vmk_entries metadata))
                    (NoUnlockProtector protector_name (protector_types metadata))) (\<lambda>vmk.
     bind_outcome (nested vmk 28) (\<lambda>props.
     bind_outcome (ok_or (find_value VALUE_TYPE_AES_CCM props) (MissingKeyMaterial ''VMK AES-CCM key'')) (\<lambda>vmk_ccm.
     bind_outcome (vmk_unwrap_key C props unwrap) (\<lambda>unwrap_key.
     bind_outcome (ok_or (aes_ccm_unwrap C unwrap_key (entry_data vmk_ccm))
                    (AuthenticationFailed ''volume master key'')) (\<lambda>vmk_container.
     bind_outcome (take_key32 vmk_container 12 ''volume master key'') (\<lambda>vmk_key.
     bind_outcome (ok_or (fvek_entry metadata) (MissingKeyMaterial ''FVEK entry'')) (\<lambda>fe.
     bind_outcome (ok_or (aes_ccm_unwrap C vmk_key (entry_data fe)) (AuthenticationFailed ''FVEK'')) (\<lambda>fvek_container.
       cipher_from_container kind fvek_container))))))))"

section \<open>Unlocking\<close>

record 'r decrypted_volume =
  dv_reader :: 'r
  dv_cipher :: sector_cipher
  dv_metadata :: fve_metadata
  dv_total_size :: u64
  dv_position :: u64

definition unlock ::
    "primitives \<Rightarrow> 'r reader_ops \<Rightarrow> 'r \<Rightarrow> u16 \<Rightarrow> string \<Rightarrow> vmk_unwrap \<Rightarrow> (bde_error, 'r decrypted_volume, 'r) io" where
  "unlock C ops r protector_type protector_name unwrap =
     bind_io (read_metadata ops r) (\<lambda>metadata r1.
     let raw = encryption_method metadata in
     bind_io (pure_io (ok_or (EncryptionMethod_decode raw) (UnsupportedEncryptionMethod raw)) r1) (\<lambda>axes r2.
     bind_io (pure_io (ok_or (validated_kind axes) (UnvalidatedEncryptionMethod raw)) r2) (\<lambda>kind r3.
     bind_io (pure_io (derive_cipher C metadata kind protector_type protector_name unwrap) r3) (\<lambda>cipher r4.
     bind_io (bde_io (seek_op ops r4 (SeekEnd 0))) (\<lambda>total_size r5.
       pure_io (Ok \<lparr>dv_reader = r5, dv_cipher = cipher, dv_metadata = metadata,
                    dv_total_size = total_size, dv_position = 0\<rparr>) r5)))))"

definition unlock_with_password ::
    "primitives \<Rightarrow> 'r reader_ops \<Rightarrow> 'r \<Rightarrow> str \<Rightarrow> (bde_error, 'r decrypted_volume, 'r) io" where
  "unlock_with_password C ops r password =
     unlock C ops r PROTECTION_PASSWORD ''password'' (Stretch (password_hash C password))"

definition unlock_with_recovery_password ::
    "primitives \<Rightarrow> 'r reader_ops \<Rightarrow> 'r \<Rightarrow> str \<Rightarrow> (bde_error, 'r decrypted_volume, 'r) io" where
  "unlock_with_recovery_password C ops r recovery =
     bind_io (pure_io (map_err InvalidRecoveryPassword (recovery_key_hash C recovery)) r) (\<lambda>key_hash r1.
       unlock C ops r1 PROTECTION_RECOVERY ''recovery password'' (Stretch key_hash))"

definition unlock_clear_key ::
    "primitives \<Rightarrow> 'r reader_ops \<Rightarrow> 'r \<Rightarrow> (bde_error, 'r decrypted_volume, 'r) io" where
  "unlock_clear_key C ops r = unlock C ops r PROTECTION_CLEAR ''clear key'' ClearKey"

definition unlock_with_startup_key ::
    "primitives \<Rightarrow> 'r reader_ops \<Rightarrow> 'r \<Rightarrow> bytes \<Rightarrow> (bde_error, 'r decrypted_volume, 'r) io" where
  "unlock_with_startup_key C ops r startup_key =
     bind_io (pure_io (parse_startup_key startup_key) r) (\<lambda>external_key r1.
       unlock C ops r1 PROTECTION_STARTUP_KEY ''startup key'' (External external_key))"

section \<open>What they compute from the image\<close>

text \<open>The block a candidate offset points at, and the metadata of an image: the first candidate that parses.\<close>

definition block_at :: "bytes \<Rightarrow> u64 \<Rightarrow> bytes" where
  "block_at img off = take METADATA_READ_LEN (drop (unat off) img)"

definition candidate :: "bytes \<Rightarrow> u16 \<Rightarrow> u64 \<Rightarrow> fve_metadata option" where
  "candidate img bps off =
     (if off = 0 then None else case FveMetadata_parse (block_at img off) bps :: (bde_error, fve_metadata option) outcome of
        Ok (Some m) \<Rightarrow> Some m | _ \<Rightarrow> None)"

definition image_metadata :: "bytes \<Rightarrow> (bde_error, fve_metadata) outcome" where
  "image_metadata img =
     (if length img < SECTOR_SIZE then Err (Io EOF_ERROR)
      else bind_outcome (VolumeHeader_parse (take SECTOR_SIZE img)) (\<lambda>vh.
        case List.map_filter (candidate img (bytes_per_sector vh)) (fve_metadata_offsets vh) of
          [] \<Rightarrow> Err (NoValidMetadata (fve_metadata_offsets vh))
        | m # _ \<Rightarrow> Ok m))"

text \<open>The gate on the method: the validated kind, or the reason for refusal.\<close>

definition gate :: "u16 \<Rightarrow> (bde_error, sector_cipher_kind) outcome" where
  "gate raw =
     (case EncryptionMethod_decode raw of
        None \<Rightarrow> Err (UnsupportedEncryptionMethod raw)
      | Some m \<Rightarrow> (case validated_kind m of None \<Rightarrow> Err (UnvalidatedEncryptionMethod raw) | Some k \<Rightarrow> Ok k))"

definition image_unlock ::
    "primitives \<Rightarrow> bytes \<Rightarrow> u16 \<Rightarrow> string \<Rightarrow> vmk_unwrap \<Rightarrow> (bde_error, fve_metadata \<times> sector_cipher) outcome" where
  "image_unlock C img prot name unw =
     bind_outcome (image_metadata img) (\<lambda>m.
     bind_outcome (gate (encryption_method m)) (\<lambda>kind.
     bind_outcome (derive_cipher C m kind prot name unw) (\<lambda>cipher. Ok (m, cipher))))"

text \<open>Which protectors give which key material its length: the cipher an unlocked volume holds.\<close>

fun kind_of :: "sector_transform \<Rightarrow> sector_cipher_kind" where
  "kind_of (Cbc128 _ _ tweak) = (if tweak = None then KCbc128 else KCbc128Diffuser)"
| "kind_of (Cbc256 _ _) = KCbc256"
| "kind_of (Xts128 _ _) = KXts128"
| "kind_of (Xts256 _ _) = KXts256"

section \<open>Lemmas\<close>

lemma take_fit: "take (min n (length bs)) (fit n bs) = take n bs"
  by (simp add: fit_def min_def)

lemma parse_result:
  "FveMetadata_parse block bps = Ok (case FveMetadata_parse block bps :: (bde_error, fve_metadata option) outcome of
     Ok r \<Rightarrow> r | _ \<Rightarrow> None)"
  by (simp add: FveMetadata_parse_eq block_entries_eq Let_def)

lemma take_keys_no_panic [simp]:
  "take_key16 c off w \<noteq> Panic" "take_key32 c off w \<noteq> Panic" "take_key64 c off w \<noteq> Panic"
  by (simp_all add: take_key16_def take_key32_def take_key64_def)

lemma take_key_lengths:
  "take_key16 c off w = Ok k \<Longrightarrow> length k = 16" "take_key32 c off w = Ok k \<Longrightarrow> length k = 32"
  "take_key64 c off w = Ok k \<Longrightarrow> length k = 64"
  by (auto simp: take_key16_def take_key32_def take_key64_def dest: get_range_length)

lemma take_key32_Ok_iff: "take_key32 c off w = Ok k \<longleftrightarrow> off + 32 \<le> length c \<and> k = take 32 (drop off c)"
  by (auto simp: take_key32_def get_range_def)

lemma cipher_from_container_Ok:
  assumes "cipher_from_container kind c = Ok cipher"
  shows "wf_transform (transform cipher)" and "kind_of (transform cipher) = kind"
  using assms
  by (auto simp: cipher_from_container_def bind_outcome_Ok_iff SectorCipher_new_def SectorCipher_new_cbc_def
      SectorCipher_new_cbc256_def SectorCipher_new_xts128_def SectorCipher_new_xts256_def
      dest!: take_key_lengths split: sector_cipher_kind.splits)

lemma cipher_from_container_no_panic: "cipher_from_container kind c \<noteq> Panic"
  by (auto simp: cipher_from_container_def bind_outcome_Panic_iff split: sector_cipher_kind.splits)

lemma derive_cipher_no_panic: "derive_cipher C m kind prot name unw \<noteq> Panic"
  by (auto simp: derive_cipher_def vmk_unwrap_key_def bind_outcome_Panic_iff nested_eq cipher_from_container_no_panic
      split: vmk_unwrap.splits)

lemma parse_startup_key_no_panic: "parse_startup_key bek \<noteq> Panic"
  by (auto simp: parse_startup_key_def bind_outcome_Panic_iff nested_eq Let_def)

lemma gate_no_panic: "gate raw \<noteq> Panic"
  by (auto simp: gate_def split: option.splits)

lemma gate_Ok: "gate raw = Ok kind \<Longrightarrow> raw \<in> {0x8000, 0x8002, 0x8003, 0x8004, 0x8005}"
  by (auto simp: gate_def dest: decode_validated split: option.splits)

lemma header_no_panic: "VolumeHeader_parse sector \<noteq> Panic"
  by (auto simp: VolumeHeader_parse_def Let_def)

lemma image_metadata_no_panic: "image_metadata img \<noteq> Panic"
  by (auto simp: image_metadata_def bind_outcome_Panic_iff header_no_panic split: list.splits)

lemma image_unlock_no_panic: "image_unlock C img prot name unw \<noteq> Panic"
  by (auto simp: image_unlock_def bind_outcome_Panic_iff image_metadata_no_panic gate_no_panic derive_cipher_no_panic)

lemma derive_cipher_Ok:
  assumes "derive_cipher C m kind prot name unw = Ok cipher"
  shows "wf_transform (transform cipher)" and "kind_of (transform cipher) = kind"
  using assms cipher_from_container_Ok by (auto simp: derive_cipher_def bind_outcome_Ok_iff)

text \<open>The two checks of \<open>unlock\<close> are the gate.\<close>

lemma gate_steps:
  "bind_io (pure_io (ok_or (EncryptionMethod_decode raw) (UnsupportedEncryptionMethod raw)) r) (\<lambda>axes r2.
     bind_io (pure_io (ok_or (validated_kind axes) (UnvalidatedEncryptionMethod raw)) r2) f)
   = bind_io (pure_io (gate raw) r) f"
  by (simp add: gate_def pure_io_def split: option.splits)

lemma unlock_eq:
  "unlock C ops r prot name unw =
     bind_io (read_metadata ops r) (\<lambda>m r1.
     bind_io (pure_io (gate (encryption_method m)) r1) (\<lambda>kind r3.
     bind_io (pure_io (derive_cipher C m kind prot name unw) r3) (\<lambda>cipher r4.
     bind_io (bde_io (seek_op ops r4 (SeekEnd 0))) (\<lambda>total_size r5.
       pure_io (Ok \<lparr>dv_reader = r5, dv_cipher = cipher, dv_metadata = m,
                    dv_total_size = total_size, dv_position = 0\<rparr>) r5))))"
  unfolding unlock_def Let_def gate_steps ..

section \<open>On a reader over an image\<close>

context image_reader
begin

lemma try_offsets_image:
  assumes "inv r"
  shows "\<exists>r'. try_offsets ops r bps offsets os
      = Some (case List.map_filter (candidate (img r) bps) os of
                [] \<Rightarrow> Err (NoValidMetadata offsets) | m # _ \<Rightarrow> Ok m, r') \<and> inv r' \<and> img r' = img r"
  using assms
proof (induction os arbitrary: r)
  case Nil
  then show ?case
    by (simp add: pure_io_def map_filter_simps)
next
  case (Cons off os)
  show ?case
  proof (cases "off = 0")
    case True
    then show ?thesis
      using Cons by (simp add: map_filter_simps candidate_def)
  next
    case False
    let ?b = "block_at (img r) off"
    obtain r1 r2 where r: "seek_op ops r (SeekStart off) = Some (Ok off, r1)"
      "read_available ops r1 METADATA_READ_LEN
        = Some (Ok (fit METADATA_READ_LEN (drop (unat off) (img r)), min METADATA_READ_LEN (length (img r) - unat off)), r2)"
      "inv r2" "img r2 = img r"
      using seek_read_image [OF Cons.prems] by blast
    have blk: "take (min METADATA_READ_LEN (length (img r) - unat off)) (fit METADATA_READ_LEN (drop (unat off) (img r))) = ?b"
      using take_fit [of METADATA_READ_LEN "drop (unat off) (img r)"] by (simp add: block_at_def)
    obtain x where x: "FveMetadata_parse ?b bps = (Ok x :: (bde_error, fve_metadata option) outcome)"
      using FveMetadata_parse_total by blast
    then have "candidate (img r) bps off = x"
      using False by (simp add: candidate_def split: option.split)
    with r x blk False Cons.IH [OF r(3)] show ?thesis
      by (cases x) (simp_all add: pure_io_def map_filter_simps)
  qed
qed

lemma read_metadata_image:
  assumes "inv r"
  shows "\<exists>r'. read_metadata ops r = Some (image_metadata (img r), r') \<and> inv r' \<and> img r' = img r"
proof -
  obtain r1 where r1: "seek_op ops r (SeekStart 0) = Some (Ok 0, r1)" "inv r1" "img r1 = img r" "pos r1 = 0"
    using seek_start [OF assms, of 0] by auto
  obtain r2 where r2: "read_fill ops r1 SECTOR_SIZE
      = Some (if SECTOR_SIZE \<le> length (img r) then Ok (take SECTOR_SIZE (img r)) else Err (Io EOF_ERROR), r2)"
    "inv r2" "img r2 = img r"
    using read_fill_image [OF r1(2), of SECTOR_SIZE] r1(3,4) by auto
  show ?thesis
  proof (cases "VolumeHeader_parse (take SECTOR_SIZE (img r))")
    case (Ok vh)
    then show ?thesis
      using r1 r2 try_offsets_image [OF r2(2), of "bytes_per_sector vh" "fve_metadata_offsets vh" "fve_metadata_offsets vh"]
      by (auto simp: read_metadata_def image_metadata_def pure_io_def)
  qed (use r1 r2 header_no_panic in \<open>auto simp: read_metadata_def image_metadata_def pure_io_def\<close>)
qed

lemma unlock_image:
  assumes "inv r"
  shows "\<exists>r'. unlock C ops r prot name unw
      = Some (bind_outcome (image_unlock C (img r) prot name unw) (\<lambda>(m, cipher).
                Ok \<lparr>dv_reader = r', dv_cipher = cipher, dv_metadata = m,
                    dv_total_size = word_of_nat (length (img r)), dv_position = 0\<rparr>), r')
        \<and> inv r' \<and> img r' = img r"
proof -
  obtain r1 where r1: "read_metadata ops r = Some (image_metadata (img r), r1)" "inv r1" "img r1 = img r"
    using read_metadata_image [OF assms] by blast
  obtain r2 where r2: "seek_op ops r1 (SeekEnd 0) = Some (Ok (word_of_nat (length (img r))), r2)" "inv r2" "img r2 = img r"
    using seek_end [OF r1(2)] r1(3) by auto
  show ?thesis
    using r1 r2
    by (auto simp: unlock_eq image_unlock_def pure_io_def image_metadata_no_panic gate_no_panic derive_cipher_no_panic
        bind_io_def split: outcome.split)
qed

lemma unlock_Ok:
  assumes "inv r" and "unlock C ops r prot name unw = Some (Ok dv, r')"
  shows "\<exists>m c. image_unlock C (img r) prot name unw = Ok (m, c) \<and> inv (dv_reader dv) \<and> img (dv_reader dv) = img r
    \<and> dv_metadata dv = m \<and> dv_cipher dv = c \<and> dv_total_size dv = word_of_nat (length (img r)) \<and> dv_position dv = 0"
proof -
  obtain r1 where r1: "unlock C ops r prot name unw
      = Some (bind_outcome (image_unlock C (img r) prot name unw) (\<lambda>(m, cipher).
                Ok \<lparr>dv_reader = r1, dv_cipher = cipher, dv_metadata = m,
                    dv_total_size = word_of_nat (length (img r)), dv_position = 0\<rparr>), r1)" "inv r1" "img r1 = img r"
    using unlock_image [OF assms(1), of C prot name unw] by blast
  then have "bind_outcome (image_unlock C (img r) prot name unw) (\<lambda>(m, cipher).
                Ok \<lparr>dv_reader = r1, dv_cipher = cipher, dv_metadata = m,
                    dv_total_size = word_of_nat (length (img r)), dv_position = 0\<rparr>) = Ok dv"
    using assms(2) by simp
  then show ?thesis
    using r1(2,3) unfolding bind_outcome_Ok_iff by auto
qed

end

section \<open>Protectors and startup keys\<close>

lemma set_protector_types: "p \<in> set (protector_types m) \<longleftrightarrow> (\<exists>e \<in> set (vmk_entries m). protection_type e = Some p)"
  by (auto simp: protector_types_def map_filter_def image_iff)

lemma find_protector_None:
  "find (\<lambda>e. protection_type e = Some p) (vmk_entries m) = None \<longleftrightarrow> p \<notin> set (protector_types m)"
  by (auto simp: find_None_iff set_protector_types)

lemma cipher_from_container_not_protector: "cipher_from_container kind c \<noteq> Err (NoUnlockProtector n ts)"
  by (auto simp: cipher_from_container_def bind_outcome_Err_iff take_key16_def take_key32_def take_key64_def
      split: sector_cipher_kind.splits)

lemma no_protector_iff:
  "derive_cipher C m kind prot name unw = Err (NoUnlockProtector n ts)
   \<longleftrightarrow> prot \<notin> set (protector_types m) \<and> n = name \<and> ts = protector_types m"
  by (cases unw) (auto simp: derive_cipher_def bind_outcome_Err_iff find_protector_None [symmetric] nested_eq
      vmk_unwrap_key_def take_key32_def cipher_from_container_not_protector)

lemma find_value_skip:
  "list_all (\<lambda>e. value_type e \<noteq> vt) pre \<Longrightarrow> value_type e = vt \<Longrightarrow> find_value vt (pre @ e # post) = Some e"
  by (induction pre) (auto simp: find_value_def)

lemma parse_encode_entries:
  "list_all wf_entry es \<Longrightarrow> length (encode_entries es) < 2 ^ 63 \<Longrightarrow> parse_sequence (encode_entries es) = es"
  using parse_entries_encode [of es "[]"] by (simp add: parse_sequence_eq no_entry_def)

section \<open>The key hierarchy\<close>

text \<open>
  The key hierarchy as it lies on the disk, said without the code: the data of the first entry of a value
  type; the key a credential gives for the wrapped master key; the keys in an opened FVEK container.
\<close>

inductive first_value :: "u16 \<Rightarrow> metadata_entry list \<Rightarrow> bytes \<Rightarrow> bool" where
  "list_all (\<lambda>e. value_type e \<noteq> vt) pre \<Longrightarrow> value_type e = vt \<Longrightarrow> first_value vt (pre @ e # post) (entry_data e)"

inductive credential_key :: "primitives \<Rightarrow> metadata_entry list \<Rightarrow> vmk_unwrap \<Rightarrow> bytes \<Rightarrow> bool" for C ps where
  stretched: "first_value VALUE_TYPE_STRETCH ps (t @ salt @ rest) \<Longrightarrow> length t = 4 \<Longrightarrow> length salt = 16
    \<Longrightarrow> credential_key C ps (Stretch h) (stretch_key C h salt)"
| clear: "first_value VALUE_TYPE_KEY ps (t @ k @ rest) \<Longrightarrow> length t = 4 \<Longrightarrow> length k = 32 \<Longrightarrow> credential_key C ps ClearKey k"
| external: "credential_key C ps (External k) k"

inductive container_keys :: "sector_cipher_kind \<Rightarrow> bytes \<Rightarrow> sector_cipher \<Rightarrow> bool" where
  "length h = 12 \<Longrightarrow> length k = 16 \<Longrightarrow> length g = 16 \<Longrightarrow> length t = 16
    \<Longrightarrow> container_keys KCbc128Diffuser (h @ k @ g @ t @ r) \<lparr>transform = Cbc128 k k (Some t)\<rparr>"
| "length h = 12 \<Longrightarrow> length k = 16 \<Longrightarrow> container_keys KCbc128 (h @ k @ r) \<lparr>transform = Cbc128 k k None\<rparr>"
| "length h = 12 \<Longrightarrow> length k = 32 \<Longrightarrow> container_keys KCbc256 (h @ k @ r) \<lparr>transform = Cbc256 k k\<rparr>"
| "length h = 12 \<Longrightarrow> length k = 16 \<Longrightarrow> length t = 16 \<Longrightarrow> container_keys KXts128 (h @ k @ t @ r) \<lparr>transform = Xts128 k t\<rparr>"
| "length h = 12 \<Longrightarrow> length k = 32 \<Longrightarrow> length t = 32 \<Longrightarrow> container_keys KXts256 (h @ k @ t @ r) \<lparr>transform = Xts256 k t\<rparr>"

lemma first_value_find:
  assumes "first_value vt ps d"
  shows "\<exists>e. find_value vt ps = Some e \<and> entry_data e = d"
  using assms by cases (auto simp: find_value_skip)

lemma credential_key_unwrap: "credential_key C ps unw k \<Longrightarrow> vmk_unwrap_key C ps unw = Ok k"
proof (induction rule: credential_key.induct)
  case (stretched t salt rest h)
  obtain e where "find_value VALUE_TYPE_STRETCH ps = Some e" "entry_data e = t @ salt @ rest"
    using first_value_find [OF stretched(1)] by blast
  then show ?case
    using stretched(2,3) by (simp add: vmk_unwrap_key_def get_range_def del: VALUE_TYPE_STRETCH_def)
next
  case (clear t k rest)
  obtain e where "find_value VALUE_TYPE_KEY ps = Some e" "entry_data e = t @ k @ rest"
    using first_value_find [OF clear(1)] by blast
  then show ?case
    using clear(2,3) by (simp add: vmk_unwrap_key_def take_key32_def get_range_def del: VALUE_TYPE_KEY_def)
qed (simp add: vmk_unwrap_key_def)

lemma container_keys_cipher: "container_keys kind fcont cipher \<Longrightarrow> cipher_from_container kind fcont = Ok cipher"
  by (induction rule: container_keys.induct)
    (simp_all add: cipher_from_container_def take_key16_def take_key32_def take_key64_def get_range_def SectorCipher_new_def
      SectorCipher_new_cbc_def SectorCipher_new_cbc256_def SectorCipher_new_xts128_def SectorCipher_new_xts256_def)

text \<open>The protector that is used: the first VMK entry of its type, with its properties after a 28-byte head.\<close>

lemma find_skip: "\<forall>x \<in> set pre. \<not> P x \<Longrightarrow> P e \<Longrightarrow> find P (pre @ e # post) = Some e"
  by (induction pre) auto

lemma find_first_protector:
  assumes "entries m = pre @ vmk # post" and "\<forall>e \<in> set pre. protection_type e \<noteq> Some prot" and "is_vmk vmk"
    and "entry_data vmk = head @ encode_entries ps" and "length head = 28" and "take 2 (drop 26 head) = to_le prot"
    and "length (encode_entries ps) < 2 ^ 62"
  shows "find (\<lambda>e. protection_type e = Some prot) (vmk_entries m) = Some vmk"
proof -
  have "le_u16 (entry_data vmk) 26 = prot"
    using assms(4-7) by (simp add: le16.rd_eq from_le_to_le)
  then have "protection_type vmk = Some prot"
    using assms(3) by (simp add: protection_type_def)
  then show ?thesis
    using assms(1-3) find_skip [of "filter is_vmk pre" "\<lambda>e. protection_type e = Some prot" vmk] by (simp add: vmk_entries_def)
qed

text \<open>Metadata with two protectors, the second one for a startup key, to run the definitions on.\<close>

definition demo_keys :: "bytes \<Rightarrow> fve_metadata" where
  "demo_keys k =
     \<lparr>encryption_method = 0x8002, volume_guid = replicate 16 0, creation_time = 0,
      entries = [
        \<lparr>entry_type = ENTRY_TYPE_VMK, value_type = VALUE_TYPE_VMK, version = 1, entry_data = replicate 28 0\<rparr>,
        \<lparr>entry_type = ENTRY_TYPE_VMK, value_type = VALUE_TYPE_VMK, version = 1,
         entry_data = (replicate 26 0 @ to_le PROTECTION_STARTUP_KEY) @ encode_entries
           [\<lparr>entry_type = 0, value_type = VALUE_TYPE_AES_CCM, version = 1,
             entry_data = aes_ccm_wrap demo k (replicate 12 1) (replicate 12 0 @ replicate 32 4 @ [])\<rparr>]\<rparr>,
        \<lparr>entry_type = ENTRY_TYPE_FVEK, value_type = VALUE_TYPE_AES_CCM, version = 1,
         entry_data = aes_ccm_wrap demo (replicate 32 4) (replicate 12 2) (replicate 12 0 @ replicate 16 9 @ [])\<rparr>],
      encrypted_volume_size = 0, volume_header_offset = 0, volume_header_size = 0, metadata_offsets = [0, 0, 0], metadata_size = 0\<rparr>"

section \<open>Properties\<close>

text \<open>
  Property C5.  Through any reader that serves an image (short reads, interrupts and all) reading the
  metadata returns what the image determines: the first candidate offset, zero excluded, whose 64 KiB
  parse as a metadata block.  Unlocking always returns and never panics; its outcome is the one the
  image, the protector type and the unwrap key determine, and on success the volume holds the parsed
  metadata, the derived cipher, the image size and position zero.
\<close>

theorem unlock_from_image:
  assumes "image_reader ops ok img pos patience" and "ok r"
  shows "(\<exists>r'. read_metadata ops r = Some (image_metadata (img r), r') \<and> ok r' \<and> img r' = img r)
    \<and> (\<exists>r'. unlock C ops r prot name unw
      = Some (bind_outcome (image_unlock C (img r) prot name unw) (\<lambda>(m, cipher).
                Ok \<lparr>dv_reader = r', dv_cipher = cipher, dv_metadata = m,
                    dv_total_size = word_of_nat (length (img r)), dv_position = 0\<rparr>), r')
        \<and> ok r' \<and> img r' = img r)
    \<and> image_unlock C (img r) prot name unw \<noteq> Panic"
  using image_reader.read_metadata_image [OF assms] image_reader.unlock_image [OF assms] image_unlock_no_panic by blast

theorem unlock_from_image_witness:
  "\<exists>r'. unlock_clear_key demo cursor_ops (cursor_of []) = Some (Err (Io EOF_ERROR), r')"
  using unlock_from_image [OF cur.image_reader_axioms, of "cursor_of []" demo PROTECTION_CLEAR "''clear key''" ClearKey]
  by (auto simp: unlock_clear_key_def cursor_of_def cursor_inv_def image_unlock_def image_metadata_def)

text \<open>
  Property C17.  A volume is unlocked only with a validated cipher: its method is one of the five
  validated ones, its key material has that cipher's length, and so the read path's branch for an
  unencrypted volume (method 0) is never taken on it.
\<close>

theorem unlocked_volume_wf:
  assumes "image_reader ops ok img pos patience" and "ok r" and "unlock C ops r prot name unw = Some (Ok dv, r')"
  shows "encryption_method (dv_metadata dv) \<in> {0x8000, 0x8002, 0x8003, 0x8004, 0x8005}
    \<and> gate (encryption_method (dv_metadata dv)) = Ok (kind_of (transform (dv_cipher dv)))
    \<and> wf_transform (transform (dv_cipher dv))
    \<and> encryption_method (dv_metadata dv) \<noteq> METHOD_NONE
    \<and> img (dv_reader dv) = img r \<and> dv_total_size dv = word_of_nat (length (img r)) \<and> dv_position dv = 0"
proof -
  obtain m c where d: "image_unlock C (img r) prot name unw = Ok (m, c)"
    and dv: "img (dv_reader dv) = img r" "dv_metadata dv = m" "dv_cipher dv = c"
      "dv_total_size dv = word_of_nat (length (img r))" "dv_position dv = 0"
    using image_reader.unlock_Ok [OF assms] by blast
  then obtain kind where "gate (encryption_method m) = Ok kind" "derive_cipher C m kind prot name unw = Ok c"
    by (auto simp: image_unlock_def bind_outcome_Ok_iff)
  then show ?thesis
    using dv gate_Ok [of "encryption_method m" kind] derive_cipher_Ok [of C m kind prot name unw c] by auto
qed

text \<open>
  Property C9.  The key hierarchy opens.  Let the first VMK entry of the requested protector type hold,
  among any other properties, as its first AES-CCM property the master key sealed under the credential's
  key, and let the first FVEK entry hold a container sealed under the master key.  Then the credential
  gives the sector cipher with exactly the keys of the container, for each of the five kinds; a
  credential whose key does not open the sealed master key gives the authentication error for it; and a
  protector type that no VMK entry has is reported as missing, with the types there are.
\<close>

theorem key_hierarchy_opens:
  assumes "ccm_ok C" and "entries m = pre @ vmk # post" and "\<forall>e \<in> set pre. protection_type e \<noteq> Some prot"
    and "entry_type vmk = ENTRY_TYPE_VMK" and "value_type vmk = VALUE_TYPE_VMK"
    and "entry_data vmk = head @ encode_entries ps" and "length head = 28" and "take 2 (drop 26 head) = to_le prot"
    and "list_all wf_entry ps" and "length (encode_entries ps) < 2 ^ 62"
    and "first_value VALUE_TYPE_AES_CCM ps (aes_ccm_wrap C ukey nv (hv @ key @ tail))"
    and "length ukey = 32" and "length nv = 12" and "length hv = 12" and "length key = 32" and "length nf = 12"
    and "entries m = fpre @ fvek # fpost" and "\<forall>e \<in> set fpre. entry_type e \<noteq> ENTRY_TYPE_FVEK"
    and "entry_type fvek = ENTRY_TYPE_FVEK" and "value_type fvek = VALUE_TYPE_AES_CCM"
    and "entry_data fvek = aes_ccm_wrap C key nf fcont" and "container_keys kind fcont cipher"
  shows "(credential_key C ps unw ukey \<longrightarrow> derive_cipher C m kind prot name unw = Ok cipher)
    \<and> (credential_key C ps unw k' \<and> aes_ccm_unwrap C k' (aes_ccm_wrap C ukey nv (hv @ key @ tail)) = None
        \<longrightarrow> derive_cipher C m kind prot name unw = Err (AuthenticationFailed ''volume master key''))
    \<and> (derive_cipher C m kind prot' name unw = Err (NoUnlockProtector n ts)
        \<longleftrightarrow> prot' \<notin> set (protector_types m) \<and> n = name \<and> ts = protector_types m)"
proof -
  have find_vmk: "find (\<lambda>e. protection_type e = Some prot) (vmk_entries m) = Some vmk"
    using assms(4,5) by (intro find_first_protector [OF assms(2,3) _ assms(6-8,10)]) (simp add: is_vmk_def)
  have props: "nested vmk 28 = (Ok ps :: (bde_error, metadata_entry list) outcome)"
    using assms(6,7,10) parse_encode_entries [OF assms(9)] by (simp add: nested_eq)
  obtain e where e: "find_value VALUE_TYPE_AES_CCM ps = Some e" "entry_data e = aes_ccm_wrap C ukey nv (hv @ key @ tail)"
    using first_value_find [OF assms(11)] by blast
  have fe: "fvek_entry m = Some fvek"
    using assms(17-20) unfolding fvek_entry_def by (auto intro: find_skip)
  have "take_key32 (hv @ key @ tail) 12 w = Ok key" for w
    using assms(14,15) by (simp add: take_key32_Ok_iff)
  note step = find_vmk props e fe this ccm_unwrap_wrap(1) [OF assms(1)] assms(12,13,15,16,21) container_keys_cipher [OF assms(22)]
  show ?thesis
    using credential_key_unwrap [of C ps unw]
    by (intro conjI impI no_protector_iff) (auto simp: derive_cipher_def step simp del: type_code_defs)
qed

text \<open>A startup-key volume with another protector before the one used, and an AES-128-CBC container.\<close>

theorem key_hierarchy_opens_witness:
  "derive_cipher demo (demo_keys (replicate 32 7)) KCbc128 PROTECTION_STARTUP_KEY ''startup key'' (External (replicate 32 7))
   = Ok \<lparr>transform = Cbc128 (replicate 16 9) (replicate 16 9) None\<rparr>"
proof -
  let ?k = "replicate 32 7 :: bytes" and ?m = "demo_keys (replicate 32 7)"
  let ?ps = "[\<lparr>entry_type = 0, value_type = VALUE_TYPE_AES_CCM, version = 1,
      entry_data = aes_ccm_wrap demo ?k (replicate 12 1) (replicate 12 0 @ replicate 32 4 @ [])\<rparr>]"
  let ?fcont = "replicate 12 0 @ replicate 16 9 @ [] :: bytes"
  let ?fvek = "\<lparr>entry_type = ENTRY_TYPE_FVEK, value_type = VALUE_TYPE_AES_CCM, version = 1,
      entry_data = aes_ccm_wrap demo (replicate 32 4) (replicate 12 2) ?fcont\<rparr>"
  let ?vmk = "\<lparr>entry_type = ENTRY_TYPE_VMK, value_type = VALUE_TYPE_VMK, version = 1,
      entry_data = (replicate 26 0 @ to_le PROTECTION_STARTUP_KEY) @ encode_entries ?ps\<rparr>"
  have w: "length (aes_ccm_wrap demo k n p) = 28 + length p" if "length k = 32" "length n = 12" for k n p
    using ccm_unwrap_wrap(2) [OF primitives_okD(2) [OF demo_ok] that] .
  have ccm: "first_value VALUE_TYPE_AES_CCM ?ps (aes_ccm_wrap demo ?k (replicate 12 1) (replicate 12 0 @ replicate 32 4 @ []))"
    using first_value.intros [of VALUE_TYPE_AES_CCM "[]" "hd ?ps" "[]"] by simp
  have keys: "container_keys KCbc128 ?fcont \<lparr>transform = Cbc128 (replicate 16 9) (replicate 16 9) None\<rparr>"
    by (rule container_keys.intros) simp_all
  have ps: "list_all wf_entry ?ps" "length (encode_entries ?ps) < 2 ^ 62"
    by (simp_all add: wf_entry_def encode_entries_def w)
  have "protection_type (hd (entries ?m)) \<noteq> Some PROTECTION_STARTUP_KEY"
    by (simp add: demo_keys_def protection_type_def is_vmk_def le16.rd_eq from_le_def)
  moreover have "ENTRY_TYPE_VMK \<noteq> ENTRY_TYPE_FVEK"
    by simp
  ultimately show ?thesis
    using key_hierarchy_opens [where C = demo and m = ?m and pre = "[hd (entries ?m)]" and vmk = ?vmk and post = "[?fvek]"
        and fpre = "take 2 (entries ?m)" and fvek = ?fvek and fpost = "[]" and ps = ?ps and head = "replicate 26 0 @ to_le PROTECTION_STARTUP_KEY"
        and ukey = ?k and prot = PROTECTION_STARTUP_KEY and name = "''startup key''" and unw = "External ?k" and kind = KCbc128
        and nf = "replicate 12 2" and k' = ?k and prot' = PROTECTION_CLEAR and n = "''''" and ts = "[]",
        OF primitives_okD(2) [OF demo_ok] _ _ _ _ _ _ _ ps ccm _ _ _ _ _ _ _ _ _ _ keys]
      credential_key.external [of demo ?ps ?k]
    by (simp add: demo_keys_def del: type_code_defs)
qed

text \<open>
  Property C31.  A startup-key file gives its key: after any 48-byte header, the first external-key entry
  among well-formed entries is used, and in it the first KEY property, whose 32 bytes after the 4-byte
  type are the key.  No file, however malformed, makes the parser panic.
\<close>

theorem startup_key_roundtrip:
  assumes "length hdr = 48" and "list_all wf_entry (pre @ ext # post)" and "list_all wf_entry (kpre @ key # kpost)"
    and "length (encode_entries (pre @ ext # post)) < 2 ^ 63"
    and "list_all (\<lambda>e. value_type e \<noteq> VALUE_TYPE_EXTERNAL_KEY) pre" and "value_type ext = VALUE_TYPE_EXTERNAL_KEY"
    and "list_all (\<lambda>e. value_type e \<noteq> VALUE_TYPE_KEY) kpre" and "value_type key = VALUE_TYPE_KEY"
    and "entry_data ext = info @ encode_entries (kpre @ key # kpost)" and "length info = 24"
    and "entry_data key = kt @ k @ extra" and "length kt = 4" and "length k = 32"
  shows "parse_startup_key (hdr @ encode_entries (pre @ ext # post)) = Ok k \<and> parse_startup_key bek \<noteq> Panic"
proof -
  have "length (encode_entries (kpre @ key # kpost)) < 2 ^ 63"
    using assms(2,9) by (simp add: wf_entry_def)
  then have "parse_sequence (drop 24 (entry_data ext)) = kpre @ key # kpost"
    using parse_encode_entries [OF assms(3)] assms(9,10) by simp
  moreover have "parse_sequence (encode_entries (pre @ ext # post)) = pre @ ext # post"
    by (rule parse_encode_entries [OF assms(2,4)])
  moreover have "take_key32 (entry_data key) 4 ''external key'' = Ok k"
    using assms(11-13) by (simp add: take_key32_def get_range_def)
  ultimately show ?thesis
    using assms(1) find_value_skip [OF assms(5,6)] find_value_skip [OF assms(7,8)] parse_startup_key_no_panic
    by (simp add: parse_startup_key_def get_from_def nested_eq)
qed

theorem startup_key_roundtrip_witness:
  "parse_startup_key (replicate 48 0 @ encode_entries
     [\<lparr>entry_type = 0, value_type = 9, version = 1, entry_data = replicate 24 0 @ encode_entries
        [\<lparr>entry_type = 0, value_type = 1, version = 1, entry_data = replicate 4 0 @ replicate 32 0x9a\<rparr>]\<rparr>])
   = Ok (replicate 32 0x9a)"
  using startup_key_roundtrip [of "replicate 48 0" "[]" "\<lparr>entry_type = 0, value_type = 9, version = 1,
        entry_data = replicate 24 0 @ encode_entries [\<lparr>entry_type = 0, value_type = 1, version = 1, entry_data = replicate 4 0 @ replicate 32 0x9a\<rparr>]\<rparr>"
      "[]" "[]" "\<lparr>entry_type = 0, value_type = 1, version = 1, entry_data = replicate 4 0 @ replicate 32 0x9a\<rparr>" "[]"
      "replicate 24 0" "replicate 4 0" "replicate 32 0x9a" "[]" "[]"]
  by (simp add: wf_entry_def encode_entries_def)

end
