(* ===== verification/ReadPath.thy ===== *)
theory ReadPath
  imports Volume
begin

text \<open>
  \<^verbatim>\<open>core/src/volume.rs\<close>, second half: the plaintext view of an unlocked volume.  Plain \<^verbatim>\<open>+\<close> on
  \<^verbatim>\<open>u64\<close> goes through \<open>add_u64\<close>, whose flag \<open>oc\<close> says whether the build has overflow checks.
  \<open>view_sector\<close> and \<open>view_byte\<close> define the plaintext of every logical byte from the image alone; the
  read path is proved to serve exactly these bytes, and the decrypted volume to be an \<open>image_reader\<close>
  over them.
\<close>

section \<open>Reading sectors\<close>

text \<open>Run a call of the underlying reader inside the volume.\<close>

definition on_reader :: "'r decrypted_volume \<Rightarrow> ('e, 'a, 'r) io \<Rightarrow> ('e, 'a, 'r decrypted_volume) io" where
  "on_reader dv m = map_option (\<lambda>(x, r). (x, dv\<lparr>dv_reader := r\<rparr>)) m"

text \<open>The loop over the metadata offsets: is the sector inside a metadata block?\<close>

fun in_metadata_region :: "bool \<Rightarrow> u64 list \<Rightarrow> u64 \<Rightarrow> u64 \<Rightarrow> ('e, bool) outcome" where
  "in_metadata_region oc [] meta_size s = Ok False"
| "in_metadata_region oc (m # ms) meta_size s =
     (if m \<noteq> 0 \<and> m \<le> s then
        bind_outcome (add_u64 oc m meta_size) (\<lambda>stop.
          if s < stop then Ok True else in_metadata_region oc ms meta_size s)
      else in_metadata_region oc ms meta_size s)"

definition decrypt_logical_sector ::
    "primitives \<Rightarrow> bool \<Rightarrow> 'r reader_ops \<Rightarrow> 'r decrypted_volume \<Rightarrow> u64 \<Rightarrow> (bde_error, bytes, 'r decrypted_volume) io" where
  "decrypt_logical_sector C oc ops dv sector_start =
     (let md = dv_metadata dv; meta_size = (ucast (metadata_size md) :: u64)
      in bind_io (pure_io (in_metadata_region oc (metadata_offsets md) meta_size sector_start) dv) (\<lambda>blank dv0.
         if blank then pure_io (Ok (replicate SECTOR_SIZE 0)) dv0
         else
           bind_io (pure_io (if sector_start < volume_header_size md
                             then add_u64 oc (volume_header_offset md) sector_start
                             else Ok sector_start) dv0) (\<lambda>physical dv1.
           bind_io (on_reader dv1 (bde_io (seek_op ops (dv_reader dv1) (SeekStart physical)))) (\<lambda>_ dv2.
           bind_io (on_reader dv2 (read_available ops (dv_reader dv2) SECTOR_SIZE)) (\<lambda>(ct, _) dv3.
             let evs = encrypted_volume_size md
             in if encryption_method md = METHOD_NONE \<or> (evs \<noteq> 0 \<and> evs \<le> physical)
                then pure_io (Ok ct) dv3
                else
                  (let plain = decrypt_sector C (dv_cipher dv3) ct physical;
                       n = min (length plain) SECTOR_SIZE
                   in pure_io (Ok (copy_into (replicate SECTOR_SIZE 0) 0 (take n plain))) dv3))))))"

lemma within_sector: "unat (p - (p - p mod 512)) < 512" for p :: u64
proof -
  have "p - (p - p mod 512) = p mod 512"
    by simp
  then show ?thesis
    by (simp add: unat_mod)
qed

text \<open>
  The loop of \<^verbatim>\<open>read_at\<close> on a buffer of \<open>len\<close> bytes: \<open>don\<close> is the counter and \<open>out\<close> the part of the
  buffer before it, which the loop fills from the front.
\<close>

function read_at_loop ::
    "primitives \<Rightarrow> bool \<Rightarrow> 'r reader_ops \<Rightarrow> 'r decrypted_volume \<Rightarrow> u64 \<Rightarrow> nat \<Rightarrow> nat \<Rightarrow> bytes
     \<Rightarrow> (bde_error, bytes, 'r decrypted_volume) io" where
  "read_at_loop C oc ops dv offset len don out =
     (if don < len then
        bind_io (pure_io (add_u64 oc offset (word_of_nat don)) dv) (\<lambda>p dv0.
        let sector_start = p - p mod 512;
            within = unat (p - sector_start)
        in bind_io (decrypt_logical_sector C oc ops dv0 sector_start) (\<lambda>plain dv1.
           let tk = min (SECTOR_SIZE - within) (len - don)
           in read_at_loop C oc ops dv1 offset len (don + tk) (out @ take tk (drop within plain))))
      else pure_io (Ok out) dv)"
  by pat_completeness auto
termination
proof (relation "measure (\<lambda>(C, oc, ops, dv, offset, len, don, out). len - don)", goal_cases)
  case (2 C oc ops dv offset len don out p dv0 s w plain dv1 tk)
  then show ?case
    using within_sector [of p] by simp
qed simp

declare read_at_loop.simps [simp del]

definition read_at ::
    "primitives \<Rightarrow> bool \<Rightarrow> 'r reader_ops \<Rightarrow> 'r decrypted_volume \<Rightarrow> u64 \<Rightarrow> nat
     \<Rightarrow> (bde_error, bytes, 'r decrypted_volume) io" where
  "read_at C oc ops dv offset len = read_at_loop C oc ops dv offset len 0 []"

section \<open>Read and Seek\<close>

text \<open>\<^verbatim>\<open>std::io::Error::other(e.to_string())\<close>.\<close>

definition io_other :: "bde_error \<Rightarrow> io_error" where
  "io_other e = \<lparr>io_kind_of = OtherError, io_text = bde_error_display e\<rparr>"

definition dv_read ::
    "primitives \<Rightarrow> bool \<Rightarrow> 'r reader_ops \<Rightarrow> 'r decrypted_volume \<Rightarrow> nat \<Rightarrow> (io_error, bytes, 'r decrypted_volume) io" where
  "dv_read C oc ops dv len =
     (if dv_total_size dv \<le> dv_position dv then pure_io (Ok []) dv
      else
        (let remaining = dv_total_size dv - dv_position dv;
             n = min len (unat remaining)
         in bind_io (map_io_err io_other (read_at C oc ops dv (dv_position dv) n)) (\<lambda>buf dv1.
            bind_io (pure_io (add_u64 oc (dv_position dv1) (word_of_nat n)) dv1) (\<lambda>p dv2.
              pure_io (Ok buf) (dv2\<lparr>dv_position := p\<rparr>)))))"

definition dv_seek ::
    "'r decrypted_volume \<Rightarrow> seek_from \<Rightarrow> (io_error, u64, 'r decrypted_volume) io" where
  "dv_seek dv p =
     (let new = (case p of
            SeekStart off \<Rightarrow> uint off
          | SeekEnd off \<Rightarrow> uint (dv_total_size dv) + sint off
          | SeekCurrent off \<Rightarrow> uint (dv_position dv) + sint off)
      in if new < 0
         then pure_io (Err \<lparr>io_kind_of = InvalidInput, io_text = ''seek before start''\<rparr>) dv
         else pure_io (Ok (word_of_int new)) (dv\<lparr>dv_position := word_of_int new\<rparr>))"

definition dv_ops :: "primitives \<Rightarrow> bool \<Rightarrow> 'r reader_ops \<Rightarrow> 'r decrypted_volume reader_ops" where
  "dv_ops C oc ops = \<lparr>read_op = dv_read C oc ops, seek_op = dv_seek\<rparr>"

section \<open>The plaintext of an image\<close>

text \<open>All arithmetic here is exact: these definitions are about offsets as natural numbers.\<close>

definition blanked :: "fve_metadata \<Rightarrow> nat \<Rightarrow> bool" where
  "blanked md s \<longleftrightarrow>
     list_ex (\<lambda>m. m \<noteq> 0 \<and> unat m \<le> s \<and> s < unat m + unat (metadata_size md)) (metadata_offsets md)"

definition physical_of :: "fve_metadata \<Rightarrow> nat \<Rightarrow> nat" where
  "physical_of md s = (if s < unat (volume_header_size md) then unat (volume_header_offset md) + s else s)"

definition stored_plain :: "fve_metadata \<Rightarrow> nat \<Rightarrow> bool" where
  "stored_plain md phys \<longleftrightarrow>
     encryption_method md = METHOD_NONE \<or> encrypted_volume_size md \<noteq> 0 \<and> unat (encrypted_volume_size md) \<le> phys"

definition sector_at :: "primitives \<Rightarrow> sector_cipher \<Rightarrow> fve_metadata \<Rightarrow> bytes \<Rightarrow> nat \<Rightarrow> bytes" where
  "sector_at C sc md img phys =
     (let ct = fit SECTOR_SIZE (drop phys img)
      in if stored_plain md phys then ct else fit SECTOR_SIZE (decrypt_sector C sc ct (word_of_nat phys)))"

definition view_sector :: "primitives \<Rightarrow> sector_cipher \<Rightarrow> fve_metadata \<Rightarrow> bytes \<Rightarrow> nat \<Rightarrow> bytes" where
  "view_sector C sc md img s =
     (if blanked md s then replicate SECTOR_SIZE 0 else sector_at C sc md img (physical_of md s))"

definition view_byte :: "primitives \<Rightarrow> sector_cipher \<Rightarrow> fve_metadata \<Rightarrow> bytes \<Rightarrow> nat \<Rightarrow> u8" where
  "view_byte C sc md img i = view_sector C sc md img (i - i mod SECTOR_SIZE) ! (i mod SECTOR_SIZE)"

definition view :: "primitives \<Rightarrow> sector_cipher \<Rightarrow> fve_metadata \<Rightarrow> bytes \<Rightarrow> nat \<Rightarrow> nat \<Rightarrow> bytes" where
  "view C sc md img i n = map (view_byte C sc md img) [i ..< i + n]"

text \<open>What reading a sector ends with when nothing is known of the metadata.\<close>

definition sector_outcome ::
    "primitives \<Rightarrow> bool \<Rightarrow> sector_cipher \<Rightarrow> fve_metadata \<Rightarrow> bytes \<Rightarrow> u64 \<Rightarrow> (bde_error, bytes) outcome" where
  "sector_outcome C oc sc md img s =
     bind_outcome (in_metadata_region oc (metadata_offsets md) (ucast (metadata_size md)) s) (\<lambda>blank.
       if blank then Ok (replicate SECTOR_SIZE 0)
       else bind_outcome (if s < volume_header_size md then add_u64 oc (volume_header_offset md) s else Ok s) (\<lambda>p.
         Ok (sector_at C sc md img (unat p))))"

text \<open>Metadata whose offsets leave the 64-bit sums of the read path exact.\<close>

definition safe_layout :: "fve_metadata \<Rightarrow> bool" where
  "safe_layout md \<longleftrightarrow>
     list_all (\<lambda>m. unat m + unat (metadata_size md) < 2 ^ 64) (metadata_offsets md)
     \<and> unat (volume_header_offset md) + unat (volume_header_size md) \<le> 2 ^ 64"

text \<open>
  A volume over a reader of its image, and the plaintext it stands for.  The layout of its metadata has
  to be safe: unlocking gives all of this invariant but \<open>safe_layout\<close>, which is a condition on what is
  on the disk (\<open>read_at_any_metadata\<close> and \<open>relocation_overflow\<close> say what happens without it).
\<close>

definition dv_inv :: "('r \<Rightarrow> bool) \<Rightarrow> ('r \<Rightarrow> bytes) \<Rightarrow> 'r decrypted_volume \<Rightarrow> bool" where
  "dv_inv ok img dv \<longleftrightarrow>
     ok (dv_reader dv) \<and> safe_layout (dv_metadata dv)
     \<and> dv_total_size dv = word_of_nat (length (img (dv_reader dv)))"

definition dv_img :: "primitives \<Rightarrow> ('r \<Rightarrow> bytes) \<Rightarrow> 'r decrypted_volume \<Rightarrow> bytes" where
  "dv_img C img dv =
     view C (dv_cipher dv) (dv_metadata dv) (img (dv_reader dv)) 0 (unat (dv_total_size dv))"

text \<open>Two volumes that differ at most in the state of a reader over the same image.\<close>

definition same_volume :: "('r \<Rightarrow> bool) \<Rightarrow> ('r \<Rightarrow> bytes) \<Rightarrow> 'r decrypted_volume \<Rightarrow> 'r decrypted_volume \<Rightarrow> bool" where
  "same_volume ok img dv dv' \<longleftrightarrow>
     ok (dv_reader dv') \<and> img (dv_reader dv') = img (dv_reader dv) \<and> dv_cipher dv' = dv_cipher dv
     \<and> dv_metadata dv' = dv_metadata dv \<and> dv_total_size dv' = dv_total_size dv \<and> dv_position dv' = dv_position dv"

section \<open>Arithmetic of the read path\<close>

lemma add_u64_exact: "unat a + unat b < 2 ^ 64 \<Longrightarrow> add_u64 oc a b = Ok (a + b)"
  by (simp add: add_u64_def)

lemma unat_add_exact: "unat a + unat b < 2 ^ 64 \<Longrightarrow> unat (a + b) = unat a + unat b" for a b :: u64
  by (simp add: unat_word_ariths)

lemma add_u64_wraps: "add_u64 False a b = Ok (a + b)"
  by (simp add: add_u64_def)

lemma unat_ucast_u32: "unat (ucast (w :: u32) :: u64) = unat w"
  using unsigned_less [of w, where 'a = nat] by (simp add: unsigned_ucast_eq take_bit_nat_eq_self)

lemma sector_start_exact: "unat (p - p mod 512) = unat p - unat p mod 512" for p :: u64
proof -
  have "p mod 512 \<le> p"
    by (simp add: word_le_nat_alt unat_mod)
  then show ?thesis
    by (simp add: unat_sub unat_mod)
qed

lemma in_metadata_region_exact:
  assumes "list_all (\<lambda>m. unat m + unat sz < 2 ^ 64) ms"
  shows "in_metadata_region oc ms (ucast (sz :: u32)) s
         = Ok (list_ex (\<lambda>m. m \<noteq> 0 \<and> unat m \<le> unat s \<and> unat s < unat m + unat sz) ms)"
  using assms
proof (induction ms)
  case (Cons m ms)
  then have a: "add_u64 oc m (ucast sz) = (Ok (m + ucast sz) :: ('a, u64) outcome)" "unat (m + ucast sz) = unat m + unat sz"
    by (simp_all add: add_u64_exact unat_add_exact unat_ucast_u32)
  with Cons show ?case
    by (auto simp: word_le_nat_alt word_less_nat_alt)
qed simp

lemma physical_exact:
  assumes "safe_layout md"
  shows "\<exists>p. (if s < volume_header_size md then add_u64 oc (volume_header_offset md) s else Ok s) = Ok p
             \<and> unat p = physical_of md (unat s)"
proof (cases "s < volume_header_size md")
  case True
  then have "unat (volume_header_offset md) + unat s < 2 ^ 64"
    using assms by (simp add: safe_layout_def word_less_nat_alt)
  with True show ?thesis
    by (simp add: physical_of_def add_u64_exact unat_add_exact word_less_nat_alt)
qed (simp add: physical_of_def word_less_nat_alt)

lemma in_metadata_region_no_err [simp]: "in_metadata_region oc ms sz s \<noteq> Err e"
  by (induction ms) (auto simp: add_u64_def)

lemma flag_then_step:
  "(\<And>e. m \<noteq> Err e) \<Longrightarrow> (\<And>e. n \<noteq> Err e)
   \<Longrightarrow> m = Panic \<or> m = Ok True \<or> m = Ok False \<and> n = Panic \<or> (\<exists>p. m = Ok False \<and> n = Ok p)"
  by (cases m; cases n) auto

lemma in_metadata_region_no_panic [simp]: "in_metadata_region False ms sz s \<noteq> Panic"
  by (induction ms) (auto simp: add_u64_wraps)

lemma in_metadata_region_checked:
  "in_metadata_region True ms (ucast (sz :: u32)) s = Ok b
   \<Longrightarrow> b = list_ex (\<lambda>m. m \<noteq> 0 \<and> unat m \<le> unat s \<and> unat s < unat m + unat sz) ms"
proof (induction ms)
  case (Cons m ms)
  then show ?case
    using unat_add_exact [of m "ucast sz"]
    by (auto simp: add_u64_def unat_ucast_u32 word_le_nat_alt word_less_nat_alt split: if_splits)
qed simp

lemma fit_Nil [simp]: "fit n [] = replicate n 0"
  by (simp add: fit_def)

lemma copy_into_zeros: "copy_into (replicate n 0) 0 (take (min (length bs) n) bs) = fit n bs"
  by (simp add: copy_into_def fit_def min_def)

lemma chunk_bounds:
  "w < (n :: nat) \<Longrightarrow> d < l \<Longrightarrow> 0 < min (n - w) (l - d) \<and> d + min (n - w) (l - d) \<le> l \<and> w + min (n - w) (l - d) \<le> n"
  by linarith

lemma length_sector_at [simp]: "length (sector_at C sc md img phys) = SECTOR_SIZE"
  by (simp add: sector_at_def Let_def)

lemma length_view_sector [simp]: "length (view_sector C sc md img s) = SECTOR_SIZE"
  by (simp add: view_sector_def)

lemma length_view [simp]: "length (view C sc md img i n) = n"
  by (simp add: view_def)

lemma sector_outcome_cases:
  "sector_outcome C oc sc md img s \<noteq> Err e"
  "sector_outcome C oc sc md img s = Panic \<Longrightarrow> oc"
  "sector_outcome C oc sc md img s = Ok bs \<Longrightarrow> length bs = SECTOR_SIZE"
  "sector_outcome C oc sc md img s = Ok bs \<Longrightarrow> oc \<Longrightarrow> bs = view_sector C sc md img (unat s)"
proof -
  have no_err: "add_u64 oc a b \<noteq> Err e" for a b e
    by (simp add: add_u64_def)
  show "sector_outcome C oc sc md img s \<noteq> Err e"
    by (auto simp: sector_outcome_def no_err bind_outcome_Err_iff)
  show "sector_outcome C oc sc md img s = Panic \<Longrightarrow> oc"
    by (cases oc) (auto simp: sector_outcome_def add_u64_wraps bind_outcome_Panic_iff split: if_splits)
  show "sector_outcome C oc sc md img s = Ok bs \<Longrightarrow> length bs = SECTOR_SIZE"
    by (auto simp: sector_outcome_def bind_outcome_Ok_iff split: if_splits)
  show "bs = view_sector C sc md img (unat s)" if ok: "sector_outcome C oc sc md img s = Ok bs" and oc
  proof -
    from ok \<open>oc\<close> have blank: "in_metadata_region True (metadata_offsets md) (ucast (metadata_size md)) s
        = (Ok (blanked md (unat s)) :: (bde_error, bool) outcome)"
      by (auto simp: sector_outcome_def bind_outcome_Ok_iff blanked_def dest: in_metadata_region_checked)
    have "unat p = physical_of md (unat s)"
      if "(if s < volume_header_size md then add_u64 True (volume_header_offset md) s else Ok s) = (Ok p :: (bde_error, u64) outcome)" for p
      using that unat_add_exact [of "volume_header_offset md" s]
      by (auto simp: physical_of_def add_u64_def word_less_nat_alt split: if_splits)
    with ok blank \<open>oc\<close> show ?thesis
      by (auto simp: sector_outcome_def view_sector_def bind_outcome_Ok_iff)
  qed
qed

lemma view_add: "view C sc md img i (m + n) = view C sc md img i m @ view C sc md img (i + m) n"
  using upt_add_eq_append [of i "i + m" n] by (simp add: view_def add.assoc flip: map_append)

lemma take_drop_view: "j + n \<le> m \<Longrightarrow> take n (drop j (view C sc md img i m)) = view C sc md img (i + j) n"
  by (simp add: view_def drop_map take_map add.commute add.left_commute)

text \<open>A slice of one sector of the view.\<close>

lemma view_in_sector:
  assumes "i mod SECTOR_SIZE + n \<le> SECTOR_SIZE"
  shows "take n (drop (i mod SECTOR_SIZE) (view_sector C sc md img (i - i mod SECTOR_SIZE))) = view C sc md img i n"
proof (intro nth_equalityI)
  fix k
  assume "k < length (take n (drop (i mod SECTOR_SIZE) (view_sector C sc md img (i - i mod SECTOR_SIZE))))"
  then have k: "k < n"
    by simp
  have "(i + k) mod SECTOR_SIZE = i mod SECTOR_SIZE + k" "i + k - (i + k) mod SECTOR_SIZE = i - i mod SECTOR_SIZE"
    using k assms by (simp_all add: mod_add_left_eq [symmetric, of i] flip: mod_add_left_eq [of i])
  then show "take n (drop (i mod SECTOR_SIZE) (view_sector C sc md img (i - i mod SECTOR_SIZE))) ! k = view C sc md img i n ! k"
    using k assms by (simp add: view_def view_byte_def)
qed (use assms in simp)

lemma dv_inv_iff:
  "dv_inv ok img = (\<lambda>dv. ok (dv_reader dv) \<and> safe_layout (dv_metadata dv)
     \<and> dv_total_size dv = word_of_nat (length (img (dv_reader dv))))"
  by (simp add: fun_eq_iff dv_inv_def)

lemma outside_metadata:
  assumes "\<forall>m \<in> set ms. m = 0 \<or> s < m \<or> unat m + unat size' \<le> unat s"
  shows "in_metadata_region oc ms size' s = (Ok False :: ('e, bool) outcome)"
  using assms
proof (induction ms)
  case (Cons m ms)
  have "add_u64 oc m size' = (Ok (m + size') :: ('e, u64) outcome)" "\<not> s < m + size'" if "m \<noteq> 0" "m \<le> s"
  proof -
    have le: "unat m + unat size' \<le> unat s"
      using Cons.prems that by auto
    then have lim: "unat m + unat size' < 2 ^ 64"
      using unsigned_less [of s, where 'a = nat] by simp
    show "add_u64 oc m size' = (Ok (m + size') :: ('e, u64) outcome)"
      by (rule add_u64_exact [OF lim])
    show "\<not> s < m + size'"
      using le unat_add_exact [OF lim] by (simp add: word_less_nat_alt)
  qed
  with Cons show ?case
    by auto
qed simp

section \<open>On a reader over an image\<close>

lemma on_reader_simps [simp]:
  "on_reader dv (Some (x, r)) = Some (x, dv\<lparr>dv_reader := r\<rparr>)" "on_reader dv None = None"
  by (simp_all add: on_reader_def)

lemma same_volume_refl: "ok (dv_reader dv) \<Longrightarrow> same_volume ok img dv dv"
  by (simp add: same_volume_def)

lemma same_volume_trans: "same_volume ok img a b \<Longrightarrow> same_volume ok img b c \<Longrightarrow> same_volume ok img a c"
  by (simp add: same_volume_def)

context image_reader
begin

text \<open>Once the physical offset is known, the sector read is the one stored there.\<close>

lemma decrypt_logical_sector_at:
  assumes "inv (dv_reader dv)"
    and "in_metadata_region oc (metadata_offsets (dv_metadata dv)) (ucast (metadata_size (dv_metadata dv))) s
         = (Ok False :: (bde_error, bool) outcome)"
    and "(if s < volume_header_size (dv_metadata dv) then add_u64 oc (volume_header_offset (dv_metadata dv)) s else Ok s)
         = (Ok p :: (bde_error, u64) outcome)"
  shows "\<exists>dv'. decrypt_logical_sector C oc ops dv s
      = Some (Ok (sector_at C (dv_cipher dv) (dv_metadata dv) (img (dv_reader dv)) (unat p)), dv')
      \<and> same_volume inv img dv dv'"
proof -
  let ?md = "dv_metadata dv"
  obtain r1 r2 where r: "seek_op ops (dv_reader dv) (SeekStart p) = Some (Ok p, r1)"
    "read_available ops r1 SECTOR_SIZE
      = Some (Ok (fit SECTOR_SIZE (drop (unat p) (img (dv_reader dv))), min SECTOR_SIZE (length (img (dv_reader dv)) - unat p)), r2)"
    "inv r2" "img r2 = img (dv_reader dv)"
    using seek_read_image [OF assms(1)] by blast
  have "(encryption_method ?md = METHOD_NONE \<or> encrypted_volume_size ?md \<noteq> 0 \<and> encrypted_volume_size ?md \<le> p)
      \<longleftrightarrow> stored_plain ?md (unat p)"
    by (simp add: stored_plain_def word_le_nat_alt)
  with r show ?thesis
    by (simp add: decrypt_logical_sector_def assms(2,3) sector_at_def pure_io_def same_volume_def Let_def copy_into_zeros)
qed

lemma decrypt_logical_sector_image:
  assumes "inv (dv_reader dv)" and "safe_layout (dv_metadata dv)"
  shows "\<exists>dv'. decrypt_logical_sector C oc ops dv s
      = Some (Ok (view_sector C (dv_cipher dv) (dv_metadata dv) (img (dv_reader dv)) (unat s)), dv')
      \<and> same_volume inv img dv dv'"
proof -
  let ?md = "dv_metadata dv"
  have blank: "in_metadata_region oc (metadata_offsets ?md) (ucast (metadata_size ?md)) s
      = (Ok (blanked ?md (unat s)) :: (bde_error, bool) outcome)"
    using assms(2) by (simp add: in_metadata_region_exact safe_layout_def blanked_def)
  show ?thesis
  proof (cases "blanked ?md (unat s)")
    case True
    then show ?thesis
      using assms(1) by (simp add: decrypt_logical_sector_def blank view_sector_def pure_io_def same_volume_refl Let_def)
  next
    case False
    obtain p where p: "(if s < volume_header_size ?md then add_u64 oc (volume_header_offset ?md) s else Ok s)
        = (Ok p :: (bde_error, u64) outcome)" "unat p = physical_of ?md (unat s)"
      using physical_exact [OF assms(2)] by blast
    with False blank show ?thesis
      using decrypt_logical_sector_at [OF assms(1) _ p(1), of C] by (simp add: view_sector_def)
  qed
qed

lemma read_at_loop_image:
  assumes "inv (dv_reader dv)" and "safe_layout (dv_metadata dv)" and "unat offset + len \<le> 2 ^ 64" and "don \<le> len"
  shows "\<exists>dv'. read_at_loop C oc ops dv offset len don out
      = Some (Ok (out @ view C (dv_cipher dv) (dv_metadata dv) (img (dv_reader dv)) (unat offset + don) (len - don)), dv')
      \<and> same_volume inv img dv dv'"
  using assms
proof (induction "len - don" arbitrary: dv don out rule: less_induct)
  case less
  show ?case
  proof (cases "don < len")
    case False
    then show ?thesis
      using less.prems by (subst read_at_loop.simps) (simp add: pure_io_def same_volume_refl view_def)
  next
    case True
    define p where "p = offset + word_of_nat don"
    have don: "unat (word_of_nat don :: u64) = don"
      using True less.prems(3) by (simp add: unat_of_nat)
    then have p: "add_u64 oc offset (word_of_nat don) = (Ok p :: (bde_error, u64) outcome)" "unat p = unat offset + don"
      using True less.prems(3) by (simp_all add: p_def add_u64_exact unat_add_exact)
    let ?w = "unat p mod SECTOR_SIZE"
    define tk where "tk = min (SECTOR_SIZE - ?w) (len - don)"
    let ?view = "\<lambda>dv. view C (dv_cipher dv) (dv_metadata dv) (img (dv_reader dv))"
    obtain dv1 where d1: "decrypt_logical_sector C oc ops dv (p - p mod 512)
        = Some (Ok (view_sector C (dv_cipher dv) (dv_metadata dv) (img (dv_reader dv)) (unat p - ?w)), dv1)"
      "same_volume inv img dv dv1"
      using decrypt_logical_sector_image [OF less.prems(1,2), of C oc "p - p mod 512"] by (auto simp: sector_start_exact)
    have tks: "0 < tk" "don + tk \<le> len" "?w + tk \<le> SECTOR_SIZE"
      using chunk_bounds [of ?w SECTOR_SIZE don len] True by (simp_all add: tk_def)
    have piece: "take tk (drop ?w (view_sector C (dv_cipher dv) (dv_metadata dv) (img (dv_reader dv)) (unat p - ?w)))
        = ?view dv (unat p) tk"
      by (rule view_in_sector) (rule tks)
    have l: "len - (don + tk) < len - don"
      using tks(1) True by simp
    obtain dv2 where d2: "read_at_loop C oc ops dv1 offset len (don + tk) (out @ ?view dv (unat p) tk)
        = Some (Ok ((out @ ?view dv (unat p) tk) @ ?view dv1 (unat offset + (don + tk)) (len - (don + tk))), dv2)"
      "same_volume inv img dv1 dv2"
      using less.hyps [of "don + tk" dv1 "out @ ?view dv (unat p) tk"] less.prems(3) l tks(2) d1(2)
      unfolding same_volume_def by (metis less.prems(2))
    have "?view dv (unat p) tk @ ?view dv1 (unat offset + (don + tk)) (len - (don + tk))
        = ?view dv (unat offset + don) (len - don)"
      using view_add [of C "dv_cipher dv" "dv_metadata dv" "img (dv_reader dv)" "unat p" tk "len - (don + tk)"] tks(2) d1(2)
      by (simp add: same_volume_def p(2) add.assoc)
    moreover have "read_at_loop C oc ops dv offset len don out
        = read_at_loop C oc ops dv1 offset len (don + tk) (out @ ?view dv (unat p) tk)"
      using True p(1) d1(1) piece by (subst read_at_loop.simps) (simp add: pure_io_def Let_def unat_mod tk_def)
    ultimately show ?thesis
      using d2 same_volume_trans [OF d1(2) d2(2)] by auto
  qed
qed

lemma read_at_image:
  assumes "inv (dv_reader dv)" and "safe_layout (dv_metadata dv)" and "unat offset + len \<le> 2 ^ 64"
  shows "\<exists>dv'. read_at C oc ops dv offset len
      = Some (Ok (view C (dv_cipher dv) (dv_metadata dv) (img (dv_reader dv)) (unat offset) len), dv')
      \<and> same_volume inv img dv dv'"
  using read_at_loop_image [OF assms, of 0 C oc "[]"] by (simp add: read_at_def)

lemma dv_read_image:
  assumes "dv_inv inv img dv"
  shows "\<exists>dv'. dv_read C oc ops dv n
      = Some (Ok (take n (drop (unat (dv_position dv)) (dv_img C img dv))), dv')
      \<and> dv_inv inv img dv' \<and> dv_img C img dv' = dv_img C img dv
      \<and> unat (dv_position dv') = unat (dv_position dv) + length (take n (drop (unat (dv_position dv)) (dv_img C img dv)))"
proof (cases "dv_total_size dv \<le> dv_position dv")
  case True
  then show ?thesis
    using assms by (simp add: dv_read_def pure_io_def dv_img_def word_le_nat_alt)
next
  case False
  let ?p = "unat (dv_position dv)" and ?t = "unat (dv_total_size dv)"
  define k where "k = min n (?t - ?p)"
  have pt: "?p < ?t" and rem: "unat (dv_total_size dv - dv_position dv) = ?t - ?p"
    using False by (simp_all add: word_le_nat_alt unat_sub_if')
  have t: "?t < 2 ^ 64"
    using unsigned_less [of "dv_total_size dv", where 'a = nat] by simp
  then have k: "?p + k \<le> ?t" "unat (word_of_nat k :: u64) = k" "?p + k < 2 ^ 64"
    using pt by (simp_all add: k_def unat_of_nat)
  obtain dv1 where d1: "read_at C oc ops dv (dv_position dv) k
      = Some (Ok (view C (dv_cipher dv) (dv_metadata dv) (img (dv_reader dv)) ?p k), dv1)" "same_volume inv img dv dv1"
    using read_at_image [of dv "dv_position dv" k C oc] assms k(3) by (auto simp: dv_inv_def)
  have "take n (drop ?p (dv_img C img dv)) = take k (drop ?p (dv_img C img dv))"
    by (simp add: k_def dv_img_def min_def)
  also have "\<dots> = view C (dv_cipher dv) (dv_metadata dv) (img (dv_reader dv)) ?p k"
    using k(1) take_drop_view [of ?p k ?t] by (simp add: dv_img_def)
  finally have bytes: "take n (drop ?p (dv_img C img dv)) = view C (dv_cipher dv) (dv_metadata dv) (img (dv_reader dv)) ?p k" .
  have "add_u64 oc (dv_position dv1) (word_of_nat k) = (Ok (dv_position dv + word_of_nat k) :: (io_error, u64) outcome)"
    using d1(2) k by (simp add: same_volume_def add_u64_exact)
  then have "dv_read C oc ops dv n = Some (Ok (take n (drop ?p (dv_img C img dv))), dv1\<lparr>dv_position := dv_position dv + word_of_nat k\<rparr>)"
    using False d1(1) bytes by (simp add: dv_read_def pure_io_def rem Let_def flip: k_def)
  moreover have "unat (dv_position dv + word_of_nat k) = ?p + k"
    using k by (simp add: unat_add_exact)
  ultimately show ?thesis
    using assms d1(2) bytes by (auto simp: same_volume_def dv_inv_def dv_img_def)
qed

lemma decrypted_volume_image_reader:
  "image_reader (dv_ops C oc ops) (dv_inv inv img) (dv_img C img) (\<lambda>dv. unat (dv_position dv)) (\<lambda>dv. 0)"
proof unfold_locales
  show "length (dv_img C img dv) < 2 ^ 64" for dv
    using unsigned_less [of "dv_total_size dv", where 'a = nat] by (simp add: dv_img_def)
next
  fix dv n
  assume dv: "dv_inv inv img dv"
  let ?d = "take n (drop (unat (dv_position dv)) (dv_img C img dv))"
  have "take (length ?d) (drop (unat (dv_position dv)) (dv_img C img dv)) = ?d"
    by (simp add: min_def)
  moreover have "?d = [] \<longrightarrow> n = 0 \<or> length (dv_img C img dv) \<le> unat (dv_position dv)"
    by simp
  ultimately show "(\<exists>d dv'. read_op (dv_ops C oc ops) dv n = Some (Ok d, dv') \<and> length d \<le> n
        \<and> d = take (length d) (drop (unat (dv_position dv)) (dv_img C img dv))
        \<and> (d = [] \<longrightarrow> n = 0 \<or> length (dv_img C img dv) \<le> unat (dv_position dv))
        \<and> dv_inv inv img dv' \<and> dv_img C img dv' = dv_img C img dv \<and> unat (dv_position dv') = unat (dv_position dv) + length d)
      \<or> (\<exists>e dv'. read_op (dv_ops C oc ops) dv n = Some (Err e, dv') \<and> io_kind_of e = Interrupted
        \<and> dv_inv inv img dv' \<and> dv_img C img dv' = dv_img C img dv \<and> unat (dv_position dv') = unat (dv_position dv) \<and> 0 < (0 :: nat))"
    using dv_read_image [OF dv, of C oc n] by (intro disjI1 exI [of _ ?d]) (auto simp: dv_ops_def)
next
  show "dv_inv inv img dv \<Longrightarrow> \<exists>dv'. seek_op (dv_ops C oc ops) dv (SeekStart p) = Some (Ok p, dv')
      \<and> dv_inv inv img dv' \<and> dv_img C img dv' = dv_img C img dv \<and> unat (dv_position dv') = unat p" for dv p
    by (simp add: dv_ops_def dv_seek_def pure_io_def dv_inv_def dv_img_def)
  show "dv_inv inv img dv \<Longrightarrow> \<exists>dv'. seek_op (dv_ops C oc ops) dv (SeekEnd 0)
      = Some (Ok (word_of_nat (length (dv_img C img dv))), dv') \<and> dv_inv inv img dv' \<and> dv_img C img dv' = dv_img C img dv" for dv
    by (simp add: dv_ops_def dv_seek_def pure_io_def dv_inv_def dv_img_def)
qed

text \<open>For any metadata, safe or not: what a sector read ends with depends on the image alone.\<close>

lemma decrypt_logical_sector_outcome:
  assumes "inv (dv_reader dv)"
  shows "\<exists>dv'. decrypt_logical_sector C oc ops dv s
      = Some (sector_outcome C oc (dv_cipher dv) (dv_metadata dv) (img (dv_reader dv)) s, dv') \<and> same_volume inv img dv dv'"
proof -
  let ?md = "dv_metadata dv"
  let ?blank = "in_metadata_region oc (metadata_offsets ?md) (ucast (metadata_size ?md)) s :: (bde_error, bool) outcome"
  let ?phys = "(if s < volume_header_size ?md then add_u64 oc (volume_header_offset ?md) s else Ok s) :: (bde_error, u64) outcome"
  have "?phys \<noteq> Err e" for e
    by (simp add: add_u64_def)
  from flag_then_step [of ?blank, OF in_metadata_region_no_err this]
  consider "?blank = Panic" | "?blank = Ok True" | "?blank = Ok False" "?phys = Panic"
    | p where "?blank = Ok False" "?phys = Ok p"
    by blast
  then show ?thesis
  proof cases
    case (4 p)
    then show ?thesis
      using decrypt_logical_sector_at [OF assms, of oc s p C] by (simp add: sector_outcome_def)
  qed (use assms in \<open>auto simp: decrypt_logical_sector_def sector_outcome_def pure_io_def same_volume_refl Let_def\<close>)
qed

text \<open>
  The loop, for any metadata: it returns, with an error never; volumes that differ only in the state of
  their readers get the same answer; a checked build either panics or is exact; an unchecked build never
  panics.
\<close>

lemma read_at_loop_outcome:
  assumes "inv (dv_reader dv)" and "same_volume inv img dv dw" and "len < 2 ^ 64" and "don \<le> len" and "length out = don"
  shows "\<exists>x dv' dw'. read_at_loop C oc ops dv offset len don out = Some (x, dv')
      \<and> read_at_loop C oc ops dw offset len don out = Some (x, dw')
      \<and> same_volume inv img dv dv' \<and> same_volume inv img dw dw'
      \<and> (x = Panic \<and> oc \<or> (\<exists>bs. x = Ok bs \<and> length bs = len
           \<and> (oc \<longrightarrow> bs = out @ view C (dv_cipher dv) (dv_metadata dv) (img (dv_reader dv)) (unat offset + don) (len - don))))"
  using assms
proof (induction "len - don" arbitrary: dv dw don out rule: less_induct)
  case less
  show ?case
  proof (cases "don < len")
    case False
    then show ?thesis
      using less.prems by (subst (1 2) read_at_loop.simps) (auto simp: pure_io_def same_volume_def view_def)
  next
    case True
    let ?sec = "sector_outcome C oc (dv_cipher dv) (dv_metadata dv) (img (dv_reader dv))"
    let ?view = "\<lambda>dv. view C (dv_cipher dv) (dv_metadata dv) (img (dv_reader dv))"
    show ?thesis
    proof (cases "add_u64 oc offset (word_of_nat don) :: (bde_error, u64) outcome")
      case Panic
      then show ?thesis
        using True less.prems by (subst (1 2) read_at_loop.simps) (auto simp: pure_io_def same_volume_def add_u64_def split: if_splits)
    next
      case (Err e)
      then show ?thesis
        by (simp add: add_u64_def split: if_splits)
    next
      case (Ok p)
      have w: "inv (dv_reader dw)"
        using less.prems(2) by (simp add: same_volume_def)
      let ?w = "unat p mod SECTOR_SIZE"
      define tk where "tk = min (SECTOR_SIZE - ?w) (len - don)"
      have tks: "0 < tk" "don + tk \<le> len" "?w + tk \<le> SECTOR_SIZE" "len - (don + tk) < len - don"
        using chunk_bounds [of ?w SECTOR_SIZE don len] True by (simp_all add: tk_def)
      obtain dv1 where d1: "decrypt_logical_sector C oc ops dv (p - p mod 512) = Some (?sec (p - p mod 512), dv1)"
        "same_volume inv img dv dv1"
        using decrypt_logical_sector_outcome [OF less.prems(1)] by blast
      obtain dw1 where e1: "decrypt_logical_sector C oc ops dw (p - p mod 512) = Some (?sec (p - p mod 512), dw1)"
        "same_volume inv img dw dw1"
        using decrypt_logical_sector_outcome [OF w, of C oc "p - p mod 512"] less.prems(2) by (auto simp: same_volume_def)
      have step: "read_at_loop C oc ops dv offset len don out
          = bind_io (Some (?sec (p - p mod 512), dv1)) (\<lambda>plain dv1. read_at_loop C oc ops dv1 offset len (don + tk) (out @ take tk (drop ?w plain)))"
        "read_at_loop C oc ops dw offset len don out
          = bind_io (Some (?sec (p - p mod 512), dw1)) (\<lambda>plain dv1. read_at_loop C oc ops dv1 offset len (don + tk) (out @ take tk (drop ?w plain)))"
        using True Ok d1(1) e1(1) by (subst read_at_loop.simps, simp add: pure_io_def Let_def unat_mod tk_def)+
      show ?thesis
      proof (cases "?sec (p - p mod 512)")
        case Panic
        with step d1(2) e1(2) show ?thesis
          using sector_outcome_cases(2) by fastforce
      next
        case (Err e)
        then show ?thesis
          by (simp add: sector_outcome_cases)
      next
        case sec: (Ok bs)
        note bs = sector_outcome_cases(3,4) [OF sec]
        have l: "length (out @ take tk (drop ?w bs)) = don + tk" "inv (dv_reader dv1)" "same_volume inv img dv1 dw1"
          using tks bs(1) less.prems(2,5) d1(2) e1(2) by (simp_all add: same_volume_def)
        obtain x dv2 dw2 where d2: "read_at_loop C oc ops dv1 offset len (don + tk) (out @ take tk (drop ?w bs)) = Some (x, dv2)"
          "read_at_loop C oc ops dw1 offset len (don + tk) (out @ take tk (drop ?w bs)) = Some (x, dw2)"
          "same_volume inv img dv1 dv2" "same_volume inv img dw1 dw2"
          and x: "x = Panic \<and> oc \<or> (\<exists>cs. x = Ok cs \<and> length cs = len
           \<and> (oc \<longrightarrow> cs = (out @ take tk (drop ?w bs)) @ ?view dv1 (unat offset + (don + tk)) (len - (don + tk))))"
          using less.hyps [OF tks(4) l(2,3) less.prems(3) tks(2) l(1)] by blast
        have exact: "(out @ take tk (drop ?w bs)) @ ?view dv1 (unat offset + (don + tk)) (len - (don + tk))
            = out @ ?view dv (unat offset + don) (len - don)" if oc
        proof -
          have p: "unat p = unat offset + don"
            using that Ok less.prems(3) True by (auto simp: add_u64_def unat_of_nat unat_add_exact split: if_splits)
          have "take tk (drop ?w bs) = ?view dv (unat p) tk"
            unfolding bs(2) [OF that] sector_start_exact using view_in_sector [of "unat p" tk] tks(3) by simp
          then show ?thesis
            using view_add [of C "dv_cipher dv" "dv_metadata dv" "img (dv_reader dv)" "unat p" tk "len - (don + tk)"] tks(2) d1(2)
            by (simp add: same_volume_def p add.assoc)
        qed
        show ?thesis
          using step sec d2 x exact same_volume_trans [OF d1(2) d2(3)] same_volume_trans [OF e1(2) d2(4)] by auto
      qed
    qed
  qed
qed

end

interpretation dvc: image_reader "dv_ops C oc cursor_ops" "dv_inv cursor_inv cur_data" "dv_img C cur_data"
    "\<lambda>dv. unat (dv_position dv)" "\<lambda>dv. 0" for C oc
  by (rule cur.decrypted_volume_image_reader)

section \<open>Properties\<close>

text \<open>A small volume for the witnesses: one encrypted sector, then a plain one.\<close>

definition demo_metadata :: fve_metadata where
  "demo_metadata =
     \<lparr>encryption_method = 0x8002, volume_guid = replicate 16 0, creation_time = 0, entries = [],
      encrypted_volume_size = 512, volume_header_offset = 0, volume_header_size = 0,
      metadata_offsets = [0, 0, 0], metadata_size = 0\<rparr>"

definition demo_volume :: "cursor decrypted_volume" where
  "demo_volume =
     \<lparr>dv_reader = cursor_of (replicate 1024 7), dv_cipher = SectorCipher_new_cbc (replicate 16 1),
      dv_metadata = demo_metadata, dv_total_size = 1024, dv_position = 0\<rparr>"

lemma demo_volume_inv: "dv_inv cursor_inv cur_data demo_volume" "safe_layout demo_metadata"
  by (simp_all add: dv_inv_def demo_volume_def cursor_of_def cursor_inv_def safe_layout_def demo_metadata_def)

text \<open>
  Property C2.  \<^verbatim>\<open>read_at\<close> serves the plaintext view: for metadata whose offsets leave the sums exact,
  at any offset and length that end at or below the 64-bit limit, with or without overflow checks, it
  fills the buffer with the view's bytes (metadata blocks blanked, the volume header relocated, sectors
  past the encrypted size raw, all others decrypted at their physical offset), and changes nothing of
  the volume but the state of its reader.
\<close>

theorem read_at_serves_view:
  assumes "image_reader ops ok img pos patience" and "ok (dv_reader dv)" and "safe_layout (dv_metadata dv)"
    and "unat offset + len \<le> 2 ^ 64"
  shows "\<exists>dv'. read_at C oc ops dv offset len
      = Some (Ok (view C (dv_cipher dv) (dv_metadata dv) (img (dv_reader dv)) (unat offset) len), dv')
      \<and> same_volume ok img dv dv'"
  using image_reader.read_at_image [OF assms] .

theorem read_at_serves_view_witness:
  "\<exists>dv'. read_at demo True cursor_ops demo_volume 600 3 = Some (Ok [7, 7, 7], dv')"
proof -
  have "view demo (dv_cipher demo_volume) (dv_metadata demo_volume) (cur_data (dv_reader demo_volume)) 600 3 = [7, 7, 7]"
    by (simp add: view_def view_byte_def view_sector_def sector_at_def blanked_def physical_of_def stored_plain_def
        demo_volume_def demo_metadata_def cursor_of_def fit_def upt_rec)
  then show ?thesis
    using read_at_serves_view [OF cur.image_reader_axioms, of demo_volume 600 3 demo True] demo_volume_inv
    by (auto simp: dv_inv_def demo_volume_def)
qed

text \<open>
  Property C3.  A decrypted volume is itself a reader over an image, the plaintext view of its size, as
  long as its metadata has a safe layout (its block offsets plus the metadata size, and the relocated
  header offset plus its size, stay within 64 bits; without this a read can panic): reads are never
  interrupted, return the longest available prefix, advance the position by what they returned and report
  the end exactly at the volume size; seeks to an offset or to the end do what the contract says.
  Unlocking establishes everything the contract asks of a volume except the safe layout.
\<close>

theorem decrypted_volume_refines_reader:
  assumes "image_reader ops ok img pos patience"
  shows "image_reader (dv_ops C oc ops)
      (\<lambda>dv. ok (dv_reader dv) \<and> safe_layout (dv_metadata dv) \<and> dv_total_size dv = word_of_nat (length (img (dv_reader dv))))
      (dv_img C img) (\<lambda>dv. unat (dv_position dv)) (\<lambda>dv. 0)
    \<and> (\<forall>r prot name unw dv r'. ok r \<longrightarrow> unlock C ops r prot name unw = Some (Ok dv, r')
        \<longrightarrow> ok (dv_reader dv) \<and> dv_total_size dv = word_of_nat (length (img (dv_reader dv))))"
  using image_reader.decrypted_volume_image_reader [OF assms, of C oc] image_reader.unlock_Ok [OF assms]
  unfolding dv_inv_iff by fastforce

theorem decrypted_volume_refines_reader_witness:
  "image_reader (dv_ops demo True cursor_ops)
     (\<lambda>dv. cursor_inv (dv_reader dv) \<and> safe_layout (dv_metadata dv)
        \<and> dv_total_size dv = word_of_nat (length (cur_data (dv_reader dv))))
     (dv_img demo cur_data) (\<lambda>dv. unat (dv_position dv)) (\<lambda>dv. 0)
   \<and> cursor_inv (dv_reader demo_volume) \<and> safe_layout (dv_metadata demo_volume)
   \<and> dv_total_size demo_volume = word_of_nat (length (cur_data (dv_reader demo_volume)))"
  using decrypted_volume_refines_reader [OF cur.image_reader_axioms] demo_volume_inv unfolding dv_inv_iff by blast

text \<open>
  Property C6.  Whatever the metadata says, \<^verbatim>\<open>read_at\<close> returns at every offset, reports no error and leaves
  the volume usable.  With overflow checks it serves exactly the plaintext view or panics; without them
  it never panics and fills the buffer.  What it returns does not depend on the state of the reader, so
  not on the reads before it.
\<close>

theorem read_at_any_metadata:
  assumes "image_reader ops ok img pos patience" and "ok (dv_reader dv)" and "same_volume ok img dv dw" and "len < 2 ^ 64"
  shows "\<exists>x dv' dw'. read_at C oc ops dv offset len = Some (x, dv') \<and> read_at C oc ops dw offset len = Some (x, dw')
      \<and> same_volume ok img dv dv' \<and> same_volume ok img dw dw'
      \<and> (if oc then x \<in> {Panic, Ok (view C (dv_cipher dv) (dv_metadata dv) (img (dv_reader dv)) (unat offset) len)}
         else (\<exists>bs. x = Ok bs \<and> length bs = len))"
  using image_reader.read_at_loop_outcome [OF assms, of 0 "[]" C oc offset] by (auto simp: read_at_def)

theorem read_at_any_metadata_witness:
  "\<exists>bs dv'. read_at demo False cursor_ops demo_volume 0xFFFFFFFFFFFFFFFF 4 = Some (Ok bs, dv') \<and> length bs = 4"
proof -
  have "cursor_inv (dv_reader demo_volume)" "same_volume cursor_inv cur_data demo_volume demo_volume"
    using demo_volume_inv by (simp_all add: dv_inv_def same_volume_refl)
  from read_at_any_metadata [OF cur.image_reader_axioms this, of 4 demo False "0xFFFFFFFFFFFFFFFF"] show ?thesis
    by auto
qed

text \<open>
  Property C32.  Relocating the volume header is unchecked arithmetic on two numbers from the disk: for a
  sector inside the relocated header and outside every metadata block (a sector inside one is blanked
  before the sum is formed), where the sum passes the 64-bit limit, a build with overflow checks panics,
  and one without reads and decrypts the sector at the sum less \<open>2 ^ 64\<close>.
\<close>

theorem relocation_overflow:
  assumes "image_reader ops ok img pos patience" and "ok (dv_reader dv)"
    and "\<forall>m \<in> set (metadata_offsets (dv_metadata dv)).
           m = 0 \<or> s < m \<or> unat m + unat (metadata_size (dv_metadata dv)) \<le> unat s"
    and "s < volume_header_size (dv_metadata dv)" and "2 ^ 64 \<le> unat (volume_header_offset (dv_metadata dv)) + unat s"
  shows "decrypt_logical_sector C True ops dv s = Some (Panic, dv)
    \<and> (\<exists>dv'. decrypt_logical_sector C False ops dv s
        = Some (Ok (sector_at C (dv_cipher dv) (dv_metadata dv) (img (dv_reader dv))
                     (unat (volume_header_offset (dv_metadata dv)) + unat s - 2 ^ 64)), dv'))"
proof -
  let ?o = "volume_header_offset (dv_metadata dv)"
  have "unat (?o + s) = unat ?o + unat s - 2 ^ 64"
    using assms(5) unsigned_less [of ?o, where 'a = nat] unsigned_less [of s, where 'a = nat]
    by (simp add: unat_word_ariths mod_if)
  moreover have out: "in_metadata_region oc (metadata_offsets (dv_metadata dv)) (ucast (metadata_size (dv_metadata dv))) s
      = (Ok False :: (bde_error, bool) outcome)" for oc
    using assms(3) by (intro outside_metadata) (simp add: unat_ucast_u32)
  ultimately show ?thesis
    using image_reader.decrypt_logical_sector_at [OF assms(1,2) out, of False "?o + s" C] assms(4,5)
    by (auto simp: decrypt_logical_sector_def out pure_io_def add_u64_def)
qed

theorem relocation_overflow_witness:
  "decrypt_logical_sector demo True cursor_ops
     (demo_volume\<lparr>dv_metadata := demo_metadata\<lparr>volume_header_offset := 0xFFFFFFFFFFFFFE00, volume_header_size := 0x2000,
        metadata_offsets := [0x1000, 0x4000, 0], metadata_size := 0x200\<rparr>\<rparr>) 0x1200
   = Some (Panic,
       demo_volume\<lparr>dv_metadata := demo_metadata\<lparr>volume_header_offset := 0xFFFFFFFFFFFFFE00, volume_header_size := 0x2000,
        metadata_offsets := [0x1000, 0x4000, 0], metadata_size := 0x200\<rparr>\<rparr>)"
  using relocation_overflow [OF cur.image_reader_axioms, of "demo_volume\<lparr>dv_metadata := demo_metadata
      \<lparr>volume_header_offset := 0xFFFFFFFFFFFFFE00, volume_header_size := 0x2000,
        metadata_offsets := [0x1000, 0x4000, 0], metadata_size := 0x200\<rparr>\<rparr>" "0x1200" demo] demo_volume_inv(1)
  by (simp add: dv_inv_def demo_metadata_def)

text \<open>
  Property C33.  What is read past the end of the image, for metadata of a safe layout: zeros where the
  sector lies in a blanked metadata block or counts as stored in the clear, but the decryption of a zero
  sector everywhere else (no encrypted size recorded, or a size beyond the image).
\<close>

theorem read_past_end:
  assumes "image_reader ops ok img pos patience" and "ok (dv_reader dv)" and "safe_layout (dv_metadata dv)"
    and "length (img (dv_reader dv)) \<le> physical_of (dv_metadata dv) (unat s)"
  shows "\<exists>dv'. decrypt_logical_sector C oc ops dv s
    = Some (Ok (if blanked (dv_metadata dv) (unat s)
                   \<or> stored_plain (dv_metadata dv) (physical_of (dv_metadata dv) (unat s)) then replicate SECTOR_SIZE 0
                else fit SECTOR_SIZE (decrypt_sector C (dv_cipher dv) (replicate SECTOR_SIZE 0)
                       (word_of_nat (physical_of (dv_metadata dv) (unat s))))), dv')"
  using image_reader.decrypt_logical_sector_image [OF assms(1-3), of C oc s] assms(4)
  by (auto simp: view_sector_def sector_at_def Let_def)

theorem read_past_end_witness:
  "\<exists>dv'. decrypt_logical_sector demo True cursor_ops
     (demo_volume\<lparr>dv_metadata := demo_metadata\<lparr>encrypted_volume_size := 0\<rparr>\<rparr>) 2048
   = Some (Ok (fit 512 (decrypt_sector demo (SectorCipher_new_cbc (replicate 16 1)) (replicate 512 0) 2048)), dv')"
  using read_past_end [OF cur.image_reader_axioms, of "demo_volume\<lparr>dv_metadata := demo_metadata\<lparr>encrypted_volume_size := 0\<rparr>\<rparr>"
      2048 demo True] demo_volume_inv
  by (simp add: dv_inv_def safe_layout_def blanked_def physical_of_def stored_plain_def demo_metadata_def demo_volume_def cursor_of_def)

text \<open>
  Property C34.  Seeking is exact within the 64-bit range and leaves everything but the position alone; a
  target before the start is refused and the position kept; a target of \<open>2 ^ 64\<close> or more is accepted
  and the position silently reduced modulo \<open>2 ^ 64\<close>.
\<close>

theorem seek_positions:
  assumes "t = (case p of SeekStart off \<Rightarrow> uint off | SeekEnd off \<Rightarrow> uint (dv_total_size dv) + sint off
                | SeekCurrent off \<Rightarrow> uint (dv_position dv) + sint off)"
  shows "if t < 0 then dv_seek dv p = Some (Err \<lparr>io_kind_of = InvalidInput, io_text = ''seek before start''\<rparr>, dv)
    else (\<exists>w. dv_seek dv p = Some (Ok w, dv\<lparr>dv_position := w\<rparr>) \<and> uint w = (if t < 2 ^ 64 then t else t - 2 ^ 64))"
proof -
  have b: "sint (w :: i64) < 2 ^ 63" "uint (w :: u64) < 2 ^ 64" for w
    using sint_less [of w] uint_bounded [of w] by simp_all
  have "t < 2 ^ 64 + 2 ^ 63"
  proof (cases p)
    case (SeekStart off)
    then show ?thesis
      using b(2) [of off] assms by simp
  next
    case (SeekEnd off)
    then show ?thesis
      using b(1) [of off] b(2) [of "dv_total_size dv"] assms by simp
  next
    case (SeekCurrent off)
    then show ?thesis
      using b(1) [of off] b(2) [of "dv_position dv"] assms by simp
  qed
  then have "uint (word_of_int t :: u64) = (if t < 2 ^ 64 then t else t - 2 ^ 64)" if "0 \<le> t"
    using that mod_pos_pos_trivial [of "t - 2 ^ 64" "2 ^ 64"] by (simp add: uint_word_of_int)
  then show ?thesis
    unfolding dv_seek_def Let_def assms [symmetric] by (simp add: pure_io_def)
qed

theorem seek_positions_witness:
  "dv_seek (demo_volume\<lparr>dv_position := 0xFFFFFFFFFFFFFFFF\<rparr>) (SeekCurrent 2)
     = Some (Ok 1, demo_volume\<lparr>dv_position := 1\<rparr>)"
  using seek_positions [where t = "2 ^ 64 + 1" and p = "SeekCurrent 2" and dv = "demo_volume\<lparr>dv_position := 0xFFFFFFFFFFFFFFFF\<rparr>"]
  by (auto simp: demo_volume_def word_uint_eq_iff)

end
