(* ===== verification/Session.thy ===== *)
theory Session
  imports ReadPath
begin

text \<open>
  Sessions: sequences of \<^verbatim>\<open>read\<close> and \<^verbatim>\<open>seek\<close> calls on a decrypted volume, as a step relation with one
  rule per way a call of \<^verbatim>\<open>impl Read\<close> and \<^verbatim>\<open>impl Seek\<close> (\<^verbatim>\<open>core/src/volume.rs\<close>) can return.  A call that panics
  or never returns has no step.  The specification is a plain in-memory file; the sessions of a volume
  are exactly the sessions of the file that holds its plaintext.
\<close>

section \<open>Sessions of a volume\<close>

datatype request = ReadCall nat | SeekCall seek_from

datatype response = Data bytes | At u64 | Failed io_error

inductive dv_step ::
    "primitives \<Rightarrow> bool \<Rightarrow> 'r reader_ops \<Rightarrow> 'r decrypted_volume \<Rightarrow> request \<Rightarrow> response \<Rightarrow> 'r decrypted_volume \<Rightarrow> bool"
  for C oc ops where
  read_ok: "dv_read C oc ops dv n = Some (Ok d, dv') \<Longrightarrow> dv_step C oc ops dv (ReadCall n) (Data d) dv'"
| read_err: "dv_read C oc ops dv n = Some (Err e, dv') \<Longrightarrow> dv_step C oc ops dv (ReadCall n) (Failed e) dv'"
| seek_ok: "dv_seek dv p = Some (Ok w, dv') \<Longrightarrow> dv_step C oc ops dv (SeekCall p) (At w) dv'"
| seek_err: "dv_seek dv p = Some (Err e, dv') \<Longrightarrow> dv_step C oc ops dv (SeekCall p) (Failed e) dv'"

inductive_cases read_stepE: "dv_step C oc ops dv (ReadCall n) a dv'"
inductive_cases seek_stepE: "dv_step C oc ops dv (SeekCall p) a dv'"

inductive dv_session ::
    "primitives \<Rightarrow> bool \<Rightarrow> 'r reader_ops \<Rightarrow> 'r decrypted_volume \<Rightarrow> (request \<times> response) list \<Rightarrow> 'r decrypted_volume \<Rightarrow> bool"
  for C oc ops where
  session_start: "dv_session C oc ops dv [] dv"
| session_step: "dv_session C oc ops dv tr dv1 \<Longrightarrow> dv_step C oc ops dv1 q a dv2
    \<Longrightarrow> dv_session C oc ops dv (tr @ [(q, a)]) dv2"

inductive_cases session_snocE: "dv_session C oc ops dv (tr @ [x]) dv'"

section \<open>The specification: a file in memory\<close>

record plain_file =
  pf_bytes :: bytes
  pf_pos :: nat

definition SEEK_BEFORE_START :: io_error where
  "SEEK_BEFORE_START = \<lparr>io_kind_of = InvalidInput, io_text = ''seek before start''\<rparr>"

fun seek_target :: "nat \<Rightarrow> nat \<Rightarrow> seek_from \<Rightarrow> int" where
  "seek_target len p (SeekStart off) = uint off"
| "seek_target len p (SeekEnd off) = int len + sint off"
| "seek_target len p (SeekCurrent off) = int p + sint off"

fun file_respond :: "plain_file \<Rightarrow> request \<Rightarrow> response \<times> plain_file" where
  "file_respond f (ReadCall n) =
     (let d = take n (drop (pf_pos f) (pf_bytes f)) in (Data d, f\<lparr>pf_pos := pf_pos f + length d\<rparr>))"
| "file_respond f (SeekCall p) =
     (let t = seek_target (length (pf_bytes f)) (pf_pos f) p
      in if t < 0 then (Failed SEEK_BEFORE_START, f)
         else (At (word_of_int t), f\<lparr>pf_pos := nat (t mod 2 ^ 64)\<rparr>))"

fun file_run :: "plain_file \<Rightarrow> request list \<Rightarrow> response list \<times> plain_file" where
  "file_run f [] = ([], f)"
| "file_run f (q # qs) =
     (let (a, f1) = file_respond f q; (rest, f2) = file_run f1 qs in (a # rest, f2))"

definition file_of :: "primitives \<Rightarrow> ('r \<Rightarrow> bytes) \<Rightarrow> 'r decrypted_volume \<Rightarrow> plain_file" where
  "file_of C img dv = \<lparr>pf_bytes = dv_img C img dv, pf_pos = unat (dv_position dv)\<rparr>"

section \<open>Lemmas\<close>

lemma file_run_snoc:
  "file_run f (qs @ [q]) =
     (fst (file_run f qs) @ [fst (file_respond (snd (file_run f qs)) q)], snd (file_respond (snd (file_run f qs)) q))"
  by (induction qs arbitrary: f) (simp_all add: case_prod_beta Let_def)

lemma length_file_run [simp]: "length (fst (file_run f qs)) = length qs"
  by (induction qs arbitrary: f) (simp_all add: case_prod_beta Let_def)

lemma uint_word_of_nonneg: "0 \<le> t \<Longrightarrow> unat (word_of_int t :: u64) = nat (t mod 2 ^ 64)"
  by (simp add: unat_eq_nat_uint uint_word_of_int)

text \<open>Reading on and on: the pieces are consecutive.\<close>

lemma file_run_reads:
  "file_run f (map ReadCall ns) = (as, f')
   \<Longrightarrow> concat (map (case_response id (\<lambda>_. []) (\<lambda>_. [])) as) = take (sum_list ns) (drop (pf_pos f) (pf_bytes f))
     \<and> (\<forall>a \<in> set as. \<exists>d. a = Data d)
     \<and> pf_bytes f' = pf_bytes f \<and> pf_pos f' = pf_pos f + min (sum_list ns) (length (pf_bytes f) - pf_pos f)"
proof (induction ns arbitrary: f as)
  case (Cons n ns)
  let ?d = "take n (drop (pf_pos f) (pf_bytes f))"
  obtain as1 where as1: "file_run (f\<lparr>pf_pos := pf_pos f + length ?d\<rparr>) (map ReadCall ns) = (as1, f')" "as = Data ?d # as1"
    using Cons.prems by (auto simp: Let_def split: prod.splits)
  have "?d @ take (sum_list ns) (drop (pf_pos f + length ?d) (pf_bytes f)) = take (n + sum_list ns) (drop (pf_pos f) (pf_bytes f))"
    by (cases "n \<le> length (pf_bytes f) - pf_pos f") (simp_all add: take_add add.commute)
  with Cons.IH [OF as1(1)] as1(2) show ?case
    by auto
qed simp

context image_reader
begin

text \<open>One call: it returns, with the response of the file, and keeps the correspondence.\<close>

lemma dv_step_file:
  assumes "dv_inv inv img dv"
  shows "\<exists>dv'. dv_step C oc ops dv q (fst (file_respond (file_of C img dv) q)) dv' \<and> dv_inv inv img dv'
      \<and> file_of C img dv' = snd (file_respond (file_of C img dv) q)"
proof (cases q)
  case (ReadCall n)
  then show ?thesis
    using dv_read_image [OF assms, of C oc n] dv_step.read_ok [of C oc ops dv n] by (fastforce simp: file_of_def Let_def)
next
  case (SeekCall p)
  let ?t = "seek_target (length (dv_img C img dv)) (unat (dv_position dv)) p"
  have t: "(case p of SeekStart off \<Rightarrow> uint off | SeekEnd off \<Rightarrow> uint (dv_total_size dv) + sint off
            | SeekCurrent off \<Rightarrow> uint (dv_position dv) + sint off) = ?t"
    by (cases p) (simp_all add: dv_img_def)
  show ?thesis
  proof (cases "?t < 0")
    case True
    then have "dv_seek dv p = Some (Err SEEK_BEFORE_START, dv)"
      unfolding dv_seek_def Let_def t by (simp add: pure_io_def SEEK_BEFORE_START_def)
    then show ?thesis
      using assms SeekCall True dv_step.seek_err by (fastforce simp: file_of_def Let_def)
  next
    case False
    let ?dv = "dv\<lparr>dv_position := word_of_int ?t\<rparr>"
    have "dv_seek dv p = Some (Ok (word_of_int ?t), ?dv)"
      unfolding dv_seek_def Let_def t using False by (simp add: pure_io_def)
    then have "dv_step C oc ops dv (SeekCall p) (At (word_of_int ?t)) ?dv"
      by (rule dv_step.seek_ok)
    moreover have "dv_inv inv img ?dv" "dv_img C img ?dv = dv_img C img dv"
      using assms by (simp_all add: dv_inv_def dv_img_def)
    ultimately show ?thesis
      using SeekCall False uint_word_of_nonneg [of ?t] by (intro exI [of _ ?dv]) (simp add: file_of_def Let_def)
  qed
qed

end

text \<open>The calls are functions: a request in a state has at most one response and successor.\<close>

lemma dv_step_deterministic:
  "dv_step C oc ops dv q a dv1 \<Longrightarrow> dv_step C oc ops dv q b dv2 \<Longrightarrow> a = b \<and> dv1 = dv2"
  by (cases q) (auto elim!: read_stepE seek_stepE)

context image_reader
begin

lemma session_file:
  assumes "dv_session C oc ops dv tr dv'" and "dv_inv inv img dv"
  shows "dv_inv inv img dv' \<and> file_run (file_of C img dv) (map fst tr) = (map snd tr, file_of C img dv')"
  using assms
proof (induction rule: dv_session.induct)
  case (session_step dv tr dv1 q a dv2)
  from session_step.IH [OF session_step.prems] have i: "dv_inv inv img dv1"
    and run: "file_run (file_of C img dv) (map fst tr) = (map snd tr, file_of C img dv1)"
    by blast+
  from dv_step_file [OF i, of C oc q] obtain dw where
    dw: "dv_step C oc ops dv1 q (fst (file_respond (file_of C img dv1) q)) dw" "dv_inv inv img dw"
      "file_of C img dw = snd (file_respond (file_of C img dv1) q)"
    by blast
  from dv_step_deterministic [OF session_step.hyps(2) dw(1)] dw(2,3) run show ?case
    by (simp add: file_run_snoc)
qed simp

lemma session_exists:
  assumes "dv_inv inv img dv"
  shows "\<exists>dv'. dv_session C oc ops dv (zip qs (fst (file_run (file_of C img dv) qs))) dv'"
proof (induction qs rule: rev_induct)
  case Nil
  then show ?case
    by (auto intro: dv_session.session_start)
next
  case (snoc q qs)
  then obtain dv1 where s: "dv_session C oc ops dv (zip qs (fst (file_run (file_of C img dv) qs))) dv1"
    by blast
  then have "dv_inv inv img dv1" "file_of C img dv1 = snd (file_run (file_of C img dv) qs)"
    using session_file [OF s assms] by (simp_all add: prod_eq_iff)
  with dv_step_file [of dv1 C oc q] dv_session.session_step [OF s] show ?case
    by (fastforce simp: file_run_snoc)
qed

end

section \<open>Properties\<close>

lemma demo_volume_ok:
  "cursor_inv (dv_reader demo_volume)" "safe_layout (dv_metadata demo_volume)"
  "dv_total_size demo_volume = word_of_nat (length (cur_data (dv_reader demo_volume)))"
  using demo_volume_inv(1) by (simp_all add: dv_inv_def)

text \<open>
  Property C4.  The sessions of a decrypted volume whose metadata has a safe layout are those of a file
  that holds its plaintext: a sequence of reads and seeks gets exactly the responses the file gives, every
  request gets one (under this layout no call panics or hangs), and after the session the volume still
  satisfies its invariant and corresponds to the file's state.
\<close>

theorem session_refines_plain_file:
  assumes "image_reader ops ok img pos patience" and "ok (dv_reader dv)" and "safe_layout (dv_metadata dv)"
    and "dv_total_size dv = word_of_nat (length (img (dv_reader dv)))"
  shows "((\<exists>dv'. dv_session C oc ops dv tr dv') \<longleftrightarrow> map snd tr = fst (file_run (file_of C img dv) (map fst tr)))
    \<and> (\<forall>dv'. dv_session C oc ops dv tr dv' \<longrightarrow>
         dv_inv ok img dv' \<and> file_of C img dv' = snd (file_run (file_of C img dv) (map fst tr)))"
proof -
  have inv: "dv_inv ok img dv"
    using assms(2-4) by (simp add: dv_inv_def)
  show ?thesis
    using image_reader.session_file [OF assms(1) _ inv, of C oc tr]
      image_reader.session_exists [OF assms(1) inv, of C oc "map fst tr"]
    by (auto simp: zip_map_fst_snd) (metis zip_map_fst_snd)
qed

theorem session_refines_plain_file_witness:
  "\<exists>dv'. dv_session demo True cursor_ops demo_volume
     [(SeekCall (SeekEnd (- 2)), At 1022), (ReadCall 5, Data [7, 7]), (SeekCall (SeekCurrent (- 2000)), Failed SEEK_BEFORE_START),
      (ReadCall 5, Data [])] dv'"
proof -
  have "length (dv_img demo cur_data demo_volume) = 1024"
    by (simp add: dv_img_def demo_volume_def)
  moreover have "drop 1022 (dv_img demo cur_data demo_volume)
      = view demo (dv_cipher demo_volume) demo_metadata (replicate 1024 7) 1022 2"
    using take_drop_view [of 1022 2 1024 demo "dv_cipher demo_volume" demo_metadata "replicate 1024 7" 0]
    by (simp add: dv_img_def demo_volume_def cursor_of_def)
  then have "drop 1022 (dv_img demo cur_data demo_volume) = [7, 7]"
    by (simp add: view_def view_byte_def view_sector_def sector_at_def blanked_def physical_of_def stored_plain_def
        demo_metadata_def fit_def)
  ultimately show ?thesis
    using session_refines_plain_file [OF cur.image_reader_axioms demo_volume_ok, of demo True
      "[(SeekCall (SeekEnd (- 2)), At 1022), (ReadCall 5, Data [7, 7]), (SeekCall (SeekCurrent (- 2000)), Failed SEEK_BEFORE_START),
      (ReadCall 5, Data [])]"]
    by (simp add: file_of_def Let_def demo_volume_def)
qed

text \<open>
  Property C15.  Sequential reading gets to the end: on a volume whose metadata has a safe layout, any
  sequence of reads whose buffers add up to what is left runs to completion without an error, its pieces
  are, in order, exactly the rest of the plaintext, and every read after it returns nothing.
\<close>

theorem sequential_reads_reach_end:
  assumes "image_reader ops ok img pos patience" and "ok (dv_reader dv)" and "safe_layout (dv_metadata dv)"
    and "dv_total_size dv = word_of_nat (length (img (dv_reader dv)))"
    and "unat (dv_total_size dv) - unat (dv_position dv) \<le> sum_list ns"
  shows "\<exists>tr dv'. dv_session C oc ops dv tr dv' \<and> map fst tr = map ReadCall ns
    \<and> (\<forall>a \<in> set (map snd tr). \<exists>d. a = Data d)
    \<and> concat (map (case_response id (\<lambda>_. []) (\<lambda>_. [])) (map snd tr)) = drop (unat (dv_position dv)) (dv_img C img dv)
    \<and> (\<forall>n a dv2. dv_step C oc ops dv' (ReadCall n) a dv2 \<longrightarrow> a = Data [])"
proof -
  have inv: "dv_inv ok img dv"
    using assms(2-4) by (simp add: dv_inv_def)
  let ?f = "file_of C img dv"
  obtain as f' where run: "file_run ?f (map ReadCall ns) = (as, f')"
    by fastforce
  then have len: "length as = length ns"
    using length_file_run [of ?f "map ReadCall ns"] by simp
  obtain dv' where s: "dv_session C oc ops dv (zip (map ReadCall ns) as) dv'"
    using image_reader.session_exists [OF assms(1) inv, of C oc "map ReadCall ns"] run by auto
  have inv': "dv_inv ok img dv'" and f': "file_of C img dv' = f'"
    using image_reader.session_file [OF assms(1) s inv] run len by simp_all
  note reads = file_run_reads [OF run]
  have rest: "drop (pf_pos f') (pf_bytes f') = []" "take (sum_list ns) (drop (pf_pos ?f) (pf_bytes ?f)) = drop (pf_pos ?f) (pf_bytes ?f)"
    using reads assms(5) by (simp_all add: file_of_def dv_img_def)
  have "a = Data []" if "dv_step C oc ops dv' (ReadCall n) a dv2" for n a dv2
    using image_reader.dv_step_file [OF assms(1) inv', of C oc "ReadCall n"] dv_step_deterministic [OF that] rest(1)
    by (auto simp: f' Let_def)
  with s reads rest len show ?thesis
    by (intro exI [of _ "zip (map ReadCall ns) as"] exI [of _ dv']) (simp add: file_of_def)
qed

theorem sequential_reads_reach_end_witness:
  "\<exists>tr dv'. dv_session demo True cursor_ops demo_volume tr dv' \<and> map fst tr = map ReadCall [100, 1000]
    \<and> concat (map (case_response id (\<lambda>_. []) (\<lambda>_. [])) (map snd tr)) = dv_img demo cur_data demo_volume"
proof -
  have "unat (dv_total_size demo_volume) - unat (dv_position demo_volume) \<le> sum_list [100, 1000]"
    by (simp add: demo_volume_def)
  from sequential_reads_reach_end [OF cur.image_reader_axioms demo_volume_ok this, of demo True] show ?thesis
    by (auto simp: demo_volume_def)
qed

end
