(* ===== verification/Faults.thy ===== *)
theory Faults
  imports ReadPath
begin

text \<open>
  I/O failures.  \<open>failing ops e\<close> is a reader that works like \<open>ops\<close> for a number of calls and from then on
  answers every call with the hard error \<open>e\<close> (a medium that goes away).  Whatever the moment of the
  failure, the operations of \<^verbatim>\<open>core/src/volume.rs\<close> either do what they would have done on the intact reader
  or return that error: no failure is swallowed, retried for ever, or turned into other bytes.
\<close>

section \<open>A reader that fails\<close>

definition failing :: "'r reader_ops \<Rightarrow> io_error \<Rightarrow> ('r \<times> nat) reader_ops" where
  "failing ops e =
     \<lparr>read_op = (\<lambda>(r, k) n. if k = 0 then Some (Err e, (r, 0))
                            else map_option (\<lambda>(x, r'). (x, (r', k - 1))) (read_op ops r n)),
      seek_op = (\<lambda>(r, k) p. if k = 0 then Some (Err e, (r, 0))
                            else map_option (\<lambda>(x, r'). (x, (r', k - 1))) (seek_op ops r p))\<rparr>"

text \<open>
  A call on the failing reader follows one on the intact reader: same outcome, or the error.  \<open>emb\<close>
  puts the number of calls left into the state the call works on, a reader or a volume over one.
\<close>

definition follows :: "('s \<Rightarrow> nat \<Rightarrow> 't) \<Rightarrow> 'e \<Rightarrow> ('e, 'a, 's) io \<Rightarrow> ('e, 'a, 't) io \<Rightarrow> bool" where
  "follows emb e m m' \<longleftrightarrow>
     (\<forall>x s. m = Some (x, s) \<longrightarrow> (\<exists>t. m' = Some (Err e, t)) \<or> (\<exists>k. m' = Some (x, emb s k)))"

definition with_reader :: "'s \<Rightarrow> 'r decrypted_volume \<Rightarrow> 's decrypted_volume" where
  "with_reader s dv = \<lparr>dv_reader = s, dv_cipher = dv_cipher dv, dv_metadata = dv_metadata dv,
     dv_total_size = dv_total_size dv, dv_position = dv_position dv\<rparr>"

definition failing_volume :: "'r decrypted_volume \<Rightarrow> nat \<Rightarrow> ('r \<times> nat) decrypted_volume" where
  "failing_volume dv k = with_reader (dv_reader dv, k) dv"

lemma follows_pure: "follows emb e (pure_io x s) (pure_io x (emb s k))"
  by (auto simp: follows_def pure_io_def)

lemma follows_bind:
  assumes "follows emb e m m'" and "\<And>a s k. m = Some (Ok a, s) \<Longrightarrow> follows emb e (f a s) (f' a (emb s k))"
  shows "follows emb e (bind_io m f) (bind_io m' f')"
proof (cases m)
  case (Some p)
  then obtain x s where m: "m = Some (x, s)"
    by (cases p) auto
  with assms(1) consider t where "m' = Some (Err e, t)" | k where "m' = Some (x, emb s k)"
    unfolding follows_def by blast
  then show ?thesis
  proof cases
    case (2 k)
    then show ?thesis
      using m assms(2) by (cases x) (auto simp: follows_def)
  qed (simp add: follows_def)
qed (simp add: follows_def)

lemma follows_bde: "follows emb e m m' \<Longrightarrow> follows emb (Io e) (bde_io m) (bde_io m')"
  unfolding follows_def bde_io_def map_io_err_def by fastforce

lemma follows_seek: "follows Pair e (seek_op ops r p) (seek_op (failing ops e) (r, k) p)"
  by (auto simp: follows_def failing_def)

lemma follows_fill:
  assumes "io_kind_of e \<noteq> Interrupted"
  shows "follows Pair e (fill_loop ops r n filled) (fill_loop (failing ops e) (r, k) n filled)"
proof -
  let ?P = "\<lambda>ops r n filled y. \<forall>k. (\<exists>s. fill_loop (failing ops e) (r, k) n filled = Some (Err e, s))
      \<or> (\<exists>j. fill_loop (failing ops e) (r, k) n filled = Some (fst y, (snd y, j)))"
  have "?P ops r n filled y" if "fill_loop ops r n filled = Some y" for y
  proof (rule fill_loop.raw_induct [where P = ?P, OF _ that], intro allI)
    fix loop and ops :: "'r reader_ops" and r n filled y k
    assume IH: "\<And>ops r n filled y. loop ops r n filled = Some y \<Longrightarrow> ?P ops r n filled y"
      and body: "(if length filled < n
        then Option.bind (read_op ops r (n - length filled)) (\<lambda>(res, r').
          case res of
            Ok d \<Rightarrow> if d = [] then Some (Ok filled, r') else loop ops r' n (filled @ d)
          | Err e \<Rightarrow> if io_kind_of e = Interrupted then loop ops r' n filled else Some (Err e, r')
          | Panic \<Rightarrow> Some (Panic, r'))
        else Some (Ok filled, r)) = Some y"
    show "(\<exists>s. fill_loop (failing ops e) (r, k) n filled = Some (Err e, s))
      \<or> (\<exists>j. fill_loop (failing ops e) (r, k) n filled = Some (fst y, (snd y, j)))"
    proof (cases "length filled < n \<and> 0 < k")
      case False
      then show ?thesis
        using body assms by (subst (1 2) fill_loop.simps) (auto simp: failing_def)
    next
      case True
      then obtain j where k: "k = Suc j"
        by (cases k) auto
      obtain res r' where rd: "read_op ops r (n - length filled) = Some (res, r')"
        and step: "(case res of Ok d \<Rightarrow> if d = [] then Some (Ok filled, r') else loop ops r' n (filled @ d)
            | Err er \<Rightarrow> if io_kind_of er = Interrupted then loop ops r' n filled else Some (Err er, r')
            | Panic \<Rightarrow> Some (Panic, r')) = Some y"
        using True body by (auto simp: bind_eq_Some_conv)
      have rd': "read_op (failing ops e) (r, k) (n - length filled) = Some (res, (r', j))"
        using rd k by (simp add: failing_def)
      show ?thesis
        using True step IH rd' by (subst (1 2) fill_loop.simps) (auto split: outcome.splits if_splits)
    qed
  qed
  then show ?thesis
    unfolding follows_def by (metis fst_conv snd_conv)
qed

section \<open>The operations\<close>

lemma follows_read_available:
  "io_kind_of e \<noteq> Interrupted \<Longrightarrow> follows Pair (Io e) (read_available ops r n) (read_available (failing ops e) (r, k) n)"
  unfolding read_available_def
  by (rule follows_bind [OF follows_bde [OF follows_fill]]) (simp_all add: follows_pure)

lemma follows_read_fill:
  "io_kind_of e \<noteq> Interrupted \<Longrightarrow> follows Pair (Io e) (read_fill ops r n) (read_fill (failing ops e) (r, k) n)"
  unfolding read_fill_def read_exact_def
  by (rule follows_bde, rule follows_bind [OF follows_fill]) (simp_all add: follows_pure)

lemmas follows_intros = follows_bind follows_bde follows_seek follows_read_available follows_read_fill follows_pure

lemma follows_try_offsets:
  assumes "io_kind_of e \<noteq> Interrupted"
  shows "follows Pair (Io e) (try_offsets ops r bps offs rest) (try_offsets (failing ops e) (r, k) bps offs rest)"
proof (induction rest arbitrary: r k)
  case (Cons off rest)
  show ?case
    unfolding try_offsets.simps by (auto intro!: follows_intros assms Cons split: option.splits)
qed (simp add: follows_pure)

lemma follows_read_metadata:
  "io_kind_of e \<noteq> Interrupted \<Longrightarrow> follows Pair (Io e) (read_metadata ops r) (read_metadata (failing ops e) (r, k))"
  unfolding read_metadata_def by (intro follows_intros follows_try_offsets)

lemma follows_on_reader:
  "follows Pair er m m' \<Longrightarrow> follows failing_volume er (on_reader dv m) (on_reader (failing_volume dv k) m')"
  unfolding follows_def on_reader_def failing_volume_def with_reader_def by fastforce

lemma failing_volume_fields:
  "dv_reader (failing_volume dv k) = (dv_reader dv, k)" "dv_cipher (failing_volume dv k) = dv_cipher dv"
  "dv_metadata (failing_volume dv k) = dv_metadata dv" "dv_total_size (failing_volume dv k) = dv_total_size dv"
  "dv_position (failing_volume dv k) = dv_position dv"
  by (simp_all add: failing_volume_def with_reader_def)

text \<open>An unlock returns a volume over the reader it leaves: what it finds out, and then the volume.\<close>

definition unlock_parts ::
    "primitives \<Rightarrow> 'r reader_ops \<Rightarrow> 'r \<Rightarrow> u16 \<Rightarrow> string \<Rightarrow> vmk_unwrap \<Rightarrow> (bde_error, fve_metadata \<times> sector_cipher \<times> u64, 'r) io" where
  "unlock_parts C ops r prot name unw =
     bind_io (read_metadata ops r) (\<lambda>m r1.
     bind_io (pure_io (ok_or (EncryptionMethod_decode (encryption_method m)) (UnsupportedEncryptionMethod (encryption_method m))) r1) (\<lambda>axes r2.
     bind_io (pure_io (ok_or (validated_kind axes) (UnvalidatedEncryptionMethod (encryption_method m))) r2) (\<lambda>kind r3.
     bind_io (pure_io (derive_cipher C m kind prot name unw) r3) (\<lambda>cipher r4.
     bind_io (bde_io (seek_op ops r4 (SeekEnd 0))) (\<lambda>t r5. pure_io (Ok (m, cipher, t)) r5)))))"

lemma bind_io_assoc: "bind_io (bind_io m f) g = bind_io m (\<lambda>a r. bind_io (f a r) g)"
  by (auto simp: bind_io_def split: option.splits outcome.splits)

lemma unlock_from_parts:
  "unlock C ops r prot name unw = bind_io (unlock_parts C ops r prot name unw) (\<lambda>(m, cipher, t) r'.
     pure_io (Ok \<lparr>dv_reader = r', dv_cipher = cipher, dv_metadata = m, dv_total_size = t, dv_position = 0\<rparr>) r')"
  by (simp add: unlock_def unlock_parts_def bind_io_assoc Let_def)

lemma unlock_failing:
  assumes "io_kind_of e \<noteq> Interrupted" and "unlock C ops r prot name unw = Some (x, r')"
  shows "(\<exists>s. unlock C (failing ops e) (r, k) prot name unw = Some (Err (Io e), s))
    \<or> (\<exists>j. unlock C (failing ops e) (r, k) prot name unw
          = Some (bind_outcome x (\<lambda>dv. Ok (failing_volume dv j)), (r', j)))"
proof -
  have "follows Pair (Io e) (unlock_parts C ops r prot name unw) (unlock_parts C (failing ops e) (r, k) prot name unw)"
    unfolding unlock_parts_def by (intro follows_intros follows_read_metadata assms(1))
  with assms(2) show ?thesis
    unfolding unlock_from_parts follows_def bind_io_Some_iff
    by (fastforce simp: pure_io_def failing_volume_def with_reader_def)
qed

lemma follows_decrypt:
  assumes "io_kind_of e \<noteq> Interrupted"
  shows "follows failing_volume (Io e) (decrypt_logical_sector C oc ops dv s)
    (decrypt_logical_sector C oc (failing ops e) (failing_volume dv k) s)"
  unfolding decrypt_logical_sector_def Let_def failing_volume_fields
  by (intro follows_bind follows_pure)
    (auto intro!: follows_intros follows_on_reader assms simp: failing_volume_fields)

lemma follows_read_at_loop:
  assumes "io_kind_of e \<noteq> Interrupted"
  shows "follows failing_volume (Io e) (read_at_loop C oc ops dv offset len don out)
    (read_at_loop C oc (failing ops e) (failing_volume dv k) offset len don out)"
proof (induction "len - don" arbitrary: dv don out k rule: less_induct)
  case less
  have "unat (p - (p - p mod 512)) < SECTOR_SIZE" for p :: u64
    using within_sector [of p] by simp
  then have "len - (don + min (SECTOR_SIZE - unat (p - (p - p mod 512))) (len - don)) < len - don" if "don < len" for p :: u64
    using chunk_bounds [of "unat (p - (p - p mod 512))" SECTOR_SIZE don len] that by (metis diff_less_mono2 less_add_same_cancel1)
  then show ?case
    by (subst (1 2) read_at_loop.simps)
      (auto simp: Let_def intro!: follows_bind follows_pure follows_decrypt [OF assms] less)
qed

section \<open>Properties\<close>

text \<open>
  Property C13.  I/O failures surface.  On a reader that fails from some call on with a hard error,
  unlocking and reading end, if they end on the intact reader, and end with that error or with exactly
  what they give there: the same volume or error, and the same bytes.
\<close>

theorem io_failures_surface:
  assumes "io_kind_of e \<noteq> Interrupted"
  shows "(\<forall>x r'. unlock C ops r prot name unw = Some (x, r') \<longrightarrow>
        (\<exists>s. unlock C (failing ops e) (r, k) prot name unw = Some (Err (Io e), s))
        \<or> (\<exists>j. unlock C (failing ops e) (r, k) prot name unw
              = Some (bind_outcome x (\<lambda>dv. Ok (failing_volume dv j)), (r', j))))
    \<and> (\<forall>x dv'. read_at C oc ops dv offset len = Some (x, dv') \<longrightarrow>
        (\<exists>s. read_at C oc (failing ops e) (failing_volume dv k) offset len = Some (Err (Io e), s))
        \<or> (\<exists>j. read_at C oc (failing ops e) (failing_volume dv k) offset len = Some (x, failing_volume dv' j)))"
  using follows_read_at_loop [OF assms, of C oc ops dv offset len 0 "[]" k]
  by (intro conjI allI impI unlock_failing [OF assms]) (simp_all add: read_at_def follows_def)

text \<open>A medium that goes away before the first call.\<close>

theorem io_failures_surface_witness:
  "\<exists>s. read_at demo True (failing cursor_ops EOF_ERROR) (failing_volume demo_volume 0) 600 3 = Some (Err (Io EOF_ERROR), s)"
proof -
  obtain dv' where "read_at demo True cursor_ops demo_volume 600 3
      = Some (Ok (view demo (dv_cipher demo_volume) demo_metadata (cur_data (dv_reader demo_volume)) 600 3), dv')"
    using cur.read_at_image [of demo_volume 600 3 demo True] demo_volume_inv by (auto simp: dv_inv_def demo_volume_def)
  moreover have "io_kind_of EOF_ERROR \<noteq> Interrupted"
    by (simp add: EOF_ERROR_def)
  note surface = io_failures_surface [OF this, of demo cursor_ops _ _ _ _ _ True demo_volume 600 3]
  have "decrypt_logical_sector demo True (failing cursor_ops EOF_ERROR) (failing_volume demo_volume 0) 512
      = Some (Err (Io EOF_ERROR), failing_volume demo_volume 0)"
    by (simp add: decrypt_logical_sector_def failing_volume_fields demo_volume_def demo_metadata_def pure_io_def failing_def
        failing_volume_def with_reader_def)
  then have "read_at demo True (failing cursor_ops EOF_ERROR) (failing_volume demo_volume 0) 600 3 \<noteq> Some (Ok bs, d)" for bs d
    by (simp add: read_at_def read_at_loop.simps pure_io_def add_u64_def)
  ultimately show ?thesis
    using surface [of _ _ _ _ 0] by blast
qed

end
