(* ===== verification/Fuzz.thy ===== *)
theory Fuzz
  imports Volume
begin

text \<open>
  The fuzz target \<^verbatim>\<open>core/fuzz/fuzz_targets/fuzz_metadata.rs\<close>: every parser on the same arbitrary bytes, and
  the metadata read path on a cursor over them.  Its invariant, that nothing panics, is proved for all
  inputs, and with it that the run ends.
\<close>

text \<open>\<^verbatim>\<open>let _ = ...\<close>: the result is dropped, a panic is not.\<close>

fun discard :: "('e, 'a) outcome \<Rightarrow> (bde_error, unit) outcome" where
  "discard Panic = Panic"
| "discard _ = Ok ()"

fun fuzz_entries :: "metadata_entry list \<Rightarrow> (bde_error, unit) outcome" where
  "fuzz_entries [] = Ok ()"
| "fuzz_entries (e # es) =
     (let _ = protection_type e
      in bind_outcome (discard (nested e 28 :: (bde_error, metadata_entry list) outcome)) (\<lambda>_. fuzz_entries es))"

definition fuzz_metadata :: "bytes \<Rightarrow> (bde_error, unit, cursor) io" where
  "fuzz_metadata dat =
     bind_io (pure_io (discard (VolumeHeader_parse dat)) (cursor_of dat)) (\<lambda>_ c.
     bind_io (pure_io (discard (FveMetadata_parse dat 512 :: (bde_error, fve_metadata option) outcome)) c) (\<lambda>_ c.
     bind_io (pure_io (fuzz_entries (parse_sequence dat)) c) (\<lambda>_ c.
       map_option (\<lambda>(x, c'). (discard x, c')) (read_metadata cursor_ops c))))"

lemma discard_Ok: "x \<noteq> Panic \<Longrightarrow> discard x = Ok ()"
  by (cases x) simp_all

lemma fuzz_entries_Ok: "fuzz_entries es = Ok ()"
  by (induction es) (simp_all add: nested_eq)

section \<open>Property\<close>

text \<open>
  Property C16.  Untrusted bytes never panic or hang a parser: on every buffer a program can hold, the
  header parser, the block parser, the entry loop, nested entries and the whole metadata read path all
  return.
\<close>

theorem fuzz_target_never_panics:
  assumes "length dat < 2 ^ 63"
  shows "\<exists>c. fuzz_metadata dat = Some (Ok (), c)"
proof -
  have "cursor_inv (cursor_of dat)"
    using assms by (simp add: cursor_inv_def cursor_of_def)
  from cur.read_metadata_image [OF this]
  obtain c where "read_metadata cursor_ops (cursor_of dat) = Some (image_metadata dat, c)"
    by (auto simp: cursor_of_def)
  moreover have "discard (FveMetadata_parse dat 512 :: (bde_error, fve_metadata option) outcome) = Ok ()"
    by (subst parse_result) simp
  ultimately show ?thesis
    by (simp add: fuzz_metadata_def discard_Ok header_no_panic image_metadata_no_panic fuzz_entries_Ok)
qed

theorem fuzz_target_never_panics_witness:
  "\<exists>c. fuzz_metadata (replicate 3 0xff @ SIG_FVE) = Some (Ok (), c)"
  by (rule fuzz_target_never_panics) simp

end
