(* ===== verification/Guid.thy ===== *)
theory Guid
  imports Bytes Fmt
begin

text \<open>
  \<^verbatim>\<open>core/src/guid.rs\<close>: a Microsoft GUID stores its first three fields little-endian and its last
  eight bytes in order.  \<open>format_guid\<close> is the code's rendering; \<open>guid_text\<close> is the reference it is
  proved equal to, a permutation of the bytes with dashes.
\<close>

section \<open>The code\<close>

fun format_tail :: "nat \<Rightarrow> bytes \<Rightarrow> string" where
  "format_tail i [] = []"
| "format_tail i (b # bs) =
     (if i = 2 then ''-'' else []) @ fmt_hex 2 (unat b) @ format_tail (Suc i) bs"

definition format_guid :: "bytes \<Rightarrow> string" where
  "format_guid raw =
     (let d1 = le_u32 raw 0; d2 = le_u16 raw 4; d3 = le_u16 raw 6;
          tail = format_tail 0 (take 8 (drop 8 raw))
      in fmt_hex 8 (unat d1) @ ''-'' @ fmt_hex 4 (unat d2) @ ''-'' @ fmt_hex 4 (unat d3) @ ''-'' @ tail)"

section \<open>The reference\<close>

definition hex_bytes :: "bytes \<Rightarrow> string" where
  "hex_bytes bs = concat (map hex2 bs)"

definition guid_text :: "bytes \<Rightarrow> string" where
  "guid_text raw =
     hex_bytes (rev (take 4 raw)) @ ''-'' @ hex_bytes (rev (take 2 (drop 4 raw))) @ ''-''
     @ hex_bytes (rev (take 2 (drop 6 raw))) @ ''-'' @ hex_bytes (take 2 (drop 8 raw)) @ ''-''
     @ hex_bytes (drop 10 raw)"

section \<open>Lemmas\<close>

lemma fmt_hex_2: "fmt_hex 2 (unat (b :: u8)) = hex2 b"
  using unsigned_less [of b, where 'a = nat] by (simp add: hex2_def fmt_hex_eq_fixed)

lemma length_hex_bytes [simp]: "length (hex_bytes bs) = 2 * length bs"
  by (induction bs) (simp_all add: hex_bytes_def)

lemma hex_bytes_inj: "hex_bytes xs = hex_bytes ys \<Longrightarrow> length xs = length ys \<Longrightarrow> xs = ys"
proof (induction xs ys rule: list_induct2')
  case (4 x xs y ys)
  then have "hex2 x = hex2 y" and "hex_bytes xs = hex_bytes ys"
    by (simp_all add: hex_bytes_def)
  with 4 show ?case
    by (simp add: hex2_inj)
qed simp_all

lemma fmt_hex_from_le:
  assumes "8 * length bs = LENGTH('a::len)" and "bs \<noteq> []"
  shows "fmt_hex (2 * length bs) (unat (from_le bs :: 'a word)) = hex_bytes (rev bs)"
proof -
  have "(256 :: nat) ^ length bs = 2 ^ LENGTH('a)" and "(16 :: nat) ^ (2 * length bs) = 256 ^ length bs"
    using pow256_bytes [of "LENGTH('a)"] by (simp_all add: power_mult flip: assms(1))
  moreover have "unat (from_le bs :: 'a word) = le_nat bs"
    using calculation le_nat_less [of bs] by (simp add: from_le_def unat_of_nat)
  ultimately show ?thesis
    using le_nat_less [of bs] assms(2)
    by (simp add: fmt_hex_eq_fixed hex_fixed_le_nat hex_bytes_def)
qed

lemma guid_16_cases:
  assumes "length raw = 16"
  obtains a b c d e f g h i j tl where "raw = [a, b, c, d, e, f, g, h, i, j] @ tl" and "length tl = 6"
proof -
  have "raw = take 10 raw @ drop 10 raw" and "length (drop 10 raw) = 6"
    using assms by simp_all
  moreover have "take 10 raw = map ((!) raw) [0..<10]"
    using assms by (simp add: list_eq_iff_nth_eq)
  ultimately have "raw = map ((!) raw) [0..<10] @ drop 10 raw" and "length (drop 10 raw) = 6"
    by simp_all
  then show ?thesis
    using that by (simp add: upt_rec)
qed

lemma format_tail_eq: "2 < i \<Longrightarrow> format_tail i bs = hex_bytes bs"
  by (induction i bs rule: format_tail.induct) (simp_all add: fmt_hex_2 hex_bytes_def)

lemma format_guid_eq:
  assumes "length raw = 16"
  shows "format_guid raw = guid_text raw"
proof -
  obtain a b c d e f g h i j tl where raw: "raw = [a, b, c, d, e, f, g, h, i, j] @ tl" and tl: "length tl = 6"
    using assms by (rule guid_16_cases)
  have "le_u32 raw 0 = from_le [a, b, c, d]" and "le_u16 raw 4 = from_le [e, f]"
    and "le_u16 raw 6 = from_le [g, h]"
    using tl by (simp_all add: raw le32.rd_eq le16.rd_eq)
  moreover have "format_tail 0 (take 8 (drop 8 raw)) = hex_bytes [i, j] @ ''-'' @ hex_bytes tl"
  proof -
    have "take 8 (drop 8 raw) = i # j # tl"
      using tl by (simp add: raw)
    then show ?thesis
    proof (cases tl)
      case (Cons k ks)
      then show ?thesis
        using \<open>take 8 (drop 8 raw) = i # j # tl\<close>
        by (simp add: fmt_hex_2 format_tail_eq hex_bytes_def)
    qed (use tl in simp)
  qed
  moreover have "fmt_hex 8 (unat (from_le [a, b, c, d] :: u32)) = hex_bytes [d, c, b, a]"
    and "fmt_hex 4 (unat (from_le [e, f] :: u16)) = hex_bytes [f, e]"
    and "fmt_hex 4 (unat (from_le [g, h] :: u16)) = hex_bytes [h, g]"
    using fmt_hex_from_le [of "[a, b, c, d]", where 'a = 32] fmt_hex_from_le [of "[e, f]", where 'a = 16]
      fmt_hex_from_le [of "[g, h]", where 'a = 16] by simp_all
  ultimately show ?thesis
    by (simp add: format_guid_def guid_text_def raw)
qed

lemma format_guid_injective:
  assumes "length g = 16" and "length h = 16"
  shows "format_guid g = format_guid h \<longleftrightarrow> g = h"
proof
  assume "format_guid g = format_guid h"
  then have "guid_text g = guid_text h"
    using assms by (simp flip: format_guid_eq)
  then have "hex_bytes (rev (take 4 g)) = hex_bytes (rev (take 4 h))"
    and "hex_bytes (rev (take 2 (drop 4 g))) = hex_bytes (rev (take 2 (drop 4 h)))"
    and "hex_bytes (rev (take 2 (drop 6 g))) = hex_bytes (rev (take 2 (drop 6 h)))"
    and "hex_bytes (take 2 (drop 8 g)) = hex_bytes (take 2 (drop 8 h))"
    and "hex_bytes (drop 10 g) = hex_bytes (drop 10 h)"
    using assms by (simp_all add: guid_text_def)
  then have "take 4 g = take 4 h" and "take 2 (drop 4 g) = take 2 (drop 4 h)"
    and "take 2 (drop 6 g) = take 2 (drop 6 h)" and "take 2 (drop 8 g) = take 2 (drop 8 h)"
    and "drop 10 g = drop 10 h"
    using assms by (auto dest!: hex_bytes_inj)
  moreover have split: "xs = take 4 xs @ take 2 (drop 4 xs) @ take 2 (drop 6 xs) @ take 2 (drop 8 xs) @ drop 10 xs"
    if "length xs = 16" for xs :: bytes
    using that by (rule guid_16_cases) (simp add: numeral_eq_Suc)
  ultimately show "g = h"
    using assms(1,2) split [of g] split [of h] by metis
qed simp

section \<open>Properties\<close>

text \<open>
  Property C40.  For every 16-byte GUID the code's rendering is the canonical mixed-endian
  8-4-4-4-12 text: the first three fields printed byte-reversed, the rest in order.  It identifies the
  GUID: two GUIDs with the same text are equal.
\<close>

theorem format_guid_canonical:
  assumes "length raw = 16" and "length raw' = 16"
  shows "format_guid raw = guid_text raw \<and> length (format_guid raw) = 36
    \<and> (format_guid raw = format_guid raw' \<longleftrightarrow> raw = raw')"
  using assms format_guid_injective [OF assms] by (simp add: format_guid_eq guid_text_def)

theorem format_guid_canonical_witness:
  "format_guid [0x3b, 0xd6, 0x67, 0x49, 0x29, 0x2e, 0xd8, 0x4a, 0x83, 0x99, 0xf6, 0xa3, 0x39, 0xe3, 0xd0, 0x01]
   = ''4967d63b-2e29-4ad8-8399-f6a339e3d001''"
  using format_guid_canonical
    [of "[0x3b, 0xd6, 0x67, 0x49, 0x29, 0x2e, 0xd8, 0x4a, 0x83, 0x99, 0xf6, 0xa3, 0x39, 0xe3, 0xd0, 0x01]" "replicate 16 0"]
  by (simp add: guid_text_def hex_bytes_def hex2_eq digit_char_def)

end
