(* ===== verification/ParserTests.thy ===== *)
theory ParserTests
  imports Guid Metadata Method Crypto
begin

text \<open>
  The unit tests of the parsers (\<^verbatim>\<open>bytes.rs\<close>, \<^verbatim>\<open>guid.rs\<close>, \<^verbatim>\<open>header.rs\<close>, \<^verbatim>\<open>method.rs\<close>, \<^verbatim>\<open>metadata.rs\<close> and the
  rejection test of \<^verbatim>\<open>crypto.rs\<close> under \<^verbatim>\<open>core/src\<close>), each as the conjunction of its assertions over the
  model.  That the model passes them ties its definitions to the behaviour the repository itself checks
  the code for; the general statements about the parsers are in their own theories.
\<close>

section \<open>Assertions\<close>

text \<open>\<^verbatim>\<open>unwrap\<close> followed by assertions on the value; \<^verbatim>\<open>unwrap_err\<close> likewise.\<close>

fun unwrapped :: "('e, 'a) outcome \<Rightarrow> ('a \<Rightarrow> bool) \<Rightarrow> bool" where
  "unwrapped (Ok a) P = P a"
| "unwrapped _ P = False"

fun unwrapped_err :: "('e, 'a) outcome \<Rightarrow> ('e \<Rightarrow> bool) \<Rightarrow> bool" where
  "unwrapped_err (Err e) P = P e"
| "unwrapped_err _ P = False"

section \<open>bytes.rs and guid.rs\<close>

definition readers_yield_zero_out_of_range :: bool where
  "readers_yield_zero_out_of_range \<longleftrightarrow>
     (let b = [1, 2, 3]
      in le_u16 b 0 = 0x0201 \<and> le_u16 b 10 = 0 \<and> le_u32 b 0 = 0 \<and> le_u64 b 0 = 0 \<and> read_guid b 0 = replicate 16 0)"

definition le_u32_and_u64_in_range :: bool where
  "le_u32_and_u64_in_range \<longleftrightarrow> (let b = [1, 0, 0, 0, 0, 0, 0, 0] in le_u32 b 0 = 1 \<and> le_u64 b 0 = 1)"

definition read_guid_in_range :: bool where
  "read_guid_in_range \<longleftrightarrow> (let b = (replicate 16 0)[0 := 0xAA] in read_guid b 0 ! 0 = 0xAA)"

definition slice_owned_truncates :: bool where
  "slice_owned_truncates \<longleftrightarrow>
     (let b = [1, 2, 3, 4]
      in slice_owned b 1 2 = [2, 3] \<and> slice_owned b 2 100 = [3, 4] \<and> slice_owned b 100 4 = [])"

definition formats_mixed_endian_guid :: bool where
  "formats_mixed_endian_guid \<longleftrightarrow>
     format_guid [0x3b, 0xd6, 0x67, 0x49, 0x29, 0x2e, 0xd8, 0x4a, 0x83, 0x99, 0xf6, 0xa3, 0x39, 0xe3, 0xd0, 0x01]
       = ''4967d63b-2e29-4ad8-8399-f6a339e3d001''"

definition formats_zero_guid :: bool where
  "formats_zero_guid \<longleftrightarrow> format_guid (replicate 16 0) = ''00000000-0000-0000-0000-000000000000''"

lemma bytes_tests_pass:
  "readers_yield_zero_out_of_range" "le_u32_and_u64_in_range" "read_guid_in_range" "slice_owned_truncates"
  by (simp_all add: readers_yield_zero_out_of_range_def le_u32_and_u64_in_range_def read_guid_in_range_def
      slice_owned_truncates_def le16.rd_eq le32.rd_eq le64.rd_eq read_guid_eq slice_owned_eq from_le_def)

lemma guid_tests_pass: "formats_mixed_endian_guid" "formats_zero_guid"
proof -
  note eval = format_guid_eq guid_text_def hex_bytes_def hex2_eq digit_char_def
  show "formats_mixed_endian_guid"
    by (simp add: formats_mixed_endian_guid_def eval)
  have "replicate 16 (0 :: u8) = [0, 0, 0, 0, 0, 0, 0, 0, 0, 0, 0, 0, 0, 0, 0, 0]"
    by (simp add: numeral_eq_Suc)
  then show "formats_zero_guid"
    by (simp only: formats_zero_guid_def) (simp add: eval)
qed

section \<open>header.rs\<close>

definition base_sector :: bytes where
  "base_sector = (replicate 512 0)[11 := 0x00, 12 := 0x02]"

definition parses_bitlocker_to_go :: bool where
  "parses_bitlocker_to_go \<longleftrightarrow>
     (let s = apply_patches base_sector
            [(0, [0xeb, 0x58, 0x90]), (3, SIG_TO_GO),
             (424, [0x3b, 0xd6, 0x67, 0x49, 0x29, 0x2e, 0xd8, 0x4a, 0x83, 0x99, 0xf6, 0xa3, 0x39, 0xe3, 0xd0, 0x01]),
             (440, to_le (0x02100000 :: u64)), (448, to_le (0x02b55800 :: u64)), (456, to_le (0x035ab000 :: u64))]
      in unwrapped (VolumeHeader_parse s) (\<lambda>h.
           variant h = BitLockerToGo \<and> bytes_per_sector h = 512
           \<and> fve_metadata_offsets h = [0x02100000, 0x02b55800, 0x035ab000]
           \<and> format_guid (bitlocker_guid h) = ''4967d63b-2e29-4ad8-8399-f6a339e3d001''))"

definition parses_windows7 :: bool where
  "parses_windows7 \<longleftrightarrow>
     (let s = apply_patches base_sector
            [(0, [0xeb, 0x58, 0x90]), (3, SIG_FVE), (176, to_le (0x1000 :: u64)), (184, to_le (0x2000 :: u64)),
             (192, to_le (0x3000 :: u64))]
      in unwrapped (VolumeHeader_parse s) (\<lambda>h.
           variant h = Windows7OrLater \<and> fve_metadata_offsets h = [0x1000, 0x2000, 0x3000]))"

definition parses_vista_cluster_offset :: bool where
  "parses_vista_cluster_offset \<longleftrightarrow>
     (let s = apply_patches base_sector
            [(0, [0xeb, 0x52, 0x90]), (3, SIG_FVE), (13, [8]), (56, to_le (100 :: u64))]
      in unwrapped (VolumeHeader_parse s) (\<lambda>h.
           variant h = WindowsVista \<and> fve_metadata_offsets h ! 0 = 100 * 512 * 8))"

definition rejects_non_bitlocker_with_signature :: bool where
  "rejects_non_bitlocker_with_signature \<longleftrightarrow>
     (let ntfs = [0x4e, 0x54, 0x46, 0x53, 0x20, 0x20, 0x20, 0x20];
          s = apply_patches base_sector [(0, [0xeb, 0x52, 0x90]), (3, ntfs)]
      in unwrapped_err (VolumeHeader_parse s) (\<lambda>e. e = NotBitLocker ntfs))"

definition short_sector_does_not_panic :: bool where
  "short_sector_does_not_panic \<longleftrightarrow>
     unwrapped_err (VolumeHeader_parse (replicate 4 0)) (\<lambda>e. case e of NotBitLocker _ \<Rightarrow> True | _ \<Rightarrow> False)"

lemma base_sector_eq: "base_sector = patched (replicate 512 0) [(12, [0x02])]"
  by (simp add: base_sector_def patched.simps copy_into_def list_update_append upd_conv_take_nth_drop
      replicate_append_same numeral_eq_Suc)

lemma nth_of_slice: "take 1 (drop i xs) = [x] \<Longrightarrow> i < length xs \<Longrightarrow> xs ! i = x"
  by (simp flip: Cons_nth_drop_Suc)

lemma header_tests_pass:
  "parses_bitlocker_to_go" "parses_windows7" "parses_vista_cluster_offset" "rejects_non_bitlocker_with_signature"
  "short_sector_does_not_panic"
proof -
  note s = base_sector_eq apply_patches_eq patched_reads slice_simps zeros_read
  note p = VolumeHeader_parse_def signature_case signature_of_def read_guid_eq Let_def
  have sz: "le_u16 (patched (replicate 512 0) [(12, [0x02])]) 11 = 512"
    by (rule sector_size_512) (simp_all add: s)
  show "parses_bitlocker_to_go"
    unfolding parses_bitlocker_to_go_def Let_def
    by (simp add: p s sz format_guid_eq guid_text_def hex_bytes_def hex2_eq digit_char_def)
  show "parses_windows7"
    by (simp add: parses_windows7_def p s BOOT_WIN7_def)
  let ?v = "patched (patched (replicate 512 0) [(12, [2])]) [(56, to_le (100 :: u64)), (13, [8]), (3, SIG_FVE), (0, [0xeb, 0x52, 0x90])]"
  have "take 1 (drop 13 ?v) = [8]" "length ?v = 512"
    by (simp_all add: s)
  then have "?v ! 13 = 8"
    by (simp add: nth_of_slice)
  then show "parses_vista_cluster_offset"
    by (simp add: parses_vista_cluster_offset_def p s sz BOOT_WIN7_def sat_mul_u64_def)
  show "rejects_non_bitlocker_with_signature"
    by (simp add: rejects_non_bitlocker_with_signature_def p s SIG_FVE_def SIG_TO_GO_def)
  show "short_sector_does_not_panic"
    by (simp add: short_sector_does_not_panic_def p)
qed

section \<open>method.rs\<close>

definition decodes_all_six_axes :: bool where
  "decodes_all_six_axes \<longleftrightarrow>
     list_all (\<lambda>(raw, kb, md, df).
         case EncryptionMethod_decode raw of
           None \<Rightarrow> False
         | Some m \<Rightarrow> raw_method m = raw \<and> key_bits m = kb \<and> cipher_mode_of m = md \<and> diffuser m = df)
       [(0x8000, 128, Cbc, True), (0x8001, 256, Cbc, True), (0x8002, 128, Cbc, False),
        (0x8003, 256, Cbc, False), (0x8004, 128, Xts, False), (0x8005, 256, Xts, False)]"

definition unrecognized_methods_decode_none :: bool where
  "unrecognized_methods_decode_none \<longleftrightarrow>
     list_all (\<lambda>raw. EncryptionMethod_decode raw = None) [0x0000, 0x7fff, 0x8006, 0x8007, 0x8010, 0x1234, 0xffff]"

definition validated_kinds_match_oracle_backed_methods :: bool where
  "validated_kinds_match_oracle_backed_methods \<longleftrightarrow>
     map (\<lambda>raw. map_option validated_kind (EncryptionMethod_decode raw)) [0x8000, 0x8002, 0x8003, 0x8004, 0x8005, 0x8001]
     = [Some (Some KCbc128Diffuser), Some (Some KCbc128), Some (Some KCbc256), Some (Some KXts128), Some (Some KXts256), Some None]"

lemma method_tests_pass:
  "decodes_all_six_axes" "unrecognized_methods_decode_none" "validated_kinds_match_oracle_backed_methods"
  by (simp_all add: decodes_all_six_axes_def unrecognized_methods_decode_none_def
      validated_kinds_match_oracle_backed_methods_def decode_values validated_kind_def)
    (simp add: EncryptionMethod_decode_def)

section \<open>metadata.rs\<close>

definition test_entry :: "u16 \<Rightarrow> u16 \<Rightarrow> u16 \<Rightarrow> bytes \<Rightarrow> bytes" where
  "test_entry et vt ver dat =
     to_le (word_of_nat (8 + length dat) :: u16) @ to_le et @ to_le vt @ to_le ver @ dat"

definition build_block :: "bytes list \<Rightarrow> bytes" where
  "build_block es =
     (let ents = concat es; size' = 48 + length ents
      in apply_patches (replicate (64 + size') 0)
           [(0, SIG_FVE), (10, to_le (2 :: u16)), (16, to_le (0x04000000 :: u64)), (28, to_le (16 :: u32)),
            (56, to_le (0x02110800 :: u64)), (64, to_le (word_of_nat size' :: u32)), (80, replicate 16 0xAB),
            (100, to_le (0x8000 :: u16)), (104, to_le (130461864497281120 :: u64)), (112, ents)])"

definition parse_sequence_splits_entries :: bool where
  "parse_sequence_splits_entries \<longleftrightarrow>
     (let es = parse_sequence (test_entry 0x000f 0x000f 1 [1, 2, 3, 4] @ test_entry ENTRY_TYPE_VMK VALUE_TYPE_VMK 1 (replicate 20 9))
      in length es = 2 \<and> entry_type (es ! 0) = 0x000f \<and> entry_data (es ! 0) = [1, 2, 3, 4] \<and> is_vmk (es ! 1))"

definition parse_sequence_stops_on_lying_size :: bool where
  "parse_sequence_stops_on_lying_size \<longleftrightarrow> length (parse_sequence (test_entry 1 2 1 [] @ replicate 8 0)) = 1"

definition parse_sequence_stops_on_oversize :: bool where
  "parse_sequence_stops_on_oversize \<longleftrightarrow> parse_sequence (to_le (100 :: u16) @ replicate 6 0) = []"

definition parse_full_block :: bool where
  "parse_full_block \<longleftrightarrow>
     (let vh = test_entry ENTRY_TYPE_VOLUME_HEADER ENTRY_TYPE_VOLUME_HEADER 1 (to_le (0x02110800 :: u64) @ to_le (0x00515a00 :: u64));
          vmk = test_entry ENTRY_TYPE_VMK VALUE_TYPE_VMK 1 (copy_into (replicate 28 0) 26 (to_le PROTECTION_PASSWORD))
      in unwrapped (FveMetadata_parse (build_block [vh, vmk]) 512 :: (bde_error, fve_metadata option) outcome) (\<lambda>r.
           case r of
             None \<Rightarrow> False
           | Some m \<Rightarrow> encryption_method m = 0x8000 \<and> volume_guid m = replicate 16 0xAB
               \<and> creation_time m = 130461864497281120 \<and> encrypted_volume_size m = 0x04000000
               \<and> volume_header_offset m = 0x02110800 \<and> volume_header_size m = 0x00515a00
               \<and> length (entries m) = 2 \<and> protector_types m = [PROTECTION_PASSWORD]))"

definition parse_returns_none_without_signature :: bool where
  "parse_returns_none_without_signature \<longleftrightarrow>
     (FveMetadata_parse (replicate 128 0) 512 :: (bde_error, fve_metadata option) outcome) = Ok None"

definition volume_header_size_falls_back_to_sector_count :: bool where
  "volume_header_size_falls_back_to_sector_count \<longleftrightarrow>
     unwrapped (FveMetadata_parse (build_block []) 512 :: (bde_error, fve_metadata option) outcome) (\<lambda>r.
       case r of
         None \<Rightarrow> False
       | Some m \<Rightarrow> volume_header_size m = 16 * 512 \<and> volume_header_offset m = 0x02110800)"

definition truncated_block_does_not_panic :: bool where
  "truncated_block_does_not_panic \<longleftrightarrow>
     (FveMetadata_parse (take 70 (build_block [])) 512 :: (bde_error, fve_metadata option) outcome) \<noteq> Panic"

lemma test_entry_eq: "test_entry et vt ver dat = encode_entry \<lparr>entry_type = et, value_type = vt, version = ver, entry_data = dat\<rparr>"
  by (simp add: test_entry_def encode_entry_def)

text \<open>What a block of the tests parses to.\<close>

lemma build_block_parse:
  assumes "list_all wf_entry ps" and "length (encode_entries ps) < 10000" and "concat es = encode_entries ps"
  shows "FveMetadata_parse (build_block es) 512 = (Ok (Some
     \<lparr>encryption_method = 0x8000, volume_guid = replicate 16 0xAB, creation_time = 130461864497281120, entries = ps,
      encrypted_volume_size = 0x04000000, volume_header_offset = fst (resolve_volume_header ps 0x02110800 (16 * 512)),
      volume_header_size = snd (resolve_volume_header ps 0x02110800 (16 * 512)), metadata_offsets = [0, 0, 0],
      metadata_size = word_of_nat (48 + length (encode_entries ps))\<rparr>) :: (bde_error, fve_metadata option) outcome)"
proof -
  let ?b = "build_block es" and ?n = "length (encode_entries ps)"
  note s = build_block_def apply_patches_eq patched_reads slice_simps zeros_read Let_def
  have len: "length ?b = 112 + ?n"
    using assms(3) by (simp add: s)
  have "take 8 ?b = SIG_FVE" "le_u64 ?b 16 = 0x04000000" "le_u32 ?b 28 = 16" "le_u64 ?b 32 = 0" "le_u64 ?b 40 = 0" "le_u64 ?b 48 = 0"
    "le_u64 ?b 56 = 0x02110800" "le_u32 ?b 64 = word_of_nat (48 + ?n)" "read_guid ?b 80 = replicate 16 0xAB"
    "le_u16 ?b 100 = 0x8000" "le_u64 ?b 104 = 130461864497281120" "drop 112 ?b = encode_entries ps"
    using assms(2,3) by (simp_all add: s read_guid_eq)
  moreover have "unat (word_of_nat (48 + ?n) :: u32) = 48 + ?n"
    using assms(2) by (simp add: unat_of_nat del: of_nat_add)
  moreover have "parse_sequence (encode_entries ps) = ps"
    using assms(1,2) parse_entries_encode [of ps "[]"] by (simp add: parse_sequence_eq no_entry_def)
  moreover have "?n = 0 \<Longrightarrow> ps = []"
    by (cases ps) (simp_all add: encode_entries_def)
  ultimately show ?thesis
    using len by (auto simp: FveMetadata_parse_eq block_entries_eq Let_def)
qed

lemma metadata_tests_pass:
  "parse_sequence_splits_entries" "parse_sequence_stops_on_lying_size" "parse_sequence_stops_on_oversize"
  "parse_full_block" "parse_returns_none_without_signature" "volume_header_size_falls_back_to_sector_count"
  "truncated_block_does_not_panic"
proof -
  let ?e1 = "\<lparr>entry_type = 0x000f, value_type = 0x000f, version = 1, entry_data = [1, 2, 3, 4]\<rparr> :: metadata_entry"
  let ?e2 = "\<lparr>entry_type = ENTRY_TYPE_VMK, value_type = VALUE_TYPE_VMK, version = 1, entry_data = replicate 20 9\<rparr> :: metadata_entry"
  have "parse_sequence (encode_entries [?e1, ?e2]) = [?e1, ?e2]"
    using parse_entries_encode [of "[?e1, ?e2]" "[]"] by (simp add: parse_sequence_eq no_entry_def wf_entry_def encode_entries_def)
  then show "parse_sequence_splits_entries"
    by (simp add: parse_sequence_splits_entries_def test_entry_eq encode_entries_def is_vmk_def)
  let ?e = "\<lparr>entry_type = 1, value_type = 2, version = 1, entry_data = []\<rparr> :: metadata_entry"
  have "no_entry (replicate 8 0)" "no_entry (to_le (100 :: u16) @ replicate 6 0)"
    by (simp_all add: no_entry_def le16.rd_eq from_le_to_le)
  then have "parse_sequence (encode_entries [?e] @ replicate 8 0) = [?e]" "parse_sequence (to_le (100 :: u16) @ replicate 6 0) = []"
    using parse_entries_encode [of "[?e]" "replicate 8 0"] parse_entries_encode [of "[]" "to_le (100 :: u16) @ replicate 6 0"]
    by (simp_all add: parse_sequence_eq wf_entry_def encode_entries_def)
  then show "parse_sequence_stops_on_lying_size" "parse_sequence_stops_on_oversize"
    by (simp_all add: parse_sequence_stops_on_lying_size_def parse_sequence_stops_on_oversize_def test_entry_eq encode_entries_def)
  let ?vh = "\<lparr>entry_type = ENTRY_TYPE_VOLUME_HEADER, value_type = ENTRY_TYPE_VOLUME_HEADER, version = 1,
      entry_data = to_le (0x02110800 :: u64) @ to_le (0x00515a00 :: u64)\<rparr>"
  let ?vmk = "\<lparr>entry_type = ENTRY_TYPE_VMK, value_type = VALUE_TYPE_VMK, version = 1,
      entry_data = copy_into (replicate 28 0) 26 (to_le PROTECTION_PASSWORD)\<rparr>"
  have "le_u16 (copy_into (replicate 28 0) 26 (to_le PROTECTION_PASSWORD)) 26 = PROTECTION_PASSWORD"
    by (simp add: le16.rd_copy_same)
  then show "parse_full_block"
    using build_block_parse [of "[?vh, ?vmk]" "[encode_entry ?vh, encode_entry ?vmk]"]
    by (simp add: parse_full_block_def test_entry_eq encode_entries_def wf_entry_def resolve_volume_header_def le_u64_pair
        protector_types_def vmk_entries_def is_vmk_def protection_type_def map_filter_simps Let_def)
  show "volume_header_size_falls_back_to_sector_count"
    using build_block_parse [of "[]" "[]"]
    by (simp add: volume_header_size_falls_back_to_sector_count_def encode_entries_def resolve_volume_header_def)
  show "parse_returns_none_without_signature"
    by (simp add: parse_returns_none_without_signature_def FveMetadata_parse_eq)
  show "truncated_block_does_not_panic"
    by (simp add: truncated_block_does_not_panic_def FveMetadata_parse_eq block_entries_eq Let_def)
qed

section \<open>crypto.rs\<close>

definition recovery_key_hash_rejects_malformed :: "primitives \<Rightarrow> bool" where
  "recovery_key_hash_rejects_malformed C \<longleftrightarrow>
     list_all (\<lambda>s. unwrapped_err (recovery_key_hash C (lit s)) (\<lambda>_. True))
       [''111111'',
        ''111111-111111-111111-111111-111111-111111-111111-111111-111111'',
        ''111111-111111-111111-111111-111111-111111-111111-11111x'',
        ''11111-111111-111111-111111-111111-111111-111111-111111'',
        ''111112-111111-111111-111111-111111-111111-111111-111111'',
        ''999999-111111-111111-111111-111111-111111-111111-111111'']"

lemma crypto_test_passes: "recovery_key_hash_rejects_malformed C"
  unfolding recovery_key_hash_rejects_malformed_def
  by (simp add: recovery_key_hash_def lit_def parse_u32_def)

end
