(* ===== verification/CryptoTests.thy ===== *)
theory CryptoTests
  imports ParserTests
begin

text \<open>
  The remaining unit tests of \<^verbatim>\<open>core/src/crypto.rs\<close>.  They compare digests and ciphertexts of the real
  primitives, which are parameters here; what is proved is exactly which facts about the primitives each
  test depends on, the code in between being discharged.
\<close>

section \<open>Known answers\<close>

fun hex :: "bytes \<Rightarrow> string" where
  "hex [] = ''''"
| "hex (b # bs) = fmt_hex 2 (unat b) @ hex bs"

definition password_hash_matches_independent_python :: "primitives \<Rightarrow> bool" where
  "password_hash_matches_independent_python C \<longleftrightarrow>
     hex (password_hash C (lit ''bde-TEST'')) = ''f5acb5bd3c4e31c5c988128fcfc50717da18ca4f7dbaa8bf21e7525bd431ee3f''"

definition stretch_two_iterations_matches_independent_python :: "primitives \<Rightarrow> bool" where
  "stretch_two_iterations_matches_independent_python C \<longleftrightarrow>
     (let salt = [0, 1, 2, 3, 4, 5, 6, 7, 8, 9, 10, 11, 12, 13, 14, 15]; ph = password_hash C (lit ''bde-TEST'')
      in hex (stretch_key_n C ph salt 2) = ''0660651b876f7d3777e292fb96671e57d48a4b34d7e17c3e01f20d6ba6af42e4'')"

definition recovery_key_hash_matches_independent_python :: "primitives \<Rightarrow> bool" where
  "recovery_key_hash_matches_independent_python C \<longleftrightarrow>
     unwrapped (recovery_key_hash C (lit ''111111-111111-111111-111111-111111-111111-111111-111111'')) (\<lambda>h.
       hex h = ''17f2c896b4e802b3668dfe7f8b22ab00b7adbba67097643f3c02767abc72648e'')
     \<and> unwrapped (recovery_key_hash C (lit ''068002-479633-277629-623568-540826-435039-327756-375705'')) (\<lambda>h.
       hex h = ''6bb2448ffc833b574bcc0e7c3d9f8e8afd7410692289e7405cbcc42a7fee3de3'')"

section \<open>Round trips\<close>

definition sample_sector :: bytes where
  "sample_sector = map (\<lambda>i. ucast (xor (31 * (word_of_nat i :: u32)) 0xA5)) [0..<512]"

definition ccm_unwrap_roundtrip_ms_layout :: "primitives \<Rightarrow> bool" where
  "ccm_unwrap_roundtrip_ms_layout C \<longleftrightarrow>
     (let key = replicate 32 7; nonce = replicate 12 3; plaintext = str_bytes (lit ''volume master key container payload!!'');
          (buf, tag) = ccm_seal C key nonce plaintext; value_data = nonce @ tag @ buf
      in aes_ccm_unwrap C key value_data = Some plaintext \<and> aes_ccm_unwrap C (replicate 32 8) value_data = None
         \<and> aes_ccm_unwrap C key (take 20 value_data) = None)"

definition cipher_test :: "primitives \<Rightarrow> sector_cipher \<Rightarrow> bool" where
  "cipher_test C cipher \<longleftrightarrow>
     (let plain = sample_sector; off = 0x02110800; ct = encrypt_sector C cipher plain off
      in ct \<noteq> plain \<and> decrypt_sector C cipher ct off = plain)"

definition test_sector_cipher :: "primitives \<Rightarrow> bool" where
  "test_sector_cipher C = cipher_test C (SectorCipher_new (replicate 16 0x11) (replicate 16 0x22))"

definition test_sector_cipher_cbc :: "primitives \<Rightarrow> bool" where
  "test_sector_cipher_cbc C = cipher_test C (SectorCipher_new_cbc (replicate 16 0x13))"

definition test_sector_cipher_cbc256 :: "primitives \<Rightarrow> bool" where
  "test_sector_cipher_cbc256 C = cipher_test C (SectorCipher_new_cbc256 (replicate 32 0x24))"

definition test_sector_cipher_xts128 :: "primitives \<Rightarrow> bool" where
  "test_sector_cipher_xts128 C = cipher_test C (SectorCipher_new_xts128 (replicate 32 0x35))"

definition test_sector_cipher_xts256 :: "primitives \<Rightarrow> bool" where
  "test_sector_cipher_xts256 C = cipher_test C (SectorCipher_new_xts256 (replicate 64 0x46))"

section \<open>What they depend on\<close>

lemma hex_eq: "hex bs = hex_bytes bs"
  by (induction bs) (simp_all add: hex_bytes_def fmt_hex_2)

text \<open>
  The known answers: the password test passes exactly when the digest of the digest of the UTF-16 bytes
  is the one expected, the recovery test when the digests of the two 16-byte keys are.  These are the
  computations the tests' comments describe.
\<close>

lemma known_answers:
  "password_hash_matches_independent_python C \<longleftrightarrow>
     hex (sha256 C (sha256 C [98, 0, 100, 0, 101, 0, 45, 0, 84, 0, 69, 0, 83, 0, 84, 0]))
       = ''f5acb5bd3c4e31c5c988128fcfc50717da18ca4f7dbaa8bf21e7525bd431ee3f''"
  "recovery_key_hash_matches_independent_python C \<longleftrightarrow>
     hex (sha256 C [117, 39, 117, 39, 117, 39, 117, 39, 117, 39, 117, 39, 117, 39, 117, 39])
       = ''17f2c896b4e802b3668dfe7f8b22ab00b7adbba67097643f3c02767abc72648e''
     \<and> hex (sha256 C [38, 24, 83, 170, 151, 98, 112, 221, 14, 192, 125, 154, 100, 116, 107, 133])
       = ''6bb2448ffc833b574bcc0e7c3d9f8e8afd7410692289e7405cbcc42a7fee3de3''"
proof -
  show "password_hash_matches_independent_python C \<longleftrightarrow>
     hex (sha256 C (sha256 C [98, 0, 100, 0, 101, 0, 45, 0, 84, 0, 69, 0, 83, 0, 84, 0]))
       = ''f5acb5bd3c4e31c5c988128fcfc50717da18ca4f7dbaa8bf21e7525bd431ee3f''"
    by (simp add: password_hash_matches_independent_python_def password_hash_def lit_def encode_utf16_def utf16_char_def to_le_def)
  have eight: "replicate 8 x = [x, x, x, x, x, x, x, x]" for x :: u16
    by (simp add: numeral_eq_Suc)
  have low: "(10101 :: u8) = 117" "(6182 :: u8) = 38" "(43603 :: u8) = 83" "(25239 :: u8) = 151" "(56688 :: u8) = 112"
    "(49166 :: u8) = 14" "(39549 :: u8) = 125" "(29796 :: u8) = 100" "(34155 :: u8) = 107"
    by simp_all
  have codes: "lit ''111111-111111-111111-111111-111111-111111-111111-111111'' = recovery_text (replicate 8 10101)"
    "lit ''068002-479633-277629-623568-540826-435039-327756-375705'' = recovery_text [6182, 43603, 25239, 56688, 49166, 39549, 29796, 34155]"
    unfolding eight by (simp_all add: recovery_text_def recovery_group_def lit_def digits_of_numeral)
  show "recovery_key_hash_matches_independent_python C \<longleftrightarrow>
     hex (sha256 C [117, 39, 117, 39, 117, 39, 117, 39, 117, 39, 117, 39, 117, 39, 117, 39])
       = ''17f2c896b4e802b3668dfe7f8b22ab00b7adbba67097643f3c02767abc72648e''
     \<and> hex (sha256 C [38, 24, 83, 170, 151, 98, 112, 221, 14, 192, 125, 154, 100, 116, 107, 133])
       = ''6bb2448ffc833b574bcc0e7c3d9f8e8afd7410692289e7405cbcc42a7fee3de3''"
    unfolding recovery_key_hash_matches_independent_python_def codes
    by (simp add: recovery_key_hash_text eight to_le_def low)
qed

lemma round_trip_tests:
  assumes "primitives_ok C"
  shows "cipher_test C sc \<longleftrightarrow> encrypt_sector C sc sample_sector 0x02110800 \<noteq> sample_sector"
    and "ccm_unwrap_roundtrip_ms_layout C \<longleftrightarrow>
      aes_ccm_unwrap C (replicate 32 8) (aes_ccm_wrap C (replicate 32 7) (replicate 12 3) (str_bytes (lit ''volume master key container payload!!''))) = None"
proof -
  have "length sample_sector = 512" "sample_sector \<noteq> []"
    by (simp_all add: sample_sector_def)
  then show "cipher_test C sc \<longleftrightarrow> encrypt_sector C sc sample_sector 0x02110800 \<noteq> sample_sector"
    using sector_roundtrip(1) [OF primitives_okD(3,4,5) [OF assms], of sample_sector sc "0x02110800"]
    by (auto simp: cipher_test_def Let_def)
  have value_data: "replicate 12 3 @ snd (ccm_seal C k (replicate 12 3) p) @ fst (ccm_seal C k (replicate 12 3) p)
      = aes_ccm_wrap C k (replicate 12 3) p" for k p
    by (simp add: aes_ccm_wrap_def split_beta)
  have short: "aes_ccm_unwrap C k (take 20 v) = None" for k v
    by (simp add: aes_ccm_unwrap_eq)
  show "ccm_unwrap_roundtrip_ms_layout C \<longleftrightarrow>
      aes_ccm_unwrap C (replicate 32 8) (aes_ccm_wrap C (replicate 32 7) (replicate 12 3) (str_bytes (lit ''volume master key container payload!!''))) = None"
    unfolding ccm_unwrap_roundtrip_ms_layout_def Let_def case_prod_beta value_data short
    by (simp add: ccm_unwrap_wrap(1) [OF primitives_okD(2) [OF assms]])
qed

text \<open>The stretched key of the test is the second term of the recurrence.\<close>

lemma stretch_known_answer:
  assumes "sha256_ok C"
  defines "h \<equiv> password_hash C (lit ''bde-TEST'')" and "salt \<equiv> [0, 1, 2, 3, 4, 5, 6, 7, 8, 9, 10, 11, 12, 13, 14, 15]"
  shows "stretch_two_iterations_matches_independent_python C \<longleftrightarrow>
    hex (sha256 C (sha256 C (replicate 32 0 @ h @ salt @ [0, 0, 0, 0, 0, 0, 0, 0]) @ h @ salt @ [1, 0, 0, 0, 0, 0, 0, 0]))
      = ''0660651b876f7d3777e292fb96671e57d48a4b34d7e17c3e01f20d6ba6af42e4''"
proof -
  have len: "length h = 32" "length salt = 16"
    using assms(1) by (simp_all add: h_def salt_def password_hash_def sha256_ok_def)
  have two: "unat (2 :: u64) = Suc (Suc 0)"
    by simp
  have le: "to_le (0 :: u64) = [0, 0, 0, 0, 0, 0, 0, 0]" "to_le (1 :: u64) = [1, 0, 0, 0, 0, 0, 0, 0]"
    by (simp_all add: to_le_def)
  have "stretch_key_n C h salt 2 = sha256 C (sha256 C (replicate 32 0 @ h @ salt @ [0, 0, 0, 0, 0, 0, 0, 0]) @ h @ salt @ [1, 0, 0, 0, 0, 0, 0, 0])"
    unfolding stretch_key_n_eq [OF assms(1) len] two by (simp add: le)
  then show ?thesis
    by (simp add: stretch_two_iterations_matches_independent_python_def Let_def flip: h_def salt_def)
qed

end
