(* ===== verification/Vfs.thy ===== *)
theory Vfs
  imports ReadPath
begin

text \<open>
  \<^verbatim>\<open>core/src/vfs.rs\<close>: the adapter that presents an unlocked volume as a positioned-read source.  The
  \<^verbatim>\<open>forensic-vfs\<close> crate is outside the repository; of its types only the constructors this file uses
  are represented, and \<^verbatim>\<open>SourceCursor::new\<close> is the argument \<open>mk_cursor\<close>.  A \<^verbatim>\<open>Mutex\<close> with poison recovery
  serialises reads, so they are state passing on the volume.
\<close>

section \<open>The code\<close>

text \<open>\<open>OtherCredential\<close> is any credential that is neither a password nor a recovery key.\<close>

datatype credential = Password str | RecoveryKey str | OtherCredential

datatype vfs_error =
    NeedCredentials (need_scheme: string) (need_target: string)
  | Decode (decode_layer: string) (decode_offset: nat) (decode_detail: string) (decode_bytes: bytes)

record 's bitlocker_layer =
  encrypted :: 's
  layer_len :: u64

record 'r bitlocker_source =
  src_inner :: "'r decrypted_volume"
  src_len :: u64

definition BitlockerLayer_new :: "('s \<Rightarrow> u64) \<Rightarrow> 's \<Rightarrow> 's bitlocker_layer" where
  "BitlockerLayer_new source_len enc = \<lparr>encrypted = enc, layer_len = source_len enc\<rparr>"

text \<open>Of \<^verbatim>\<open>EncryptionScheme\<close>, the only scheme this layer reports.\<close>

datatype encryption_scheme = Bitlocker

definition layer_scheme :: "'s bitlocker_layer \<Rightarrow> encryption_scheme" where
  "layer_scheme layer = Bitlocker"

definition map_bde_err :: "bde_error \<Rightarrow> vfs_error" where
  "map_bde_err e = Decode ''bitlocker'' 0 (bde_error_display e) []"

definition BitlockerSource_new :: "'r decrypted_volume \<Rightarrow> 'r bitlocker_source" where
  "BitlockerSource_new vol = \<lparr>src_inner = vol, src_len = dv_total_size vol\<rparr>"

text \<open>The loop over the credentials; every attempt gets a fresh cursor.  \<open>None\<close>: an attempt never returns.\<close>

fun try_credentials ::
    "primitives \<Rightarrow> 'r reader_ops \<Rightarrow> 'r \<Rightarrow> bde_error option \<Rightarrow> credential list
     \<Rightarrow> (vfs_error, 'r bitlocker_source) outcome option" where
  "try_credentials C ops cursor last_err [] =
     Some (Err (case last_err of None \<Rightarrow> NeedCredentials ''bitlocker'' [] | Some e \<Rightarrow> map_bde_err e))"
| "try_credentials C ops cursor last_err (OtherCredential # creds) = try_credentials C ops cursor last_err creds"
| "try_credentials C ops cursor last_err (Password p # creds) =
     (case unlock_with_password C ops cursor p of
        None \<Rightarrow> None
      | Some (Ok vol, _) \<Rightarrow> Some (Ok (BitlockerSource_new vol))
      | Some (Err e, _) \<Rightarrow> try_credentials C ops cursor (Some e) creds
      | Some (Panic, _) \<Rightarrow> Some Panic)"
| "try_credentials C ops cursor last_err (RecoveryKey rk # creds) =
     (case unlock_with_recovery_password C ops cursor rk of
        None \<Rightarrow> None
      | Some (Ok vol, _) \<Rightarrow> Some (Ok (BitlockerSource_new vol))
      | Some (Err e, _) \<Rightarrow> try_credentials C ops cursor (Some e) creds
      | Some (Panic, _) \<Rightarrow> Some Panic)"

definition layer_open ::
    "primitives \<Rightarrow> 'r reader_ops \<Rightarrow> ('s \<Rightarrow> u64 \<Rightarrow> u64 \<Rightarrow> 'r) \<Rightarrow> 's bitlocker_layer \<Rightarrow> credential list
     \<Rightarrow> (vfs_error, 'r bitlocker_source) outcome option" where
  "layer_open C ops mk_cursor layer cands =
     (if cands = [] then Some (Err (NeedCredentials ''bitlocker'' []))
      else try_credentials C ops (mk_cursor (encrypted layer) 0 (layer_len layer)) None cands)"

text \<open>\<^verbatim>\<open>read_at\<close> on a buffer of \<open>n\<close> bytes: the bytes written at its front (their count is \<^verbatim>\<open>want\<close>).\<close>

definition source_read_at ::
    "primitives \<Rightarrow> bool \<Rightarrow> 'r reader_ops \<Rightarrow> 'r bitlocker_source \<Rightarrow> u64 \<Rightarrow> nat \<Rightarrow> (vfs_error, bytes, 'r bitlocker_source) io" where
  "source_read_at C oc ops src offset n =
     (let avail = sat_sub_u64 (src_len src) offset
      in if avail = 0 then Some (Ok [], src)
         else
           (let want = min n (unat avail)
            in map_option (\<lambda>(x, vol). (map_err map_bde_err x, src\<lparr>src_inner := vol\<rparr>))
                 (read_at C oc ops (src_inner src) offset want)))"

section \<open>Specification\<close>

text \<open>What one credential achieves on an image; \<open>None\<close> for one the layer does not try.\<close>

fun attempt :: "primitives \<Rightarrow> bytes \<Rightarrow> credential \<Rightarrow> (bde_error, fve_metadata \<times> sector_cipher) outcome option" where
  "attempt C img (Password p) =
     Some (image_unlock C img PROTECTION_PASSWORD ''password'' (Stretch (password_hash C p)))"
| "attempt C img (RecoveryKey rk) =
     Some (bind_outcome (map_err InvalidRecoveryPassword (recovery_key_hash C rk)) (\<lambda>h.
       image_unlock C img PROTECTION_RECOVERY ''recovery password'' (Stretch h)))"
| "attempt C img OtherCredential = None"

text \<open>The errors of the attempts, in order.\<close>

definition errors_of :: "('e, 'a) outcome list \<Rightarrow> 'e list" where
  "errors_of xs = List.map_filter (\<lambda>x. case x of Err e \<Rightarrow> Some e | _ \<Rightarrow> None) xs"

definition first_ok :: "('e, 'a) outcome list \<Rightarrow> 'a option" where
  "first_ok xs = (case List.map_filter (\<lambda>x. case x of Ok a \<Rightarrow> Some a | _ \<Rightarrow> None) xs of [] \<Rightarrow> None | a # _ \<Rightarrow> Some a)"

section \<open>Lemmas\<close>

lemma recovery_hash_no_panic: "recovery_loop i key n gs \<noteq> Panic" "recovery_key_hash C s \<noteq> Panic"
proof -
  show r: "recovery_loop i key n gs \<noteq> Panic" for i key n gs
    by (induction i key n gs rule: recovery_loop.induct) (auto simp: Let_def split: option.splits)
  show "recovery_key_hash C s \<noteq> Panic"
    by (auto simp: recovery_key_hash_def bind_outcome_Panic_iff r)
qed

lemma attempt_no_panic: "attempt C img cred \<noteq> Some Panic"
proof -
  have "map_err InvalidRecoveryPassword (recovery_key_hash C s) \<noteq> Panic" for s
    using recovery_hash_no_panic(2) [of C s] by (cases "recovery_key_hash C s") auto
  then show ?thesis
    by (cases cred) (auto simp: image_unlock_no_panic bind_outcome_Panic_iff)
qed

lemma sat_sub_exact: "unat (sat_sub_u64 a b) = unat a - unat b"
  by (auto simp: sat_sub_u64_def unat_sub_if' word_less_nat_alt word_le_nat_alt)

context image_reader
begin

text \<open>One step of the loop: a success ends it, an error is remembered.\<close>

lemma try_step:
  assumes "inv r" and "attempt C (img r) cred = Some x"
  shows "\<exists>r'. inv r' \<and> img r' = img r \<and> (\<forall>lst creds. try_credentials C ops r lst (cred # creds) =
      (case x of
         Ok (m, c) \<Rightarrow> Some (Ok (BitlockerSource_new \<lparr>dv_reader = r', dv_cipher = c, dv_metadata = m,
                         dv_total_size = word_of_nat (length (img r)), dv_position = 0\<rparr>))
       | Err e \<Rightarrow> try_credentials C ops r (Some e) creds
       | Panic \<Rightarrow> Some Panic))"
proof (cases cred)
  case (Password p)
  then show ?thesis
    using assms unlock_image [OF assms(1), of C PROTECTION_PASSWORD "''password''" "Stretch (password_hash C p)"]
    by (cases x) (auto simp: unlock_with_password_def)
next
  case (RecoveryKey rk)
  show ?thesis
  proof (cases "recovery_key_hash C rk")
    case (Ok h)
    then show ?thesis
      using RecoveryKey assms unlock_image [OF assms(1), of C PROTECTION_RECOVERY "''recovery password''" "Stretch h"]
      by (cases x) (auto simp: unlock_with_recovery_password_def)
  next
    case (Err e)
    then show ?thesis
      using RecoveryKey assms by (auto simp: unlock_with_recovery_password_def pure_io_def)
  next
    case Panic
    then show ?thesis
      using recovery_hash_no_panic(2) by blast
  qed
next
  case OtherCredential
  then show ?thesis
    using assms by simp
qed

lemma try_credentials_image:
  assumes "inv r"
  shows "case first_ok (List.map_filter (attempt C (img r)) creds) of
      Some (m, c) \<Rightarrow> \<exists>r'. inv r' \<and> img r' = img r \<and> try_credentials C ops r lst creds
        = Some (Ok (BitlockerSource_new \<lparr>dv_reader = r', dv_cipher = c, dv_metadata = m,
                    dv_total_size = word_of_nat (length (img r)), dv_position = 0\<rparr>))
    | None \<Rightarrow> try_credentials C ops r lst creds
        = Some (Err (if errors_of (List.map_filter (attempt C (img r)) creds) = []
              then (case lst of None \<Rightarrow> NeedCredentials ''bitlocker'' [] | Some e \<Rightarrow> map_bde_err e)
              else map_bde_err (last (errors_of (List.map_filter (attempt C (img r)) creds)))))"
proof (induction creds arbitrary: lst)
  case Nil
  then show ?case
    by (simp add: first_ok_def errors_of_def map_filter_simps)
next
  case (Cons cred creds)
  show ?case
  proof (cases "attempt C (img r) cred")
    case None
    then have "cred = OtherCredential"
      by (cases cred) auto
    then have eqs: "List.map_filter (attempt C (img r)) (cred # creds) = List.map_filter (attempt C (img r)) creds"
      "try_credentials C ops r lst (cred # creds) = try_credentials C ops r lst creds"
      by (simp_all add: map_filter_simps)
    from Cons [of lst] show ?thesis
      by (simp only: eqs)
  next
    case (Some x)
    obtain r' where r': "inv r'" "img r' = img r"
      and step: "try_credentials C ops r lst (cred # creds) =
      (case x of
         Ok (m, c) \<Rightarrow> Some (Ok (BitlockerSource_new \<lparr>dv_reader = r', dv_cipher = c, dv_metadata = m,
                         dv_total_size = word_of_nat (length (img r)), dv_position = 0\<rparr>))
       | Err e \<Rightarrow> try_credentials C ops r (Some e) creds
       | Panic \<Rightarrow> Some Panic)"
      using try_step [OF assms Some] by blast
    show ?thesis
    proof (cases x)
      case (Ok a)
      then show ?thesis
        using r' step Some by (cases a) (auto simp: map_filter_simps first_ok_def)
    next
      case (Err e)
      then show ?thesis
        using Cons [of "Some e"] step Some
        by (auto simp: map_filter_simps first_ok_def errors_of_def split: list.splits)
    next
      case Panic
      then show ?thesis
        using Some attempt_no_panic by blast
    qed
  qed
qed

lemma source_read_at_image:
  assumes "dv_inv inv img (src_inner src)" and "src_len src = dv_total_size (src_inner src)"
  shows "\<exists>src'. source_read_at C oc ops src offset n
      = Some (Ok (take n (drop (unat offset) (dv_img C img (src_inner src)))), src')
      \<and> same_volume inv img (src_inner src) (src_inner src') \<and> src_len src' = src_len src"
proof (cases "unat offset < unat (src_len src)")
  case False
  then have "sat_sub_u64 (src_len src) offset = 0"
    using sat_sub_exact [of "src_len src" offset] by (simp add: unat_eq_zero)
  then show ?thesis
    using assms False by (auto simp: source_read_at_def dv_img_def same_volume_def dv_inv_def)
next
  case True
  define k where "k = min n (unat (src_len src) - unat offset)"
  have a: "sat_sub_u64 (src_len src) offset \<noteq> 0" "unat (sat_sub_u64 (src_len src) offset) = unat (src_len src) - unat offset"
    using sat_sub_exact [of "src_len src" offset] True by auto
  have "unat (src_len src) < 2 ^ 64"
    using unsigned_less [of "src_len src", where 'a = nat] by simp
  then have k: "unat offset + k \<le> unat (dv_total_size (src_inner src))" "unat offset + k \<le> 2 ^ 64"
    using True assms(2) by (simp_all add: k_def)
  let ?v = "src_inner src"
  obtain dv' where d: "read_at C oc ops ?v offset k
      = Some (Ok (view C (dv_cipher ?v) (dv_metadata ?v) (img (dv_reader ?v)) (unat offset) k), dv')" "same_volume inv img ?v dv'"
    using read_at_image [of ?v offset k C oc] assms(1) k(2) by (auto simp: dv_inv_def)
  have "take n (drop (unat offset) (dv_img C img ?v)) = take k (drop (unat offset) (dv_img C img ?v))"
    using assms(2) by (simp add: k_def dv_img_def min_def)
  also have "\<dots> = view C (dv_cipher ?v) (dv_metadata ?v) (img (dv_reader ?v)) (unat offset) k"
    using k(1) take_drop_view [of "unat offset" k] by (simp add: dv_img_def)
  finally show ?thesis
    using a d by (simp add: source_read_at_def Let_def flip: k_def)
qed

end

section \<open>Properties\<close>

text \<open>
  Property C23.  Opening the layer tries the credentials in order and returns the volume of the first
  that unlocks; with none it reports the error of the last one tried, and asks for credentials exactly
  when nothing could be tried.  It always returns and never panics.
\<close>

theorem layer_open_first_credential:
  assumes "image_reader ops ok img pos patience" and "ok (mk_cursor (encrypted layer) 0 (layer_len layer))"
    and "r = mk_cursor (encrypted layer) 0 (layer_len layer)"
  shows "case first_ok (List.map_filter (attempt C (img r)) creds) of
      Some (m, c) \<Rightarrow> \<exists>r'. ok r' \<and> img r' = img r \<and> layer_open C ops mk_cursor layer creds
        = Some (Ok (BitlockerSource_new \<lparr>dv_reader = r', dv_cipher = c, dv_metadata = m,
                    dv_total_size = word_of_nat (length (img r)), dv_position = 0\<rparr>))
    | None \<Rightarrow> layer_open C ops mk_cursor layer creds
        = Some (Err (if errors_of (List.map_filter (attempt C (img r)) creds) = [] then NeedCredentials ''bitlocker'' []
                     else map_bde_err (last (errors_of (List.map_filter (attempt C (img r)) creds)))))"
proof (cases "creds = []")
  case True
  then show ?thesis
    by (simp add: layer_open_def first_ok_def errors_of_def map_filter_simps)
next
  case False
  then have eq: "layer_open C ops mk_cursor layer creds = try_credentials C ops r None creds"
    using assms(3) by (simp add: layer_open_def)
  show ?thesis
    using image_reader.try_credentials_image [OF assms(1,2), where C = C and creds = creds and lst = None]
    by (simp only: eq assms(3) option.case)
qed

theorem layer_open_first_credential_witness:
  "layer_open demo cursor_ops (\<lambda>s _ _. cursor_of s) (BitlockerLayer_new (\<lambda>s. word_of_nat (length s)) [])
     [OtherCredential, Password [97]] = Some (Err (map_bde_err (Io EOF_ERROR)))"
proof -
  have "attempt demo [] (Password [97]) = Some (Err (Io EOF_ERROR))" "attempt demo [] OtherCredential = None"
    by (simp_all add: image_unlock_def image_metadata_def)
  then show ?thesis
    using layer_open_first_credential [OF cur.image_reader_axioms, where mk_cursor = "\<lambda>s _ _. cursor_of s"
        and layer = "BitlockerLayer_new (\<lambda>s. word_of_nat (length s)) []" and r = "cursor_of []" and C = demo
        and creds = "[OtherCredential, Password [97]]"]
    by (simp add: BitlockerLayer_new_def cursor_of_def cursor_inv_def map_filter_simps first_ok_def errors_of_def)
qed

end
