(* ===== verification/Fixtures.thy ===== *)
theory Fixtures
  imports ReadPath
begin

text \<open>
  The synthetic volumes of the unit tests of \<^verbatim>\<open>core/src/volume.rs\<close> (the same layout is used by the tests
  of \<^verbatim>\<open>core/src/vfs.rs\<close>), and the end-to-end theorem about them: for every lawful choice of primitives, each
  volume is unlocked by its credential and its relocated first sector reads back as the plaintext.  The
  common tail of the builders is \<open>fixture_image\<close>; the lemmas about it hold for any protector, cipher and
  key material.
\<close>

section \<open>Builders\<close>

definition RELOCATED_OFFSET :: u64 where [simp]: "RELOCATED_OFFSET = 0x4000"
definition META_BLOCK_OFFSET :: u64 where [simp]: "META_BLOCK_OFFSET = 0x1000"
definition IMAGE_SIZE :: nat where [simp]: "IMAGE_SIZE = 0x5000"
definition ENCRYPTED_SIZE :: u64 where [simp]: "ENCRYPTED_SIZE = 0x4800"

definition entry_bytes :: "u16 \<Rightarrow> u16 \<Rightarrow> bytes \<Rightarrow> bytes" where
  "entry_bytes et vt dat =
     to_le (word_of_nat (8 + length dat) :: u16) @ to_le et @ to_le vt @ to_le (1 :: u16) @ dat"

text \<open>From \<^verbatim>\<open>let fvek_entry\<close> on, all builders do the same with their VMK data, wrapped FVEK, method and sector.\<close>

definition fixture_entries :: "bytes \<Rightarrow> bytes \<Rightarrow> bytes" where
  "fixture_entries vmk_data fvek_ccm =
     entry_bytes ENTRY_TYPE_VOLUME_HEADER ENTRY_TYPE_VOLUME_HEADER (to_le RELOCATED_OFFSET @ to_le (512 :: u64))
     @ entry_bytes ENTRY_TYPE_VMK VALUE_TYPE_VMK vmk_data
     @ entry_bytes ENTRY_TYPE_FVEK VALUE_TYPE_AES_CCM fvek_ccm"

definition fixture_image :: "bytes \<Rightarrow> bytes \<Rightarrow> u16 \<Rightarrow> bytes \<Rightarrow> bytes" where
  "fixture_image vmk_data fvek_ccm meth ct =
     (let ents = fixture_entries vmk_data fvek_ccm; size' = 48 + length ents
      in apply_patches (replicate IMAGE_SIZE 0)
           [(0, [0xeb, 0x58, 0x90]), (3, SIG_TO_GO), (12, [0x02]), (440, to_le META_BLOCK_OFFSET),
            (0x1000, SIG_FVE), (0x100A, to_le (2 :: u16)), (0x1010, to_le ENCRYPTED_SIZE),
            (0x101C, to_le (1 :: u32)), (0x1020, to_le META_BLOCK_OFFSET), (0x1038, to_le RELOCATED_OFFSET),
            (0x1040, to_le (word_of_nat size' :: u32)), (0x1064, to_le meth), (0x1070, ents), (0x4000, ct)])"

definition vmk_container :: "bytes \<Rightarrow> bytes" where
  "vmk_container vmk = copy_into (replicate 44 0) 12 vmk"

definition vmk_head :: "u16 \<Rightarrow> bytes" where
  "vmk_head protector = copy_into (replicate 28 0) 26 (to_le protector)"

definition pattern :: "u8 \<Rightarrow> bytes" where
  "pattern x = map (\<lambda>i. word_of_nat i XOR x) [0 ..< 512]"

definition stretch_vmk_data :: "primitives \<Rightarrow> u16 \<Rightarrow> bytes \<Rightarrow> bytes \<Rightarrow> bytes \<Rightarrow> bytes \<Rightarrow> bytes" where
  "stretch_vmk_data C protector key_hash salt nonce vmk =
     (let stretched = stretch_key C key_hash salt;
          vmk_ccm = aes_ccm_wrap C stretched nonce (vmk_container vmk)
      in vmk_head protector @ entry_bytes 0 VALUE_TYPE_STRETCH (replicate 4 0 @ salt)
         @ entry_bytes 0 VALUE_TYPE_AES_CCM vmk_ccm)"

definition build_volume :: "primitives \<Rightarrow> str \<Rightarrow> bytes \<times> bytes" where
  "build_volume C password =
     (let fvek = replicate 16 0x11; tweak = replicate 16 0x22; vmk = replicate 32 0x44;
          vmk_data = stretch_vmk_data C PROTECTION_PASSWORD (password_hash C password) (replicate 16 0x33)
                       (replicate 12 0x55) vmk;
          fvek_container = copy_into (copy_into (replicate 76 0) 12 fvek) 44 tweak;
          fvek_ccm = aes_ccm_wrap C vmk (replicate 12 0x66) fvek_container;
          plain = pattern 0x5a;
          ct = encrypt_sector C (SectorCipher_new fvek tweak) plain RELOCATED_OFFSET
      in (fixture_image vmk_data fvek_ccm 0x8000 ct, plain))"

definition cbc_encrypt_sector :: "primitives \<Rightarrow> bytes \<Rightarrow> u64 \<Rightarrow> bytes \<Rightarrow> bytes" where
  "cbc_encrypt_sector C fvek byte_offset plain =
     (let iv = copy_into (replicate 16 0) 0 (to_le byte_offset);
          iv_block = aes128_block C fvek iv
      in cbc128_enc C fvek iv_block plain)"

definition build_cbc_volume :: "primitives \<Rightarrow> u16 \<Rightarrow> bytes \<Rightarrow> bytes \<times> bytes" where
  "build_cbc_volume C protector_type key_hash =
     (let fvek = replicate 16 0x13; vmk = replicate 32 0x46;
          vmk_data = stretch_vmk_data C protector_type key_hash (replicate 16 0x37) (replicate 12 0x57) vmk;
          fvek_container = copy_into (replicate 44 0) 12 fvek;
          fvek_ccm = aes_ccm_wrap C vmk (replicate 12 0x68) fvek_container;
          plain = pattern 0x3c;
          ct = cbc_encrypt_sector C fvek RELOCATED_OFFSET plain
      in (fixture_image vmk_data fvek_ccm 0x8002 ct, plain))"

definition build_cbc256_volume :: "primitives \<Rightarrow> bytes \<Rightarrow> bytes \<times> bytes" where
  "build_cbc256_volume C key_hash =
     (let fvek = replicate 32 0x24; vmk = replicate 32 0x48;
          vmk_data = stretch_vmk_data C PROTECTION_RECOVERY key_hash (replicate 16 0x39) (replicate 12 0x59) vmk;
          fvek_container = copy_into (replicate 76 0) 12 fvek;
          fvek_ccm = aes_ccm_wrap C vmk (replicate 12 0x6a) fvek_container;
          plain = pattern 0x71;
          ct = encrypt_sector C (SectorCipher_new_cbc256 fvek) plain RELOCATED_OFFSET
      in (fixture_image vmk_data fvek_ccm 0x8003 ct, plain))"

definition build_xts128_volume :: "primitives \<Rightarrow> bytes \<Rightarrow> bytes \<times> bytes" where
  "build_xts128_volume C key_hash =
     (let xts_key = replicate 32 0x35; vmk = replicate 32 0x4a;
          vmk_data = stretch_vmk_data C PROTECTION_RECOVERY key_hash (replicate 16 0x3b) (replicate 12 0x5b) vmk;
          fvek_container = copy_into (replicate 76 0) 12 xts_key;
          fvek_ccm = aes_ccm_wrap C vmk (replicate 12 0x6c) fvek_container;
          plain = pattern 0x2e;
          ct = encrypt_sector C (SectorCipher_new_xts128 xts_key) plain RELOCATED_OFFSET
      in (fixture_image vmk_data fvek_ccm 0x8004 ct, plain))"

definition build_xts256_volume :: "primitives \<Rightarrow> bytes \<Rightarrow> bytes \<times> bytes" where
  "build_xts256_volume C key_hash =
     (let xts_key = map (\<lambda>i. 0x46 + word_of_nat i) [0 ..< 64]; vmk = replicate 32 0x4c;
          vmk_data = stretch_vmk_data C PROTECTION_RECOVERY key_hash (replicate 16 0x3d) (replicate 12 0x5d) vmk;
          fvek_container = copy_into (replicate 76 0) 12 xts_key;
          fvek_ccm = aes_ccm_wrap C vmk (replicate 12 0x6e) fvek_container;
          plain = pattern 0x17;
          ct = encrypt_sector C (SectorCipher_new_xts256 xts_key) plain RELOCATED_OFFSET
      in (fixture_image vmk_data fvek_ccm 0x8005 ct, plain))"

definition build_clearkey_volume :: "primitives \<Rightarrow> bool \<Rightarrow> bytes \<times> bytes" where
  "build_clearkey_volume C include_key =
     (let clear_key = replicate 32 0x77; xts_key = replicate 32 0x35; vmk = replicate 32 0x4a;
          vmk_ccm = aes_ccm_wrap C clear_key (replicate 12 0x5b) (vmk_container vmk);
          fvek_container = copy_into (replicate 76 0) 12 xts_key;
          fvek_ccm = aes_ccm_wrap C vmk (replicate 12 0x6c) fvek_container;
          key_entry = entry_bytes 0 VALUE_TYPE_KEY (replicate 4 0 @ clear_key);
          vmk_data = vmk_head PROTECTION_CLEAR @ (if include_key then key_entry else [])
                     @ entry_bytes 0 VALUE_TYPE_AES_CCM vmk_ccm;
          plain = pattern 0x2e;
          ct = encrypt_sector C (SectorCipher_new_xts128 xts_key) plain RELOCATED_OFFSET
      in (fixture_image vmk_data fvek_ccm 0x8004 ct, plain))"

definition build_bek :: "bytes \<Rightarrow> bytes" where
  "build_bek external_key =
     (let key_entry = entry_bytes 0 VALUE_TYPE_KEY (replicate 4 0 @ external_key);
          ext_entry = entry_bytes 0 VALUE_TYPE_EXTERNAL_KEY (replicate 24 0 @ key_entry)
      in replicate 48 0 @ ext_entry)"

definition build_startupkey_volume :: "primitives \<Rightarrow> bytes \<times> bytes \<times> bytes" where
  "build_startupkey_volume C =
     (let external_key = replicate 32 0x9a; xts_key = replicate 32 0x35; vmk = replicate 32 0x4a;
          vmk_ccm = aes_ccm_wrap C external_key (replicate 12 0x5c) (vmk_container vmk);
          fvek_container = copy_into (replicate 76 0) 12 xts_key;
          fvek_ccm = aes_ccm_wrap C vmk (replicate 12 0x6d) fvek_container;
          vmk_data = vmk_head PROTECTION_STARTUP_KEY @ entry_bytes 0 VALUE_TYPE_AES_CCM vmk_ccm;
          plain = pattern 0x2e;
          ct = encrypt_sector C (SectorCipher_new_xts128 xts_key) plain RELOCATED_OFFSET
      in (fixture_image vmk_data fvek_ccm 0x8004 ct, plain, build_bek external_key))"

text \<open>The metadata such an image carries.\<close>

definition fixture_metadata :: "bytes \<Rightarrow> bytes \<Rightarrow> u16 \<Rightarrow> fve_metadata" where
  "fixture_metadata vmk_data fvek_ccm meth =
     \<lparr>encryption_method = meth, volume_guid = replicate 16 0, creation_time = 0,
      entries = [\<lparr>entry_type = ENTRY_TYPE_VOLUME_HEADER, value_type = ENTRY_TYPE_VOLUME_HEADER, version = 1,
                  entry_data = to_le RELOCATED_OFFSET @ to_le (512 :: u64)\<rparr>,
                 \<lparr>entry_type = ENTRY_TYPE_VMK, value_type = VALUE_TYPE_VMK, version = 1, entry_data = vmk_data\<rparr>,
                 \<lparr>entry_type = ENTRY_TYPE_FVEK, value_type = VALUE_TYPE_AES_CCM, version = 1, entry_data = fvek_ccm\<rparr>],
      encrypted_volume_size = ENCRYPTED_SIZE, volume_header_offset = RELOCATED_OFFSET, volume_header_size = 512,
      metadata_offsets = [META_BLOCK_OFFSET, 0, 0],
      metadata_size = word_of_nat (48 + length (fixture_entries vmk_data fvek_ccm))\<rparr>"

text \<open>An unlock that succeeds and whose first sector then reads as \<open>p\<close>, with method \<open>meth\<close> in its metadata.\<close>

definition yields_plaintext ::
    "primitives \<Rightarrow> bool \<Rightarrow> 'r reader_ops \<Rightarrow> (bde_error, 'r decrypted_volume, 'r) io \<Rightarrow> u16 \<Rightarrow> bytes \<Rightarrow> bool" where
  "yields_plaintext C oc ops call meth p \<longleftrightarrow>
     (\<exists>dv r' dv'. call = Some (Ok dv, r') \<and> read_at C oc ops dv 0 512 = Some (Ok p, dv')
        \<and> encryption_method (dv_metadata dv') = meth)"

section \<open>The image parses to its metadata\<close>

lemma entry_bytes_eq:
  "entry_bytes et vt dat = encode_entry \<lparr>entry_type = et, value_type = vt, version = 1, entry_data = dat\<rparr>"
  by (simp add: entry_bytes_def encode_entry_def)

lemma method_of_fixture: "encryption_method (fixture_metadata vd fc meth) = meth"
  by (simp add: fixture_metadata_def)

lemma fixture_entries_eq:
  "fixture_entries vd fc = encode_entries (entries (fixture_metadata vd fc meth))"
  by (simp add: fixture_entries_def entry_bytes_eq encode_entries_def fixture_metadata_def)

lemma length_fixture_entries: "length (fixture_entries vd fc) = 40 + length vd + length fc"
  by (simp add: fixture_entries_def entry_bytes_def)

lemma fixture_image_fields:
  fixes vd fc ct :: bytes and meth :: u16
  assumes "length vd + length fc \<le> 10000" and "length ct = 512"
  defines "w \<equiv> fixture_image vd fc meth ct"
  shows "length w = IMAGE_SIZE" and "take 8 (drop 3 w) = SIG_TO_GO" and "le_u16 w 11 = 512"
    and "le_u64 w 440 = META_BLOCK_OFFSET" and "le_u64 w 448 = 0" and "le_u64 w 456 = 0"
    and "take 8 (drop 0x1000 w) = SIG_FVE" and "le_u64 w 0x1010 = ENCRYPTED_SIZE" and "le_u32 w 0x101C = 1"
    and "le_u64 w 0x1020 = META_BLOCK_OFFSET" and "le_u64 w 0x1028 = 0" and "le_u64 w 0x1030 = 0"
    and "le_u64 w 0x1038 = RELOCATED_OFFSET" and "le_u32 w 0x1040 = word_of_nat (88 + length vd + length fc)"
    and "le_u16 w 0x1064 = meth" and "take (40 + length vd + length fc) (drop 0x1070 w) = fixture_entries vd fc"
    and "take 512 (drop 0x4000 w) = ct" and "le_u64 w 0x1068 = 0" and "take 16 (drop 0x1050 w) = replicate 16 0"
proof -
  note s = w_def fixture_image_def apply_patches_eq patched_reads slice_simps Let_def length_fixture_entries zeros_read
  show len: "length w = IMAGE_SIZE"
    using assms(1,2) by (simp add: s)
  show "take 8 (drop 3 w) = SIG_TO_GO" "le_u64 w 440 = META_BLOCK_OFFSET" "take 8 (drop 0x1000 w) = SIG_FVE"
    "le_u64 w 0x1010 = ENCRYPTED_SIZE" "le_u32 w 0x101C = 1" "le_u64 w 0x1020 = META_BLOCK_OFFSET"
    "le_u64 w 0x1038 = RELOCATED_OFFSET" "le_u32 w 0x1040 = word_of_nat (88 + length vd + length fc)" "le_u16 w 0x1064 = meth"
    "take (40 + length vd + length fc) (drop 0x1070 w) = fixture_entries vd fc" "take 512 (drop 0x4000 w) = ct"
    using assms(1,2) by (simp_all add: s)
  show "le_u64 w 448 = 0" "le_u64 w 456 = 0" "le_u64 w 0x1028 = 0" "le_u64 w 0x1030 = 0" "le_u64 w 0x1068 = 0"
    "take 16 (drop 0x1050 w) = replicate 16 0"
    using assms(1,2) by (simp_all add: s)
  show "le_u16 w 11 = 512"
    by (rule sector_size_512) (use assms(1,2) in \<open>simp_all add: s\<close>)
qed

text \<open>Reads of the header sector and of the block are reads of the image.\<close>

lemma header_of_image:
  assumes "length img < 2 ^ 63" and "512 \<le> length img" and "take 8 (drop 3 img) = SIG_TO_GO" and "le_u16 img 11 = 512"
  shows "VolumeHeader_parse (take 512 img)
      = Ok \<lparr>variant = BitLockerToGo, bytes_per_sector = 512, bitlocker_guid = read_guid (take 512 img) 424,
           fve_metadata_offsets = [le_u64 img 440, le_u64 img 448, le_u64 img 456]\<rparr>"
proof -
  have "get_range (take 512 img) 3 11 = Some SIG_TO_GO"
    using assms by (simp add: get_range_def drop_take min_def)
  then show ?thesis
    using assms by (simp add: VolumeHeader_parse_def Let_def le16.rd_take le64.rd_take)
qed

lemma fixture_image_metadata:
  fixes vd fc ct :: bytes and meth :: u16
  assumes "length vd + length fc \<le> 10000" and "length ct = 512"
  shows "image_metadata (fixture_image vd fc meth ct) = Ok (fixture_metadata vd fc meth)"
proof -
  let ?img = "fixture_image vd fc meth ct" and ?md = "fixture_metadata vd fc meth"
  let ?b = "drop 0x1000 ?img"
  note f = fixture_image_fields [OF assms, of meth]
  have blk: "block_at ?img META_BLOCK_OFFSET = ?b"
    using f(1) by (simp add: block_at_def)
  have r: "le_u64 ?b n = le_u64 ?img (0x1000 + n)" "le_u32 ?b n = le_u32 ?img (0x1000 + n)"
    "le_u16 ?b n = le_u16 ?img (0x1000 + n)" for n
    using f(1) by (simp_all add: le64.rd_drop le32.rd_drop le16.rd_drop)
  have wf: "list_all wf_entry (entries ?md)"
    using assms(1) by (simp add: fixture_metadata_def wf_entry_def)
  have ents: "parse_sequence (fixture_entries vd fc) = entries ?md"
    unfolding fixture_entries_eq [of vd fc meth]
    by (rule parse_encode_entries [OF wf]) (use assms(1) length_fixture_entries [of vd fc] in \<open>simp flip: fixture_entries_eq [of vd fc meth]\<close>)
  have sz: "unat (word_of_nat (88 + length vd + length fc) :: u32) = 88 + length vd + length fc"
    using assms(1) by (simp add: unat_of_nat del: of_nat_add)
  have be: "block_entries ?b = (Ok (entries ?md) :: (bde_error, metadata_entry list) outcome)"
    using f(1,14,16) sz by (simp add: block_entries_eq r ents add.assoc)
  have guid: "read_guid ?b 80 = replicate 16 0" and ct0: "le_u64 ?b 104 = 0"
    using f(1,18,19) by (simp_all add: read_guid_eq r)
  have "FveMetadata_parse ?b 512 = (Ok (Some ?md) :: (bde_error, fve_metadata option) outcome)"
    using f be guid ct0
    by (simp add: FveMetadata_parse_eq r be Let_def)
      (simp add: fixture_metadata_def resolve_volume_header_def le_u64_pair length_fixture_entries)
  then have "candidate ?img 512 META_BLOCK_OFFSET = Some ?md"
    using blk by (simp add: candidate_def)
  then show ?thesis
    using f header_of_image [of ?img] by (simp add: image_metadata_def map_filter_simps)
qed

section \<open>The key chain\<close>

lemma take_key_in:
  assumes "length k = n" and "12 + n \<le> m"
  shows "get_range (copy_into (replicate m 0) 12 k) 12 (12 + n) = Some k"
  using assms by (simp add: get_range_def copy_into_def)

lemma vmk_head_reads: "length (vmk_head p) = 28" "le_u16 (vmk_head p @ xs) 26 = p" if "length xs < 10000"
proof -
  have eq: "vmk_head p = replicate 26 0 @ to_le p"
    by (simp add: vmk_head_def copy_into_def)
  show "length (vmk_head p) = 28" "le_u16 (vmk_head p @ xs) 26 = p"
    using that le16.rd_skip [of "replicate 26 0" "to_le p @ xs" 26] le16.rd_front [of p xs] by (simp_all add: eq)
qed

text \<open>Deriving the cipher of a fixture, for any protector whose properties \<open>ps\<close> yield the wrapping key.\<close>

lemma fixture_derive:
  assumes "ccm_ok C" and "list_all wf_entry ps" and "length (encode_entries ps) < 10000"
    and "find_value VALUE_TYPE_AES_CCM ps = Some e" and "entry_data e = aes_ccm_wrap C ukey n1 (vmk_container vmk)"
    and "vmk_unwrap_key C ps unw = Ok ukey"
    and "length ukey = 32" and "length n1 = 12" and "length n2 = 12" and "length vmk = 32"
  shows "derive_cipher C (fixture_metadata (vmk_head prot @ encode_entries ps) (aes_ccm_wrap C vmk n2 fcont) meth)
           kind prot name unw = cipher_from_container kind fcont"
proof -
  let ?vd = "vmk_head prot @ encode_entries ps"
  let ?md = "fixture_metadata ?vd (aes_ccm_wrap C vmk n2 fcont) meth"
  let ?vmk = "\<lparr>entry_type = ENTRY_TYPE_VMK, value_type = VALUE_TYPE_VMK, version = 1, entry_data = ?vd\<rparr>"
  have h: "length (vmk_head prot) = 28" "le_u16 ?vd 26 = prot"
    using vmk_head_reads [OF assms(3)] by simp_all
  then have find_vmk: "find (\<lambda>e. protection_type e = Some prot) (vmk_entries ?md) = Some ?vmk"
    by (simp add: vmk_entries_def fixture_metadata_def is_vmk_def protection_type_def)
  have props: "nested ?vmk 28 = (Ok ps :: (bde_error, metadata_entry list) outcome)"
    using h parse_encode_entries [OF assms(2)] assms(3) by (simp add: nested_eq)
  have fe: "fvek_entry ?md = Some \<lparr>entry_type = ENTRY_TYPE_FVEK, value_type = VALUE_TYPE_AES_CCM, version = 1,
      entry_data = aes_ccm_wrap C vmk n2 fcont\<rparr>"
    by (simp add: fvek_entry_def fixture_metadata_def)
  have key: "take_key32 (vmk_container vmk) 12 w = Ok vmk" for w
    using take_key_in [OF assms(10), of 44] by (simp add: take_key32_def vmk_container_def)
  show ?thesis
    unfolding derive_cipher_def find_vmk
    by (simp add: props assms(4-6) fe key ccm_unwrap_wrap(1) [OF assms(1)] assms(7-10) del: type_code_defs)
qed

lemma fixture_first_sector:
  fixes vd fc p :: bytes
  assumes "primitives_ok C" and "length vd + length fc \<le> 10000" and "meth \<noteq> METHOD_NONE" and "length p = 512"
    and "ct = encrypt_sector C sc p RELOCATED_OFFSET"
  shows "view C sc (fixture_metadata vd fc meth) (fixture_image vd fc meth ct) 0 512 = p"
proof -
  let ?md = "fixture_metadata vd fc meth" and ?img = "fixture_image vd fc meth ct"
  have rt: "decrypt_sector C sc ct RELOCATED_OFFSET = p" "length ct = 512"
    using sector_roundtrip [OF primitives_okD(3-5) [OF assms(1)], of p sc RELOCATED_OFFSET] assms(4,5)
    by (auto simp: length_0_conv [symmetric] simp del: length_0_conv)
  have "view C sc ?md ?img 0 512 = view_sector C sc ?md ?img 0"
    using view_in_sector [of 0 512 C sc ?md ?img] by simp
  also have "\<dots> = fit 512 (decrypt_sector C sc (fit 512 (drop 0x4000 ?img)) RELOCATED_OFFSET)"
    using assms(3) by (simp add: view_sector_def sector_at_def blanked_def physical_of_def stored_plain_def fixture_metadata_def Let_def)
  also have "fit 512 (drop 0x4000 ?img) = ct"
    using fixture_image_fields(1,17) [OF assms(2) rt(2)] by (simp add: fit_def)
  finally show ?thesis
    using rt assms(4) by simp
qed

lemma fixture_safe: "length vd + length fc \<le> 10000 \<Longrightarrow> safe_layout (fixture_metadata vd fc meth)"
  by (simp add: safe_layout_def fixture_metadata_def length_fixture_entries unat_of_nat del: of_nat_add)

lemma length_pattern [simp]: "length (pattern x) = 512"
  by (simp add: pattern_def)

lemma length_sector: "primitives_ok C \<Longrightarrow> length p = 512 \<Longrightarrow> length (encrypt_sector C sc p off) = 512"
  using sector_roundtrip(2) [of C p sc off] by (auto simp: primitives_ok_def length_0_conv [symmetric] simp del: length_0_conv)

text \<open>What unlocking computes from the image of a fixture, whatever the protector and the cipher.\<close>

lemma fixture_unlock:
  assumes "primitives_ok C"
    and "list_all wf_entry ps" and "length (encode_entries ps) \<le> 5000" and "length fcont \<le> 1000"
    and "find_value VALUE_TYPE_AES_CCM ps = Some e" and "entry_data e = aes_ccm_wrap C ukey n1 (vmk_container vmk)"
    and "vmk_unwrap_key C ps unw = Ok ukey"
    and "length ukey = 32" "length n1 = 12" "length n2 = 12" "length vmk = 32"
    and "gate meth = Ok kind" and "cipher_from_container kind fcont = Ok sc" and "length ct = 512"
    and "vd = vmk_head prot @ encode_entries ps" and "fc = aes_ccm_wrap C vmk n2 fcont"
  shows "image_unlock C (fixture_image vd fc meth ct) prot name unw = Ok (fixture_metadata vd fc meth, sc)"
    and "length vd + length fc \<le> 10000"
proof -
  have "length fc = 28 + length fcont"
    using ccm_unwrap_wrap(2) [OF primitives_okD(2) [OF assms(1)]] assms(10,11,16) by simp
  then show len: "length vd + length fc \<le> 10000"
    using assms(3,4,15) vmk_head_reads(1) [of "encode_entries ps" prot] by simp
  show "image_unlock C (fixture_image vd fc meth ct) prot name unw = Ok (fixture_metadata vd fc meth, sc)"
    using fixture_image_metadata [OF len assms(14), of meth] assms(12,13)
      fixture_derive [OF primitives_okD(2) [OF assms(1)] assms(2) _ assms(5-7) assms(8-11), where prot = prot] assms(3)
    unfolding assms(15,16) by (simp add: image_unlock_def fixture_metadata_def)
qed

text \<open>The credential is a key hash stretched with the salt stored beside the wrapped VMK.\<close>

lemma stretch_fixture_unlock:
  assumes "primitives_ok C"
    and "length h = 32" "length salt = 16" "length n1 = 12" "length n2 = 12" "length vmk = 32" "length fcont \<le> 1000"
    and "gate meth = Ok kind" and "cipher_from_container kind fcont = Ok sc" and "length ct = 512"
    and "vd = stretch_vmk_data C prot h salt n1 vmk" and "fc = aes_ccm_wrap C vmk n2 fcont"
  shows "image_unlock C (fixture_image vd fc meth ct) prot name (Stretch h) = Ok (fixture_metadata vd fc meth, sc)"
    and "length vd + length fc \<le> 10000"
proof -
  let ?key = "stretch_key C h salt"
  let ?s = "\<lparr>entry_type = 0, value_type = VALUE_TYPE_STRETCH, version = 1, entry_data = replicate 4 0 @ salt\<rparr>"
  let ?e = "\<lparr>entry_type = 0, value_type = VALUE_TYPE_AES_CCM, version = 1, entry_data = aes_ccm_wrap C ?key n1 (vmk_container vmk)\<rparr>"
  have key: "length ?key = 32"
    using length_stretch_key [OF primitives_okD(1) [OF assms(1)]] assms(2,3) by simp
  have "length (aes_ccm_wrap C ?key n1 (vmk_container vmk)) = 72"
    using ccm_unwrap_wrap(2) [OF primitives_okD(2) [OF assms(1)]] assms(4,6) key by (simp add: vmk_container_def)
  then have side: "list_all wf_entry [?s, ?e]" "length (encode_entries [?s, ?e]) \<le> 5000"
      "find_value VALUE_TYPE_AES_CCM [?s, ?e] = Some ?e" "vmk_unwrap_key C [?s, ?e] (Stretch h) = Ok ?key"
    using assms(3) by (simp_all add: encode_entries_def wf_entry_def find_value_def vmk_unwrap_key_def get_range_def)
  have vd: "vd = vmk_head prot @ encode_entries [?s, ?e]"
    by (simp add: assms(11) stretch_vmk_data_def entry_bytes_eq encode_entries_def Let_def)
  note u = fixture_unlock [OF assms(1) side(1,2) assms(7) side(3) _ side(4) key assms(4-6) assms(8-10) vd assms(12)]
  show "image_unlock C (fixture_image vd fc meth ct) prot name (Stretch h) = Ok (fixture_metadata vd fc meth, sc)"
    and "length vd + length fc \<le> 10000"
    by (rule u; simp)+
qed

text \<open>Every fixture that unlocks to its metadata, whatever the reader, opens and reads.\<close>

context image_reader
begin

lemma unlocked_fixture_reads:
  assumes "primitives_ok C" and "inv r" and "img r = fixture_image vd fc meth ct"
    and "image_unlock C (img r) prot name unw = Ok (fixture_metadata vd fc meth, sc)" and "length vd + length fc \<le> 10000"
    and "meth \<noteq> METHOD_NONE" and "length p = 512" and "ct = encrypt_sector C sc p RELOCATED_OFFSET"
  shows "yields_plaintext C oc ops (unlock C ops r prot name unw) meth p"
proof -
  let ?md = "fixture_metadata vd fc meth"
  obtain r' where r': "unlock C ops r prot name unw
      = Some (Ok \<lparr>dv_reader = r', dv_cipher = sc, dv_metadata = ?md, dv_total_size = word_of_nat (length (img r)), dv_position = 0\<rparr>, r')"
    "inv r'" "img r' = img r"
    using unlock_image [OF assms(2), of C prot name unw] assms(4) by auto
  let ?dv = "\<lparr>dv_reader = r', dv_cipher = sc, dv_metadata = ?md, dv_total_size = word_of_nat (length (img r)), dv_position = 0\<rparr>"
  have "view C sc ?md (img r) 0 512 = p"
    using fixture_first_sector [OF assms(1,5-8)] assms(3) by simp
  then obtain dv' where "read_at C oc ops ?dv 0 512 = Some (Ok p, dv')" "same_volume inv img ?dv dv'"
    using read_at_image [of ?dv 0 512 C oc] r' fixture_safe [OF assms(5), of meth] by auto
  then show ?thesis
    using r'(1) by (simp add: yields_plaintext_def same_volume_def method_of_fixture)
qed

lemma fixture_opens:
  assumes "primitives_ok C" and "inv r"
    and "img r = fixture_image (vmk_head prot @ encode_entries ps) (aes_ccm_wrap C vmk n2 fcont) meth ct"
    and "list_all wf_entry ps" and "length (encode_entries ps) \<le> 5000" and "length fcont \<le> 1000"
    and "find_value VALUE_TYPE_AES_CCM ps = Some e" and "entry_data e = aes_ccm_wrap C ukey n1 (vmk_container vmk)"
    and "vmk_unwrap_key C ps unw = Ok ukey"
    and "length ukey = 32" "length n1 = 12" "length n2 = 12" "length vmk = 32"
    and "gate meth = Ok kind" and "cipher_from_container kind fcont = Ok sc"
    and "length p = 512" and "ct = encrypt_sector C sc p RELOCATED_OFFSET"
  shows "yields_plaintext C oc ops (unlock C ops r prot name unw) meth p"
proof -
  have "length ct = 512" "meth \<noteq> METHOD_NONE"
    using gate_Ok [OF assms(14)] length_sector [OF assms(1,16)] by (auto simp: assms(17))
  note u = fixture_unlock [OF assms(1) assms(4-15) this(1) refl refl]
  show ?thesis
    by (rule unlocked_fixture_reads [OF assms(1-3) _ u(2) \<open>meth \<noteq> METHOD_NONE\<close> assms(16,17)]) (simp only: assms(3) u(1))
qed

lemma stretch_fixture_opens:
  assumes "primitives_ok C" and "inv r"
    and "img r = fixture_image (stretch_vmk_data C prot h salt n1 vmk) (aes_ccm_wrap C vmk n2 fcont) meth ct"
    and "length h = 32" "length salt = 16" "length n1 = 12" "length n2 = 12" "length vmk = 32" "length fcont \<le> 1000"
    and "gate meth = Ok kind" and "cipher_from_container kind fcont = Ok sc"
    and "length p = 512" and "ct = encrypt_sector C sc p RELOCATED_OFFSET"
  shows "yields_plaintext C oc ops (unlock C ops r prot name (Stretch h)) meth p"
proof -
  have "length ct = 512" "meth \<noteq> METHOD_NONE"
    using gate_Ok [OF assms(10)] length_sector [OF assms(1,12)] by (auto simp: assms(13))
  note u = stretch_fixture_unlock [OF assms(1) assms(4-11) this(1) refl refl]
  show ?thesis
    by (rule unlocked_fixture_reads [OF assms(1-3) _ u(2) \<open>meth \<noteq> METHOD_NONE\<close> assms(12,13)]) (simp only: assms(3) u(1))
qed

end

section \<open>Credentials\<close>

lemma gates:
  "gate 0x8000 = Ok KCbc128Diffuser" "gate 0x8002 = Ok KCbc128" "gate 0x8003 = Ok KCbc256"
  "gate 0x8004 = Ok KXts128" "gate 0x8005 = Ok KXts256"
  by (simp_all add: gate_def decode_values validated_kind_def)

lemma containers:
  "length k = 16 \<Longrightarrow> length t = 16 \<Longrightarrow>
   cipher_from_container KCbc128Diffuser (copy_into (copy_into (replicate 76 0) 12 k) 44 t) = Ok (SectorCipher_new k t)"
  "length k = 16 \<Longrightarrow> cipher_from_container KCbc128 (copy_into (replicate 44 0) 12 k) = Ok (SectorCipher_new_cbc k)"
  "length k = 32 \<Longrightarrow> cipher_from_container KCbc256 (copy_into (replicate 76 0) 12 k) = Ok (SectorCipher_new_cbc256 k)"
  "length k = 32 \<Longrightarrow> cipher_from_container KXts128 (copy_into (replicate 76 0) 12 k) = Ok (SectorCipher_new_xts128 k)"
  "length k = 64 \<Longrightarrow> cipher_from_container KXts256 (copy_into (replicate 76 0) 12 k) = Ok (SectorCipher_new_xts256 k)"
  by (simp_all add: cipher_from_container_def take_key16_def take_key32_def take_key64_def get_range_def copy_into_def)

lemma cbc_encrypt_sector_eq:
  "length p = 512 \<Longrightarrow> cbc_ok C \<Longrightarrow> cbc_encrypt_sector C k off p = encrypt_sector C (SectorCipher_new_cbc k) p off"
  by (simp add: cbc_encrypt_sector_def encrypt_sector_def SectorCipher_new_cbc_def le128_def cbc_okD Let_def)

lemma length_password_hash: "sha256_ok C \<Longrightarrow> length (password_hash C p) = 32"
  by (simp add: password_hash_def sha256_ok_def Let_def)

text \<open>Every fixture is \<open>IMAGE_SIZE\<close> bytes long.\<close>

lemma length_wrapped: "primitives_ok C \<Longrightarrow> length k = 32 \<Longrightarrow> length n = 12 \<Longrightarrow> length (aes_ccm_wrap C k n p) = 28 + length p"
  using ccm_unwrap_wrap(2) primitives_okD(2) by blast

lemma length_vmk_parts:
  "length (vmk_head p) = 28" "length (entry_bytes et vt dat) = 8 + length dat"
  "length vmk = 32 \<Longrightarrow> length (vmk_container vmk) = 44"
  by (simp_all add: vmk_head_def entry_bytes_def vmk_container_def)

lemma length_stretch_vmk_data:
  assumes "primitives_ok C" "length h = 32" "length salt = 16" "length n = 12" "length vmk = 32"
  shows "length (stretch_vmk_data C prot h salt n vmk) = 136"
  using assms length_stretch_key [OF primitives_okD(1) [OF assms(1)]]
  by (simp add: stretch_vmk_data_def length_vmk_parts length_wrapped Let_def)

lemmas fixture_lengths =
  length_wrapped length_sector length_vmk_parts length_stretch_vmk_data fixture_image_fields(1)

lemma length_build_volume: "primitives_ok C \<Longrightarrow> length (fst (build_volume C pw)) = IMAGE_SIZE"
  using length_password_hash [OF primitives_okD(1)] by (simp add: build_volume_def fixture_lengths Let_def)

lemma length_build_xts128: "primitives_ok C \<Longrightarrow> length h = 32 \<Longrightarrow> length (fst (build_xts128_volume C h)) = IMAGE_SIZE"
  by (simp add: build_xts128_volume_def fixture_lengths Let_def)

lemma length_build_clearkey: "primitives_ok C \<Longrightarrow> length (fst (build_clearkey_volume C b)) = IMAGE_SIZE"
  by (simp add: build_clearkey_volume_def fixture_lengths Let_def)

lemma length_build_startupkey: "primitives_ok C \<Longrightarrow> length (fst (build_startupkey_volume C)) = IMAGE_SIZE"
  by (simp add: build_startupkey_volume_def fixture_lengths Let_def)

lemma parse_build_bek: "length k = 32 \<Longrightarrow> parse_startup_key (build_bek k) = Ok k"
proof -
  assume k: "length k = 32"
  let ?key = "\<lparr>entry_type = 0, value_type = VALUE_TYPE_KEY, version = 1, entry_data = replicate 4 0 @ k\<rparr>"
  let ?ext = "\<lparr>entry_type = 0, value_type = VALUE_TYPE_EXTERNAL_KEY, version = 1, entry_data = replicate 24 0 @ encode_entries [?key]\<rparr>"
  have "build_bek k = replicate 48 0 @ encode_entries [?ext]"
    by (simp add: build_bek_def entry_bytes_eq encode_entries_def)
  moreover have "parse_sequence (encode_entries [?ext]) = [?ext]" "parse_sequence (encode_entries [?key]) = [?key]"
    using k by (intro parse_encode_entries; simp add: wf_entry_def encode_entries_def)+
  ultimately show ?thesis
    using k by (simp add: parse_startup_key_def get_from_def nested_eq find_value_def take_key32_def get_range_def)
qed

context image_reader
begin

text \<open>The credential is the key itself: stored in the metadata, or brought in the startup-key file.\<close>

lemma direct_fixture_opens:
  assumes "primitives_ok C" and "inv r"
    and "img r = fixture_image (vmk_head prot @ encode_entries (ps @
           [\<lparr>entry_type = 0, value_type = VALUE_TYPE_AES_CCM, version = 1, entry_data = aes_ccm_wrap C ukey n1 (vmk_container vmk)\<rparr>]))
           (aes_ccm_wrap C vmk n2 fcont) meth ct"
    and "list_all wf_entry ps" and "length (encode_entries ps) \<le> 4000" and "find_value VALUE_TYPE_AES_CCM ps = None"
    and "vmk_unwrap_key C (ps @
           [\<lparr>entry_type = 0, value_type = VALUE_TYPE_AES_CCM, version = 1, entry_data = aes_ccm_wrap C ukey n1 (vmk_container vmk)\<rparr>]) unw = Ok ukey"
    and "length ukey = 32" "length n1 = 12" "length n2 = 12" "length vmk = 32" "length fcont \<le> 1000"
    and "gate meth = Ok kind" and "cipher_from_container kind fcont = Ok sc"
    and "length p = 512" and "ct = encrypt_sector C sc p RELOCATED_OFFSET"
  shows "yields_plaintext C oc ops (unlock C ops r prot name unw) meth p"
proof -
  let ?e = "\<lparr>entry_type = 0, value_type = VALUE_TYPE_AES_CCM, version = 1, entry_data = aes_ccm_wrap C ukey n1 (vmk_container vmk)\<rparr>"
  have "length (aes_ccm_wrap C ukey n1 (vmk_container vmk)) = 72"
    using ccm_unwrap_wrap(2) [OF primitives_okD(2) [OF assms(1)]] assms(8,9,11) by (simp add: vmk_container_def)
  moreover have "find_value VALUE_TYPE_AES_CCM (ps @ [?e]) = Some ?e"
    using assms(6) find_value_skip [of VALUE_TYPE_AES_CCM ps ?e "[]"] by (auto simp: find_value_def find_None_iff list_all_iff)
  ultimately show ?thesis
    using assms(4,5)
    by (intro fixture_opens [where e = ?e, OF assms(1,2,3) _ _ assms(12) _ _ assms(7-11) assms(13-16)])
      (simp_all add: wf_entry_def encode_entries_def)
qed

end

lemma clearkey_volume_opens:
  assumes "primitives_ok C" and "image_reader ops ok img pos patience" and "ok r"
    and "img r = fst (build_clearkey_volume C True)"
  shows "yields_plaintext C oc ops (unlock_clear_key C ops r) 0x8004 (snd (build_clearkey_volume C True))"
  using image_reader.direct_fixture_opens [OF assms(2,1,3), of PROTECTION_CLEAR "[\<lparr>entry_type = 0, value_type = VALUE_TYPE_KEY, version = 1,
          entry_data = replicate 4 0 @ replicate 32 0x77\<rparr>]" "replicate 32 0x77" _ _ _ _ _ _ ClearKey, OF _ _ _ _ _ _ _ _ _ _ gates(4) containers(4)]
    assms(4)
  by (simp add: build_clearkey_volume_def unlock_clear_key_def entry_bytes_eq encode_entries_def find_value_def
      vmk_unwrap_key_def take_key32_def get_range_def wf_entry_def Let_def)

text \<open>The other way: the stored tag does not verify.\<close>

lemma fixture_rejects:
  assumes "list_all wf_entry ps" and "length (encode_entries ps) \<le> 5000" and "length fc \<le> 1000"
    and "find_value VALUE_TYPE_AES_CCM ps = Some e" and "length ct = 512" and "gate meth = Ok kind"
    and "bind_outcome (vmk_unwrap_key C ps unw) (\<lambda>k. ok_or (aes_ccm_unwrap C k (entry_data e)) (AuthenticationFailed ''volume master key''))
      = Err err"
  shows "image_unlock C (fixture_image (vmk_head prot @ encode_entries ps) fc meth ct) prot name unw = Err err"
proof -
  have short: "length (encode_entries ps) < 10000"
    using assms(2) by simp
  note head = vmk_head_reads [OF short, of prot]
  let ?md = "fixture_metadata (vmk_head prot @ encode_entries ps) fc meth"
  let ?vmk = "\<lparr>entry_type = ENTRY_TYPE_VMK, value_type = VALUE_TYPE_VMK, version = 1, entry_data = vmk_head prot @ encode_entries ps\<rparr>"
  have find_vmk: "find (\<lambda>e. protection_type e = Some prot) (vmk_entries ?md) = Some ?vmk"
    using head by (simp add: vmk_entries_def fixture_metadata_def is_vmk_def protection_type_def)
  have props: "nested ?vmk 28 = (Ok ps :: (bde_error, metadata_entry list) outcome)"
    using head(1) parse_encode_entries [OF assms(1)] short by (simp add: nested_eq)
  have "derive_cipher C ?md kind prot name unw = Err err"
    unfolding derive_cipher_def find_vmk using assms(7)
    by (cases "vmk_unwrap_key C ps unw") (auto simp: props assms(4) simp del: type_code_defs)
  then show ?thesis
    using fixture_image_metadata [of "vmk_head prot @ encode_entries ps" fc ct meth] head(1) assms(2,3,5,6)
    by (simp add: image_unlock_def method_of_fixture)
qed

lemma stretch_fixture_rejects:
  assumes "primitives_ok C" and "length h = 32" "length salt = 16" "length n1 = 12" "length vmk = 32"
    and "length fc \<le> 1000" and "length ct = 512" and "gate meth = Ok kind"
    and "aes_ccm_unwrap C (stretch_key C h' salt) (aes_ccm_wrap C (stretch_key C h salt) n1 (vmk_container vmk)) = None"
  shows "image_unlock C (fixture_image (stretch_vmk_data C prot h salt n1 vmk) fc meth ct) prot name (Stretch h')
      = Err (AuthenticationFailed ''volume master key'')"
proof -
  let ?w = "aes_ccm_wrap C (stretch_key C h salt) n1 (vmk_container vmk)"
  let ?ps = "[\<lparr>entry_type = 0, value_type = VALUE_TYPE_STRETCH, version = 1, entry_data = replicate 4 0 @ salt\<rparr>,
      \<lparr>entry_type = 0, value_type = VALUE_TYPE_AES_CCM, version = 1, entry_data = ?w\<rparr>]"
  have vd: "stretch_vmk_data C prot h salt n1 vmk = vmk_head prot @ encode_entries ?ps"
    by (simp add: stretch_vmk_data_def entry_bytes_eq encode_entries_def Let_def)
  have "length ?w = 72"
    using length_stretch_key [OF primitives_okD(1) [OF assms(1)] assms(2,3)] assms(4,5) by (simp add: fixture_lengths assms(1))
  then show ?thesis
    unfolding vd using assms(3,6-9)
    by (intro fixture_rejects [where e = "?ps ! 1"]) (simp_all add: encode_entries_def wf_entry_def find_value_def vmk_unwrap_key_def get_range_def)
qed

text \<open>The volumes of the other ciphers, by recovery password, and the startup-key volume.\<close>

lemma recovery_fixtures_open:
  assumes "primitives_ok C" and "image_reader ops ok img pos patience" and "ok r" and "length ws = 8"
    and "(meth, img r, p) \<in>
      {(0x8002, build_cbc_volume C PROTECTION_RECOVERY (sha256 C (concat (map to_le ws)))),
       (0x8003, build_cbc256_volume C (sha256 C (concat (map to_le ws)))),
       (0x8004, build_xts128_volume C (sha256 C (concat (map to_le ws)))),
       (0x8005, build_xts256_volume C (sha256 C (concat (map to_le ws))))}"
  shows "yields_plaintext C oc ops (unlock_with_recovery_password C ops r (recovery_text ws)) meth p"
proof -
  let ?h = "sha256 C (concat (map to_le ws))"
  have h: "length ?h = 32"
    using primitives_okD(1) [OF assms(1)] by (simp add: sha256_ok_def)
  note opens = image_reader.stretch_fixture_opens [OF assms(2,1,3)]
  have "yields_plaintext C oc ops (unlock C ops r PROTECTION_RECOVERY ''recovery password'' (Stretch ?h)) meth p"
    using assms(5)
  proof (elim insertE emptyE)
    assume "(meth, img r, p) = (0x8002, build_cbc_volume C PROTECTION_RECOVERY ?h)"
    then have i: "img r = fst (build_cbc_volume C PROTECTION_RECOVERY ?h)" and "meth = 0x8002" "p = pattern 0x3c"
      by (simp_all add: build_cbc_volume_def prod_eq_iff Let_def)
    then show ?thesis
      using opens [OF i [unfolded build_cbc_volume_def Let_def fst_conv] h _ _ _ _ _ gates(2) containers(2)]
      by (simp add: cbc_encrypt_sector_eq primitives_okD(3) [OF assms(1)])
  next
    assume "(meth, img r, p) = (0x8003, build_cbc256_volume C ?h)"
    then have i: "img r = fst (build_cbc256_volume C ?h)" and "meth = 0x8003" "p = pattern 0x71"
      by (simp_all add: build_cbc256_volume_def prod_eq_iff Let_def)
    then show ?thesis
      using opens [OF i [unfolded build_cbc256_volume_def Let_def fst_conv] h _ _ _ _ _ gates(3) containers(3)] by simp
  next
    assume "(meth, img r, p) = (0x8004, build_xts128_volume C ?h)"
    then have i: "img r = fst (build_xts128_volume C ?h)" and "meth = 0x8004" "p = pattern 0x2e"
      by (simp_all add: build_xts128_volume_def prod_eq_iff Let_def)
    then show ?thesis
      using opens [OF i [unfolded build_xts128_volume_def Let_def fst_conv] h _ _ _ _ _ gates(4) containers(4)] by simp
  next
    assume "(meth, img r, p) = (0x8005, build_xts256_volume C ?h)"
    then have i: "img r = fst (build_xts256_volume C ?h)" and "meth = 0x8005" "p = pattern 0x17"
      by (simp_all add: build_xts256_volume_def prod_eq_iff Let_def)
    then show ?thesis
      using opens [OF i [unfolded build_xts256_volume_def Let_def fst_conv] h _ _ _ _ _ gates(5) containers(5)] by simp
  qed
  then show ?thesis
    using recovery_key_hash_text [OF assms(4), of C] by (simp add: unlock_with_recovery_password_def)
qed

lemma startupkey_volume_opens:
  assumes "primitives_ok C" and "image_reader ops ok img pos patience" and "ok r"
    and "img r = fst (build_startupkey_volume C)"
  shows "yields_plaintext C oc ops (unlock_with_startup_key C ops r (snd (snd (build_startupkey_volume C)))) 0x8004
    (fst (snd (build_startupkey_volume C)))"
  using image_reader.direct_fixture_opens [OF assms(2,1,3), of PROTECTION_STARTUP_KEY "[]" "replicate 32 0x9a" _ _ _ _ _ _
      "External (replicate 32 0x9a)", OF _ _ _ _ _ _ _ _ _ _ gates(4) containers(4)] assms(4)
  by (simp add: build_startupkey_volume_def unlock_with_startup_key_def parse_build_bek entry_bytes_eq encode_entries_def
      find_value_def vmk_unwrap_key_def Let_def)

lemma password_fixture_opens:
  assumes "primitives_ok C" and "image_reader ops ok img pos patience" and "ok r"
    and "img r = fst (build_volume C pw)"
  shows "yields_plaintext C oc ops (unlock_with_password C ops r pw) 0x8000 (snd (build_volume C pw))"
proof -
  note i = assms(4) [unfolded build_volume_def Let_def fst_conv]
  show ?thesis
    using image_reader.stretch_fixture_opens [OF assms(2,1,3) i _ _ _ _ _ _ gates(1) containers(1)]
      length_password_hash [OF primitives_okD(1) [OF assms(1)]]
    by (simp add: build_volume_def unlock_with_password_def Let_def)
qed

end
