(* ===== verification/Shared.thy ===== *)
theory Shared
  imports Vfs Fixtures
begin

text \<open>
  The opened VFS source (\<^verbatim>\<open>core/src/vfs.rs\<close>) as several clients see it, and the adapter end to end.  The
  source hands every read to one volume behind a \<^verbatim>\<open>Mutex\<close>, so the reads of all clients form one sequence;
  any order is a run of \<open>shared_step\<close>.  A read that panics while it holds the lock poisons the mutex, and
  the next one takes the volume out of the poisoned lock as it was left.  \<open>build_encrypted\<close> is the
  synthetic volume of the adapter's unit tests.
\<close>

section \<open>A source shared by clients\<close>

record 'r shared_source =
  sh_source :: "'r bitlocker_source"
  sh_poisoned :: bool

text \<open>A request is a client, an offset and a buffer size.\<close>

inductive shared_step ::
    "primitives \<Rightarrow> bool \<Rightarrow> 'r reader_ops \<Rightarrow> 'r shared_source \<Rightarrow> nat \<times> u64 \<times> nat \<Rightarrow> (vfs_error, bytes) outcome
     \<Rightarrow> 'r shared_source \<Rightarrow> bool"
  for C oc ops where
  client_read: "source_read_at C oc ops (sh_source s) off n = Some (x, src)
    \<Longrightarrow> shared_step C oc ops s (client, off, n) x (s\<lparr>sh_source := src, sh_poisoned := sh_poisoned s \<or> x = Panic\<rparr>)"

inductive_cases shared_stepE: "shared_step C oc ops s (client, off, n) x s'"

inductive shared_run ::
    "primitives \<Rightarrow> bool \<Rightarrow> 'r reader_ops \<Rightarrow> 'r shared_source
     \<Rightarrow> ((nat \<times> u64 \<times> nat) \<times> (vfs_error, bytes) outcome) list \<Rightarrow> 'r shared_source \<Rightarrow> bool"
  for C oc ops where
  run_start: "shared_run C oc ops s [] s"
| run_step: "shared_run C oc ops s evs s1 \<Longrightarrow> shared_step C oc ops s1 q x s2
    \<Longrightarrow> shared_run C oc ops s (evs @ [(q, x)]) s2"

text \<open>An opened source: a volume over a reader of its image, of any layout, and the length it reported.\<close>

definition source_ok :: "('r \<Rightarrow> bool) \<Rightarrow> 'r bitlocker_source \<Rightarrow> bool" where
  "source_ok ok src \<longleftrightarrow> ok (dv_reader (src_inner src)) \<and> src_len src = dv_total_size (src_inner src)"

definition same_source :: "('r \<Rightarrow> bool) \<Rightarrow> ('r \<Rightarrow> bytes) \<Rightarrow> 'r bitlocker_source \<Rightarrow> 'r bitlocker_source \<Rightarrow> bool" where
  "same_source ok img src src' \<longleftrightarrow> same_volume ok img (src_inner src) (src_inner src') \<and> src_len src' = src_len src"

definition answer_of :: "primitives \<Rightarrow> bool \<Rightarrow> 'r reader_ops \<Rightarrow> 'r bitlocker_source \<Rightarrow> u64 \<Rightarrow> nat
    \<Rightarrow> (vfs_error, bytes) outcome option" where
  "answer_of C oc ops src off n = map_option fst (source_read_at C oc ops src off n)"

lemma same_source_trans: "same_source ok img a b \<Longrightarrow> same_source ok img b c \<Longrightarrow> same_source ok img a c"
  by (auto simp: same_source_def intro: same_volume_trans)

context image_reader
begin

text \<open>One read, on two sources that differ only in the state of their readers.\<close>

lemma source_read_outcome:
  assumes "source_ok inv src" and "same_source inv img src src2" and "n < 2 ^ 64"
  shows "\<exists>x a b. source_read_at C oc ops src off n = Some (x, a) \<and> source_read_at C oc ops src2 off n = Some (x, b)
      \<and> same_source inv img src a \<and> same_source inv img src2 b
      \<and> (if oc then x \<in> {Panic, Ok (take n (drop (unat off) (dv_img C img (src_inner src))))} else (\<exists>bs. x = Ok bs))"
proof -
  let ?v = "src_inner src" and ?avail = "sat_sub_u64 (src_len src) off"
  have len: "src_len src2 = src_len src" "src_len src = dv_total_size ?v"
    using assms(1,2) by (simp_all add: same_source_def source_ok_def)
  have avail: "unat ?avail = unat (dv_total_size ?v) - unat off"
    by (simp add: sat_sub_exact len)
  have oks: "inv (dv_reader ?v)" "same_volume inv img ?v (src_inner src2)" "same_source inv img src src" "same_source inv img src2 src2"
    using assms(1,2) by (simp_all add: source_ok_def same_source_def same_volume_def)
  show ?thesis
  proof (cases "?avail = 0")
    case True
    then have "unat (dv_total_size ?v) \<le> unat off"
      using avail by simp
    then show ?thesis
      using True oks len by (auto simp: source_read_at_def dv_img_def)
  next
    case False
    define k where "k = min n (unat ?avail)"
    have k: "k < 2 ^ 64" "k = min n (unat (dv_total_size ?v) - unat off)"
      using assms(3) by (simp_all add: k_def avail)
    have slice: "take n (drop (unat off) (dv_img C img ?v)) = view C (dv_cipher ?v) (dv_metadata ?v) (img (dv_reader ?v)) (unat off) k"
    proof -
      have "0 < unat ?avail"
        using False by (simp add: unat_gt_0)
      then have "unat off + k \<le> unat (dv_total_size ?v)"
        using k(2) avail by linarith
      moreover have "take n (drop (unat off) (dv_img C img ?v)) = take k (drop (unat off) (dv_img C img ?v))"
        by (simp add: k(2) dv_img_def min_def)
      ultimately show ?thesis
        using take_drop_view [of "unat off" k "unat (dv_total_size ?v)"] by (simp add: dv_img_def)
    qed
    obtain x dv' dw' where r: "read_at C oc ops ?v off k = Some (x, dv')" "read_at C oc ops (src_inner src2) off k = Some (x, dw')"
      "same_volume inv img ?v dv'" "same_volume inv img (src_inner src2) dw'"
      and x: "x = Panic \<and> oc \<or> (\<exists>bs. x = Ok bs \<and> (oc \<longrightarrow> bs = take n (drop (unat off) (dv_img C img ?v))))"
      using read_at_loop_outcome [OF oks(1,2) k(1), of 0 "[]" C oc off] unfolding slice read_at_def by auto
    have "source_read_at C oc ops src off n = Some (map_err map_bde_err x, src\<lparr>src_inner := dv'\<rparr>)"
      "source_read_at C oc ops src2 off n = Some (map_err map_bde_err x, src2\<lparr>src_inner := dw'\<rparr>)"
      using False r(1,2) len(1) by (simp_all add: source_read_at_def Let_def flip: k_def)
    moreover have "same_source inv img src (src\<lparr>src_inner := dv'\<rparr>)" "same_source inv img src2 (src2\<lparr>src_inner := dw'\<rparr>)"
      using r(3,4) by (simp_all add: same_source_def)
    ultimately show ?thesis
      using x by auto
  qed
qed

lemma shared_run_answers:
  assumes "shared_run C oc ops s evs s'" and "source_ok inv (sh_source s)"
    and "\<forall>((client, off, n), x) \<in> set evs. n < 2 ^ 64"
  shows "same_source inv img (sh_source s) (sh_source s')
    \<and> (\<forall>((client, off, n), x) \<in> set evs. answer_of C oc ops (sh_source s) off n = Some x)"
  using assms
proof (induction rule: shared_run.induct)
  case (run_start s)
  then show ?case
    by (simp add: same_source_def source_ok_def same_volume_refl)
next
  case (run_step s evs s1 q x s2)
  obtain client off n where q: "q = (client, off, n)"
    by (cases q) auto
  have same: "same_source inv img (sh_source s) (sh_source s1)"
    and IH: "\<forall>((client, off, n), x) \<in> set evs. answer_of C oc ops (sh_source s) off n = Some x" and n: "n < 2 ^ 64"
    using run_step q by auto
  obtain y a b where y: "source_read_at C oc ops (sh_source s) off n = Some (y, a)"
    "source_read_at C oc ops (sh_source s1) off n = Some (y, b)" "same_source inv img (sh_source s1) b"
    using source_read_outcome [OF run_step.prems(1) same n, of C oc off] by blast
  have "x = y" "sh_source s2 = b"
    using run_step.hyps(2) y(2) unfolding q by (auto elim!: shared_stepE)
  then show ?case
    using IH y(1) same_source_trans [OF same y(3)] by (auto simp: q answer_of_def)
qed

end

section \<open>The volume of the adapter's tests\<close>

text \<open>\<^verbatim>\<open>build_encrypted\<close>: the bytes it wraps into a source, and the plaintext of the first sector.\<close>

definition build_encrypted :: "primitives \<Rightarrow> str \<Rightarrow> bytes \<times> bytes" where
  "build_encrypted C pw =
     (let salt = replicate 16 0x33; fvek = replicate 16 0x11; tweak = replicate 16 0x22; vmk = replicate 32 0x44;
          stretched = stretch_key C (password_hash C pw) salt;
          vmk_ccm = aes_ccm_wrap C stretched (replicate 12 0x55) (vmk_container vmk);
          fvek_container = copy_into (copy_into (replicate 76 0) 12 fvek) 44 tweak;
          fvek_ccm = aes_ccm_wrap C vmk (replicate 12 0x66) fvek_container;
          stretch_entry = entry_bytes 0 VALUE_TYPE_STRETCH (replicate 4 0 @ salt);
          vmk_ccm_entry = entry_bytes 0 VALUE_TYPE_AES_CCM vmk_ccm;
          vmk_data = vmk_head PROTECTION_PASSWORD @ stretch_entry @ vmk_ccm_entry;
          plain = pattern 0x5a;
          ct = encrypt_sector C (SectorCipher_new fvek tweak) plain RELOCATED_OFFSET
      in (fixture_image vmk_data fvek_ccm 0x8000 ct, plain))"

lemma build_encrypted_eq: "build_encrypted C pw = build_volume C pw"
  by (simp add: build_encrypted_def build_volume_def stretch_vmk_data_def Let_def)

lemma fixture_other_protector:
  assumes "length vd + length fc \<le> 10000" and "length ct = 512" and "gate meth = Ok kind"
    and "vd = vmk_head prot @ xs" and "prot' \<noteq> prot" and "length xs < 10000"
  shows "image_unlock C (fixture_image vd fc meth ct) prot' name unw = Err (NoUnlockProtector name [prot])"
proof -
  have h: "length (vmk_head prot) = 28" "le_u16 vd 26 = prot"
    using vmk_head_reads [OF assms(6), of prot] assms(4) by simp_all
  then have "protector_types (fixture_metadata vd fc meth) = [prot]"
    "find (\<lambda>e. protection_type e = Some prot') (vmk_entries (fixture_metadata vd fc meth)) = None"
    using assms(4,5) by (simp_all add: protector_types_def vmk_entries_def fixture_metadata_def is_vmk_def protection_type_def
        map_filter_simps)
  then show ?thesis
    using fixture_image_metadata [OF assms(1,2), of meth] assms(3)
    by (simp add: image_unlock_def method_of_fixture derive_cipher_def)
qed

lemma stretch_fixture_other:
  assumes "primitives_ok C" and "length h = 32" "length salt = 16" "length n1 = 12" "length vmk = 32"
    and "length fc \<le> 1000" and "length ct = 512" and "gate meth = Ok kind" and "prot' \<noteq> prot"
  shows "image_unlock C (fixture_image (stretch_vmk_data C prot h salt n1 vmk) fc meth ct) prot' name unw
    = Err (NoUnlockProtector name [prot])"
proof -
  let ?vd = "stretch_vmk_data C prot h salt n1 vmk"
  note len = length_stretch_vmk_data [OF assms(1-5), of prot]
  have "\<exists>xs. ?vd = vmk_head prot @ xs \<and> length xs < 10000"
    using len by (auto simp: stretch_vmk_data_def length_vmk_parts Let_def)
  then show ?thesis
    using fixture_other_protector [of ?vd fc ct meth kind prot _ prot' C name unw] len assms(6-9) by auto
qed

lemma build_encrypted_unlock:
  assumes "primitives_ok C"
  shows "\<exists>md sc. image_unlock C (fst (build_encrypted C pw)) PROTECTION_PASSWORD ''password'' (Stretch (password_hash C pw)) = Ok (md, sc)
      \<and> safe_layout md \<and> view C sc md (fst (build_encrypted C pw)) 0 512 = snd (build_encrypted C pw)"
    and "image_unlock C (fst (build_encrypted C pw)) PROTECTION_RECOVERY name unw = Err (NoUnlockProtector name [PROTECTION_PASSWORD])"
proof -
  let ?h = "password_hash C pw" and ?k = "replicate 16 0x11 :: bytes" and ?t = "replicate 16 0x22 :: bytes"
  let ?vd = "stretch_vmk_data C PROTECTION_PASSWORD ?h (replicate 16 0x33) (replicate 12 0x55) (replicate 32 0x44)"
  let ?fc = "aes_ccm_wrap C (replicate 32 0x44) (replicate 12 0x66) (copy_into (copy_into (replicate 76 0) 12 ?k) 44 ?t)"
  let ?ct = "encrypt_sector C (SectorCipher_new ?k ?t) (pattern 0x5a) RELOCATED_OFFSET"
  have img: "fst (build_encrypted C pw) = fixture_image ?vd ?fc 0x8000 ?ct" "snd (build_encrypted C pw) = pattern 0x5a"
    by (simp_all add: build_encrypted_eq build_volume_def Let_def)
  have h: "length ?h = 32" and ct: "length ?ct = 512"
    using length_password_hash [OF primitives_okD(1) [OF assms]] length_sector [OF assms] by simp_all
  note u = stretch_fixture_unlock [OF assms h _ _ _ _ _ gates(1) containers(1) ct refl refl, where salt = "replicate 16 0x33"]
  have len: "length ?vd + length ?fc \<le> 10000"
    by (rule u(2)) simp_all
  have "view C (SectorCipher_new ?k ?t) (fixture_metadata ?vd ?fc 0x8000) (fixture_image ?vd ?fc 0x8000 ?ct) 0 512 = pattern 0x5a"
    by (rule fixture_first_sector [OF assms len]) simp_all
  then show "\<exists>md sc. image_unlock C (fst (build_encrypted C pw)) PROTECTION_PASSWORD ''password'' (Stretch ?h) = Ok (md, sc)
      \<and> safe_layout md \<and> view C sc md (fst (build_encrypted C pw)) 0 512 = snd (build_encrypted C pw)"
    unfolding img using u(1) fixture_safe [OF len] by (intro exI conjI) simp_all
  show "image_unlock C (fst (build_encrypted C pw)) PROTECTION_RECOVERY name unw = Err (NoUnlockProtector name [PROTECTION_PASSWORD])"
    unfolding img by (rule stretch_fixture_other [OF assms h _ _ _ _ ct gates(1)]) (simp_all add: length_wrapped [OF assms])
qed

text \<open>Opening the layer over it: the password gives a source whose plaintext is known, a recovery key an error.\<close>

lemma encrypted_layer_opens:
  assumes "primitives_ok C" and "image_reader ops ok img pos patience" and "ok r"
    and "r = mk_cursor (encrypted layer) 0 (layer_len layer)" and "img r = fst (build_encrypted C pw)"
  shows "\<exists>src. layer_open C ops mk_cursor layer (Password pw # creds) = Some (Ok src) \<and> dv_inv ok img (src_inner src)
      \<and> src_len src = dv_total_size (src_inner src) \<and> src_len src = word_of_nat IMAGE_SIZE
      \<and> length (dv_img C img (src_inner src)) = IMAGE_SIZE
      \<and> take 512 (dv_img C img (src_inner src)) = snd (build_encrypted C pw)"
    and "\<exists>e. layer_open C ops mk_cursor layer [RecoveryKey rk] = Some (Err (map_bde_err e))"
proof -
  note u = build_encrypted_unlock [OF assms(1), of pw]
  note step = image_reader.try_step [OF assms(2,3), of C]
  have size: "length (img r) = IMAGE_SIZE"
    using length_build_volume [OF assms(1)] assms(5) by (simp add: build_encrypted_eq)
  obtain md sc where md: "attempt C (img r) (Password pw) = Some (Ok (md, sc))" "safe_layout md"
      "view C sc md (img r) 0 512 = snd (build_encrypted C pw)"
    using u(1) assms(5) by auto
  obtain r' where r': "ok r'" "img r' = img r" "layer_open C ops mk_cursor layer (Password pw # creds)
      = Some (Ok (BitlockerSource_new \<lparr>dv_reader = r', dv_cipher = sc, dv_metadata = md,
                    dv_total_size = word_of_nat (length (img r)), dv_position = 0\<rparr>))"
    using step [OF md(1)] assms(4) by (auto simp: layer_open_def)
  have first: "take 512 (view C sc md (img r) 0 IMAGE_SIZE) = snd (build_encrypted C pw)"
    using md(3) take_drop_view [of 0 512 IMAGE_SIZE C sc md "img r" 0] by simp
  show "\<exists>src. layer_open C ops mk_cursor layer (Password pw # creds) = Some (Ok src) \<and> dv_inv ok img (src_inner src)
      \<and> src_len src = dv_total_size (src_inner src) \<and> src_len src = word_of_nat IMAGE_SIZE
      \<and> length (dv_img C img (src_inner src)) = IMAGE_SIZE
      \<and> take 512 (dv_img C img (src_inner src)) = snd (build_encrypted C pw)"
    using r' md(2) size first by (auto simp: BitlockerSource_new_def dv_inv_def dv_img_def)
  obtain e where "attempt C (img r) (RecoveryKey rk) = Some (Err e)"
    using u(2) recovery_hash_no_panic(2) [of C rk] assms(5) by (cases "recovery_key_hash C rk") auto
  from step [OF this] assms(4) show "\<exists>e. layer_open C ops mk_cursor layer [RecoveryKey rk] = Some (Err (map_bde_err e))"
    by (intro exI [of _ e]) (auto simp: layer_open_def)
qed

section \<open>Properties\<close>

text \<open>
  Property C7.  Clients that share an opened source do not disturb one another, whatever the metadata
  and whatever the order of their reads: every read gets the answer it would have got from the source as
  it was opened.  On metadata that keeps the sums exact this answer is the slice of the plaintext at the
  offset, cut at its end; on any other it is that slice or a panic with overflow checks, and never a
  panic without them.  A read can always be served, also after a panic has poisoned the lock.
\<close>

theorem shared_reads_independent:
  assumes "image_reader ops ok img pos patience" and "source_ok ok (sh_source s)" and "shared_run C oc ops s evs s'"
    and "\<forall>((client, off, n), x) \<in> set evs. n < 2 ^ 64"
  shows "(\<forall>((client, off, n), x) \<in> set evs. answer_of C oc ops (sh_source s) off n = Some x
        \<and> (if oc then x \<in> {Panic, Ok (take n (drop (unat off) (dv_img C img (src_inner (sh_source s)))))} else (\<exists>bs. x = Ok bs))
        \<and> (dv_inv ok img (src_inner (sh_source s)) \<longrightarrow> x = Ok (take n (drop (unat off) (dv_img C img (src_inner (sh_source s)))))))
    \<and> (\<forall>client off n. n < 2 ^ 64 \<longrightarrow> (\<exists>x s2. shared_step C oc ops s' (client, off, n) x s2))"
proof -
  note read = image_reader.source_read_outcome [OF assms(1,2), where C = C and oc = oc]
  have run: "same_source ok img (sh_source s) (sh_source s')"
      "\<forall>((client, off, n), x) \<in> set evs. answer_of C oc ops (sh_source s) off n = Some x"
    using image_reader.shared_run_answers [OF assms(1,3,2,4)] by blast+
  have "\<exists>x s2. shared_step C oc ops s' (client, off, n) x s2" if "n < 2 ^ 64" for client off n
    using read [OF run(1) that] shared_step.client_read [of C oc ops s'] by meson
  moreover have "if oc then x \<in> {Panic, Ok (take n (drop (unat off) (dv_img C img (src_inner (sh_source s)))))} else (\<exists>bs. x = Ok bs)"
    if "((client, off, n), x) \<in> set evs" for client off n x
    using read [OF run(1), of n off] run(2) assms(4) that by (fastforce simp: answer_of_def)
  moreover have "x = Ok (take n (drop (unat off) (dv_img C img (src_inner (sh_source s)))))"
    if "((client, off, n), x) \<in> set evs" and "dv_inv ok img (src_inner (sh_source s))" for client off n x
    using image_reader.source_read_at_image [OF assms(1) that(2), of C oc off n] run(2) assms(2) that(1)
    by (fastforce simp: answer_of_def source_ok_def)
  ultimately show ?thesis
    using run(2) by fast
qed

theorem shared_reads_independent_witness:
  "\<exists>x s'. shared_run demo True cursor_ops \<lparr>sh_source = BitlockerSource_new demo_volume, sh_poisoned = True\<rparr> [((1, 1020, 9), x)] s'
     \<and> x = Ok (drop 1020 (dv_img demo cur_data demo_volume))"
proof -
  let ?s = "\<lparr>sh_source = BitlockerSource_new demo_volume, sh_poisoned = True\<rparr>"
  have ok: "source_ok cursor_inv (sh_source ?s)"
    using demo_volume_inv by (simp add: source_ok_def BitlockerSource_new_def dv_inv_def)
  have "same_source cursor_inv cur_data (sh_source ?s) (sh_source ?s)"
    using ok by (simp add: same_source_def source_ok_def same_volume_refl)
  then obtain x src where "source_read_at demo True cursor_ops (sh_source ?s) 1020 9 = Some (x, src)"
    using cur.source_read_outcome [OF ok, of "sh_source ?s" 9 demo True 1020] by auto
  then obtain s' where run: "shared_run demo True cursor_ops ?s [((1, 1020, 9), x)] s'"
    using shared_run.run_step [OF shared_run.run_start shared_step.client_read] by fastforce
  have "length (dv_img demo cur_data demo_volume) = 1024"
    by (simp add: dv_img_def demo_volume_def)
  with run show ?thesis
    using shared_reads_independent [OF cur.image_reader_axioms ok run] demo_volume_inv(1) by (auto simp: BitlockerSource_new_def)
qed

text \<open>
  Property C24.  The adapter end to end, on the volume of its tests and for any cursor over the source
  that reads its bytes: a password offered first opens the volume, the source reports the image size,
  reads the first sector back, nothing at the end, and a clamped buffer before it; a recovery key, well
  formed or not, ends in a decode error; credentials the layer does not use, or none, in a request for
  credentials.
\<close>

theorem vfs_layer_end_to_end:
  assumes "primitives_ok C" and "image_reader ops ok img pos patience" and "ok r"
    and "r = mk_cursor (encrypted layer) 0 (layer_len layer)" and "img r = fst (build_encrypted C pw)"
  shows "(\<exists>src. layer_open C ops mk_cursor layer (Password pw # creds) = Some (Ok src) \<and> src_len src = word_of_nat IMAGE_SIZE
        \<and> (\<exists>src'. source_read_at C oc ops src 0 512 = Some (Ok (snd (build_encrypted C pw)), src'))
        \<and> (\<exists>src'. source_read_at C oc ops src (word_of_nat IMAGE_SIZE) 512 = Some (Ok [], src'))
        \<and> (\<exists>src' bs. source_read_at C oc ops src (word_of_nat (IMAGE_SIZE - 512)) 1024 = Some (Ok bs, src') \<and> length bs = 512))
    \<and> (\<exists>e. layer_open C ops mk_cursor layer [RecoveryKey rk] = Some (Err (map_bde_err e)))
    \<and> layer_open C ops mk_cursor layer [OtherCredential] = Some (Err (NeedCredentials ''bitlocker'' []))
    \<and> layer_open C ops mk_cursor layer [] = Some (Err (NeedCredentials ''bitlocker'' []))"
proof -
  obtain src where src: "layer_open C ops mk_cursor layer (Password pw # creds) = Some (Ok src)" "dv_inv ok img (src_inner src)"
    "src_len src = dv_total_size (src_inner src)" "src_len src = word_of_nat IMAGE_SIZE"
    "length (dv_img C img (src_inner src)) = IMAGE_SIZE" "take 512 (dv_img C img (src_inner src)) = snd (build_encrypted C pw)"
    using encrypted_layer_opens(1) [where mk_cursor = mk_cursor and layer = layer, OF assms] by blast
  note read = image_reader.source_read_at_image [OF assms(2) src(2,3), of C oc]
  have "\<exists>src'. source_read_at C oc ops src 0 512 = Some (Ok (snd (build_encrypted C pw)), src')"
    "\<exists>src'. source_read_at C oc ops src (word_of_nat IMAGE_SIZE) 512 = Some (Ok [], src')"
    "\<exists>src' bs. source_read_at C oc ops src (word_of_nat (IMAGE_SIZE - 512)) 1024 = Some (Ok bs, src') \<and> length bs = 512"
    using read [of 0 512] read [of "word_of_nat IMAGE_SIZE" 512] read [of "word_of_nat (IMAGE_SIZE - 512)" 1024] src(5,6) by auto
  moreover have "layer_open C ops mk_cursor layer [OtherCredential] = Some (Err (NeedCredentials ''bitlocker'' []))"
    "layer_open C ops mk_cursor layer [] = Some (Err (NeedCredentials ''bitlocker'' []))"
    by (simp_all add: layer_open_def)
  ultimately show ?thesis
    using src(1,4) encrypted_layer_opens(2) [where mk_cursor = mk_cursor and layer = layer and rk = rk, OF assms] by blast
qed

theorem vfs_layer_end_to_end_witness:
  "\<exists>src. layer_open demo cursor_ops (\<lambda>s _ _. cursor_of s)
     (BitlockerLayer_new (\<lambda>s. word_of_nat (length s)) (fst (build_encrypted demo (lit ''test-pw'')))) [Password (lit ''test-pw'')]
     = Some (Ok src) \<and> src_len src = 0x5000"
proof -
  let ?layer = "BitlockerLayer_new (\<lambda>s. word_of_nat (length s)) (fst (build_encrypted demo (lit ''test-pw'')))"
  let ?r = "cursor_of (fst (build_encrypted demo (lit ''test-pw'')))"
  have ok: "cursor_inv ?r"
    using length_build_volume [OF demo_ok, of "lit ''test-pw''"] by (simp add: cursor_of_def cursor_inv_def build_encrypted_eq)
  from vfs_layer_end_to_end [where mk_cursor = "\<lambda>s _ _. cursor_of s" and layer = ?layer and r = ?r and pw = "lit ''test-pw''"
      and creds = "[]" and oc = True, OF demo_ok cur.image_reader_axioms ok]
  show ?thesis
    by (fastforce simp: BitlockerLayer_new_def cursor_of_def)
qed

end
