(* ===== verification/TestImages.thy ===== *)
theory TestImages
  imports Fixtures
begin

text \<open>
  The remaining fixtures of the unit tests of \<^verbatim>\<open>core/src/volume.rs\<close>, for the ways an unlock fails:
  \<open>meta_only_image\<close>, an image that holds metadata but no key material, and \<open>flaky_reader\<close>, a reader
  that is interrupted and then breaks.  What the code answers on them is stated for every method,
  protector list, protector asked for and header.
\<close>

section \<open>Metadata-only images\<close>

definition bare_vmk :: "u16 \<Rightarrow> bytes" where
  "bare_vmk p = entry_bytes 0x0002 0x0008 (copy_into (replicate 28 0) 26 (to_le p))"

text \<open>The slices are in range, and nothing panics, where the block and its entries fit into the image.\<close>

definition meta_only_image :: "u16 \<Rightarrow> u16 list \<Rightarrow> u64 \<times> u64 \<times> u64 \<Rightarrow> nat option \<Rightarrow> bytes" where
  "meta_only_image meth protectors header_offsets block =
     (let ents = concat (map bare_vmk protectors);
          size' = 48 + length ents;
          image = apply_patches (replicate 0x2000 0)
            [(0, [0xeb, 0x58, 0x90]), (3, SIG_TO_GO), (12, [0x02]), (440, to_le (fst header_offsets)),
             (448, to_le (fst (snd header_offsets))), (456, to_le (snd (snd header_offsets)))]
      in case block of
           None \<Rightarrow> image
         | Some mb \<Rightarrow> apply_patches image
             [(mb, SIG_FVE), (mb + 10, to_le (2 :: u16)), (mb + 32, to_le (word_of_nat mb :: u64)),
              (mb + 64, to_le (word_of_nat size' :: u32)), (mb + 64 + 36, to_le meth), (mb + 64 + 48, ents)])"

text \<open>The metadata it carries.\<close>

definition bare_entry :: "u16 \<Rightarrow> metadata_entry" where
  "bare_entry p = \<lparr>entry_type = ENTRY_TYPE_VMK, value_type = VALUE_TYPE_VMK, version = 1, entry_data = vmk_head p\<rparr>"

definition bare_metadata :: "u16 \<Rightarrow> u16 list \<Rightarrow> fve_metadata" where
  "bare_metadata meth protectors =
     \<lparr>encryption_method = meth, volume_guid = replicate 16 0, creation_time = 0, entries = map bare_entry protectors,
      encrypted_volume_size = 0, volume_header_offset = 0, volume_header_size = 0, metadata_offsets = [0x1000, 0, 0],
      metadata_size = word_of_nat (48 + 36 * length protectors)\<rparr>"

lemma bare_vmk_eq: "bare_vmk p = encode_entry (bare_entry p)"
  by (simp add: bare_vmk_def bare_entry_def entry_bytes_eq vmk_head_def)

lemma bare_entries_eq: "concat (map bare_vmk ps) = encode_entries (map bare_entry ps)"
  by (simp add: encode_entries_def comp_def flip: bare_vmk_eq)

lemma length_bare: "length (concat (map bare_vmk ps)) = 36 * length ps"
  by (induction ps) (simp_all add: bare_vmk_def entry_bytes_def)

lemma bare_parse: "length ps \<le> 110 \<Longrightarrow> parse_sequence (concat (map bare_vmk ps)) = map bare_entry ps"
  using length_bare [of ps] unfolding bare_entries_eq
  by (intro parse_encode_entries) (auto simp: list_all_iff wf_entry_def bare_entry_def vmk_head_def)

lemma meta_only_fields:
  fixes a b c :: u64 and meth :: u16 and ps :: "u16 list"
  assumes "length ps \<le> 110"
  defines "w \<equiv> meta_only_image meth ps (a, b, c) (Some 0x1000)"
  shows "length w = 0x2000" and "take 8 (drop 3 w) = SIG_TO_GO" and "le_u16 w 11 = 512"
    and "le_u64 w 440 = a" and "le_u64 w 448 = b" and "le_u64 w 456 = c"
    and "take 8 (drop 0x1000 w) = SIG_FVE" and "le_u64 w 0x1010 = 0" and "le_u32 w 0x101C = 0"
    and "le_u64 w 0x1020 = 0x1000" and "le_u64 w 0x1028 = 0" and "le_u64 w 0x1030 = 0" and "le_u64 w 0x1038 = 0"
    and "le_u32 w 0x1040 = word_of_nat (48 + 36 * length ps)" and "le_u16 w 0x1064 = meth" and "le_u64 w 0x1068 = 0"
    and "take 16 (drop 0x1050 w) = replicate 16 0"
    and "take (36 * length ps) (drop 0x1070 w) = concat (map bare_vmk ps)"
proof -
  have eq: "w = patched (replicate 0x2000 0)
      [(0x1070, concat (map bare_vmk ps)), (0x1064, to_le meth), (0x1040, to_le (word_of_nat (48 + 36 * length ps) :: u32)),
       (0x1020, to_le (0x1000 :: u64)), (0x100A, to_le (2 :: u16)), (0x1000, SIG_FVE),
       (456, to_le c), (448, to_le b), (440, to_le a), (12, [0x02]), (3, SIG_TO_GO), (0, [0xeb, 0x58, 0x90])]"
    by (simp add: w_def meta_only_image_def apply_patches_eq Let_def length_bare flip: patched_append)
  note s = eq patched_reads slice_simps length_bare zeros_read
  have zeros32: "le_u32 (replicate 0x2000 0) off = 0" for off
    by (simp add: le32.rd_eq)
  show len: "length w = 0x2000"
    using assms(1) by (simp add: s)
  show "take 8 (drop 3 w) = SIG_TO_GO" "le_u64 w 440 = a" "le_u64 w 448 = b" "le_u64 w 456 = c"
    "take 8 (drop 0x1000 w) = SIG_FVE" "le_u64 w 0x1010 = 0" "le_u32 w 0x101C = 0"
    "le_u64 w 0x1020 = 0x1000" "le_u64 w 0x1028 = 0" "le_u64 w 0x1030 = 0" "le_u64 w 0x1038 = 0"
    using assms(1) by (simp_all add: s zeros32)
  show "le_u32 w 0x1040 = word_of_nat (48 + 36 * length ps)" "le_u16 w 0x1064 = meth" "le_u64 w 0x1068 = 0"
    "take 16 (drop 0x1050 w) = replicate 16 0" "take (36 * length ps) (drop 0x1070 w) = concat (map bare_vmk ps)"
    using assms(1) by (simp_all add: s)
  show "le_u16 w 11 = 512"
    by (rule sector_size_512) (use assms(1) in \<open>simp_all add: s\<close>)
qed

lemma meta_only_candidate:
  assumes "length ps \<le> 110"
  shows "candidate (meta_only_image meth ps (a, b, c) (Some 0x1000)) 512 0x1000 = Some (bare_metadata meth ps)"
proof -
  let ?img = "meta_only_image meth ps (a, b, c) (Some 0x1000)"
  let ?b = "drop 0x1000 ?img"
  note f = meta_only_fields [OF assms, of meth a b c]
  have r: "le_u64 ?b n = le_u64 ?img (0x1000 + n)" "le_u32 ?b n = le_u32 ?img (0x1000 + n)"
    "le_u16 ?b n = le_u16 ?img (0x1000 + n)" for n
    using f(1) by (simp_all add: le64.rd_drop le32.rd_drop le16.rd_drop)
  have sz: "unat (word_of_nat (48 + 36 * length ps) :: u32) = 48 + 36 * length ps"
    using assms by (simp add: unat_of_nat del: of_nat_add of_nat_mult)
  have be: "block_entries ?b = (Ok (map bare_entry ps) :: (bde_error, metadata_entry list) outcome)"
    using f(1,14,18) sz bare_parse [OF assms] by (auto simp: block_entries_eq r add.commute)
  have guid: "read_guid ?b 80 = replicate 16 0"
    using f(1,17) by (simp add: read_guid_eq)
  have vh: "find (\<lambda>e. entry_type e = ENTRY_TYPE_VOLUME_HEADER) (map bare_entry ps) = None"
    by (auto simp: find_None_iff bare_entry_def)
  have "FveMetadata_parse ?b 512 = (Ok (Some (bare_metadata meth ps)) :: (bde_error, fve_metadata option) outcome)"
    using f guid vh by (simp add: FveMetadata_parse_eq r be Let_def resolve_volume_header_def bare_metadata_def)
  then show ?thesis
    using f(1) by (simp add: candidate_def block_at_def)
qed

lemma meta_only_metadata:
  assumes "length ps \<le> 110" and "{a, b, c} \<subseteq> {0, 0x1000}" and "0x1000 \<in> {a, b, c}"
  shows "image_metadata (meta_only_image meth ps (a, b, c) (Some 0x1000)) = Ok (bare_metadata meth ps)"
proof -
  let ?img = "meta_only_image meth ps (a, b, c) (Some 0x1000)"
  note f = meta_only_fields [OF assms(1), of meth a b c] and cand = meta_only_candidate [OF assms(1), of meth a b c]
  have zero: "candidate ?img 512 0 = None"
    by (simp add: candidate_def)
  have "a \<in> {0, 0x1000}" "b \<in> {0, 0x1000}" "c \<in> {0, 0x1000}"
    using assms(2) by simp_all
  then show ?thesis
    using header_of_image [of ?img] f(1-6) cand zero assms(3) by (auto simp: image_metadata_def map_filter_simps)
qed

lemma bare_protectors:
  "vmk_entries (bare_metadata meth ps) = map bare_entry ps" "protection_type (bare_entry p) = Some p"
  "protector_types (bare_metadata meth ps) = ps" "nested (bare_entry p) 28 = Ok []"
proof -
  show e: "vmk_entries (bare_metadata meth ps) = map bare_entry ps"
    by (induction ps) (simp_all add: vmk_entries_def bare_metadata_def is_vmk_def bare_entry_def)
  show p: "protection_type (bare_entry p) = Some p" for p
    using vmk_head_reads [of "[]" p] by (simp add: protection_type_def bare_entry_def is_vmk_def)
  show "protector_types (bare_metadata meth ps) = ps"
    unfolding protector_types_def e by (induction ps) (simp_all add: map_filter_simps p)
  show "nested (bare_entry p) 28 = Ok []"
    using vmk_head_reads [of "[]" p] parse_encode_entries [of "[]"] by (simp add: nested_eq bare_entry_def encode_entries_def)
qed

lemma length_meta_only: "length (meta_only_image meth ps (a, b, c) None) = 0x2000"
  by (simp add: meta_only_image_def apply_patches_eq length_patched Let_def)

text \<open>Without a block there is nothing but zeros past the header sector.\<close>

lemma meta_only_no_block:
  assumes "a = 0 \<or> 512 \<le> unat a" "b = 0 \<or> 512 \<le> unat b" "c = 0 \<or> 512 \<le> unat c"
  shows "image_metadata (meta_only_image meth ps (a, b, c) None) = Err (NoValidMetadata [a, b, c])"
proof -
  let ?img = "meta_only_image meth ps (a, b, c) None"
  have eq: "?img = patched (replicate 0x2000 0)
      [(456, to_le c), (448, to_le b), (440, to_le a), (12, [0x02]), (3, SIG_TO_GO), (0, [0xeb, 0x58, 0x90])]"
    by (simp add: meta_only_image_def apply_patches_eq Let_def)
  note s = eq patched_reads slice_simps zeros_read
  have f: "length ?img = 0x2000" "take 8 (drop 3 ?img) = SIG_TO_GO" "le_u64 ?img 440 = a" "le_u64 ?img 448 = b" "le_u64 ?img 456 = c"
    by (simp_all add: s)
  have "le_u16 ?img 11 = 512"
    by (rule sector_size_512) (simp_all add: s)
  then have hd: "VolumeHeader_parse (take 512 ?img) = Ok \<lparr>variant = BitLockerToGo, bytes_per_sector = 512,
      bitlocker_guid = read_guid (take 512 ?img) 424, fve_metadata_offsets = [a, b, c]\<rparr>"
    using header_of_image [of ?img] f by simp
  have none: "candidate ?img 512 off = None" if "off = 0 \<or> 512 \<le> unat off" for off
  proof (cases "off = 0")
    case False
    have "take 1 (drop n ?img) = replicate (min 1 (0x2000 - n)) 0" if "512 \<le> n" for n
      using that by (simp add: s)
    then have "take 1 (block_at ?img off) = replicate (min 1 (0x2000 - unat off)) 0"
      using that False by (simp add: block_at_def)
    moreover have "replicate (min 1 k) 0 \<noteq> take 1 SIG_FVE" for k :: nat
      by (cases k) (simp_all add: SIG_FVE_def)
    ultimately have "take 1 (take 8 (block_at ?img off)) \<noteq> take 1 SIG_FVE"
      by simp
    then have "take 8 (block_at ?img off) \<noteq> SIG_FVE"
      by metis
    then show ?thesis
      by (simp add: candidate_def FveMetadata_parse_eq)
  qed (simp add: candidate_def)
  then show ?thesis
    using hd f(1) assms by (simp add: image_metadata_def map_filter_simps)
qed

lemma gate_refuses:
  "gate 0x8001 = Err (UnvalidatedEncryptionMethod 0x8001)"
  "raw \<notin> {0x8000, 0x8001, 0x8002, 0x8003, 0x8004, 0x8005} \<Longrightarrow> gate raw = Err (UnsupportedEncryptionMethod raw)"
proof -
  show "gate raw = Err (UnsupportedEncryptionMethod raw)" if "raw \<notin> {0x8000, 0x8001, 0x8002, 0x8003, 0x8004, 0x8005}"
    using decode_recognised [of raw] that by (cases "EncryptionMethod_decode raw") (simp_all add: gate_def)
qed (simp add: gate_def decode_values validated_kind_def)

lemma bare_unlock:
  assumes "length ps \<le> 110" and "{a, b, c} \<subseteq> {0, 0x1000}" and "0x1000 \<in> {a, b, c}"
  shows "image_unlock C (meta_only_image meth ps (a, b, c) (Some 0x1000)) prot name unw
    = Err (if meth = 0x8001 then UnvalidatedEncryptionMethod meth
           else if meth \<notin> {0x8000, 0x8002, 0x8003, 0x8004, 0x8005} then UnsupportedEncryptionMethod meth
           else if prot \<in> set ps then MissingKeyMaterial ''VMK AES-CCM key'' else NoUnlockProtector name ps)"
proof -
  have derive: "derive_cipher C (bare_metadata meth ps) kind prot name unw
      = Err (if prot \<in> set ps then MissingKeyMaterial ''VMK AES-CCM key'' else NoUnlockProtector name ps)" for kind
  proof (cases "prot \<in> set ps")
    case True
    have "find (\<lambda>e. protection_type e = Some prot) (map bare_entry ps) = Some (bare_entry prot)"
      using True by (induction ps) (auto simp: bare_protectors)
    then show ?thesis
      using True by (simp add: derive_cipher_def bare_protectors find_value_def)
  next
    case False
    then have "find (\<lambda>e. protection_type e = Some prot) (map bare_entry ps) = None"
      by (auto simp: find_None_iff bare_protectors)
    then show ?thesis
      using False by (simp add: derive_cipher_def bare_protectors)
  qed
  have m: "encryption_method (bare_metadata meth ps) = meth" for meth
    by (simp add: bare_metadata_def)
  show ?thesis
  proof (cases "meth \<in> {0x8000, 0x8002, 0x8003, 0x8004, 0x8005}")
    case True
    then obtain kind where "gate meth = Ok kind"
      using gates by auto
    with True show ?thesis
      using meta_only_metadata [OF assms, of meth] by (auto simp: image_unlock_def m derive)
  next
    case False
    then show ?thesis
      using meta_only_metadata [OF assms, of meth] gate_refuses(1) gate_refuses(2) [of meth]
      by (cases "meth = 0x8001") (auto simp: image_unlock_def m)
  qed
qed

section \<open>A reader that breaks\<close>

text \<open>\<^verbatim>\<open>FlakyReader\<close>: the header on the first read, then one interruption, then a hard error on every read.\<close>

record flaky_reader =
  flaky_header :: bytes
  flaky_phase :: nat

definition EINTR :: io_error where
  "EINTR = \<lparr>io_kind_of = Interrupted, io_text = ''eintr''\<rparr>"

definition BOOM :: io_error where
  "BOOM = \<lparr>io_kind_of = OtherError, io_text = ''boom''\<rparr>"

definition flaky_read :: "flaky_reader \<Rightarrow> nat \<Rightarrow> (io_error, bytes, flaky_reader) io" where
  "flaky_read r n =
     (let phase = flaky_phase r + 1; r' = r\<lparr>flaky_phase := phase\<rparr>
      in if phase = 1 then Some (Ok (take (min n (length (flaky_header r))) (flaky_header r)), r')
         else if phase = 2 then Some (Err EINTR, r')
         else Some (Err BOOM, r'))"

definition flaky_seek :: "flaky_reader \<Rightarrow> seek_from \<Rightarrow> (io_error, u64, flaky_reader) io" where
  "flaky_seek r p = Some (Ok 0, r)"

definition flaky_ops :: "flaky_reader reader_ops" where
  "flaky_ops = \<lparr>read_op = flaky_read, seek_op = flaky_seek\<rparr>"

lemma flaky_errors [simp]: "io_kind_of BOOM = OtherError" "io_kind_of EINTR = Interrupted"
  by (simp_all add: BOOM_def EINTR_def)

text \<open>After its first read the reader fills no buffer: the interruption is retried and the error reported.\<close>

lemma flaky_fill_late:
  assumes "length filled < n"
  shows "fill_loop flaky_ops \<lparr>flaky_header = h, flaky_phase = 1\<rparr> n filled = Some (Err BOOM, \<lparr>flaky_header = h, flaky_phase = 3\<rparr>)"
proof -
  have "fill_loop flaky_ops \<lparr>flaky_header = h, flaky_phase = 2\<rparr> n filled = Some (Err BOOM, \<lparr>flaky_header = h, flaky_phase = 3\<rparr>)"
    using assms by (subst fill_loop.simps) (simp add: flaky_ops_def flaky_read_def Let_def)
  then show ?thesis
    using assms by (subst fill_loop.simps) (simp add: flaky_ops_def flaky_read_def Let_def numeral_2_eq_2)
qed

lemma flaky_fill_first:
  assumes "0 < n"
  shows "fill_loop flaky_ops \<lparr>flaky_header = h, flaky_phase = 0\<rparr> n [] =
    (if h = [] then Some (Ok [], \<lparr>flaky_header = h, flaky_phase = 1\<rparr>)
     else if length h < n then Some (Err BOOM, \<lparr>flaky_header = h, flaky_phase = 3\<rparr>)
     else Some (Ok (take n h), \<lparr>flaky_header = h, flaky_phase = 1\<rparr>))"
proof -
  have "fill_loop flaky_ops \<lparr>flaky_header = h, flaky_phase = 0\<rparr> n []
      = (if h = [] then Some (Ok [], \<lparr>flaky_header = h, flaky_phase = 1\<rparr>)
         else fill_loop flaky_ops \<lparr>flaky_header = h, flaky_phase = 1\<rparr> n (take n h))"
    using assms by (subst fill_loop.simps) (simp add: flaky_ops_def flaky_read_def Let_def min_def)
  moreover have "fill_loop flaky_ops \<lparr>flaky_header = h, flaky_phase = 1\<rparr> n (take n h) = Some (Ok (take n h), \<lparr>flaky_header = h, flaky_phase = 1\<rparr>)"
    if "n \<le> length h"
    using that by (subst fill_loop.simps) simp
  ultimately show ?thesis
    using flaky_fill_late [of "take n h" n h] by simp
qed

lemma flaky_try_offsets:
  "\<exists>r'. try_offsets flaky_ops \<lparr>flaky_header = h, flaky_phase = 1\<rparr> bps offs rest
     = Some (Err (if list_all (\<lambda>w. w = 0) rest then NoValidMetadata offs else Io BOOM), r')"
proof (induction rest)
  case (Cons off rest)
  have "read_available flaky_ops \<lparr>flaky_header = h, flaky_phase = 1\<rparr> METADATA_READ_LEN
      = Some (Err (Io BOOM), \<lparr>flaky_header = h, flaky_phase = 3\<rparr>)"
    using flaky_fill_late [of "[]" METADATA_READ_LEN h] by (simp add: read_available_def)
  with Cons show ?case
    by (auto simp: flaky_ops_def flaky_seek_def)
qed (simp add: pure_io_def)

section \<open>Properties\<close>

text \<open>
  Property C14.  An image with metadata but no key material is never unlocked, and the error says why.
  With the block in the image at one of its offsets (the others zero), whatever the reader, method,
  protectors and credential: the method is refused first, as unvalidated (0x8001) or unsupported; else a
  missing protector is reported with the protectors there are; else the missing wrapped key.  Without a
  block the error lists the offsets that were tried.
\<close>

theorem bare_metadata_outcomes:
  assumes "image_reader ops ok img pos patience" and "ok r" and "ok r2" and "length ps \<le> 110"
    and "{a, b, c} \<subseteq> {0, 0x1000}" and "0x1000 \<in> {a, b, c}" and "img r = meta_only_image meth ps (a, b, c) (Some 0x1000)"
    and "list_all (\<lambda>w. w = 0 \<or> 512 \<le> unat w) [x, y, z]" and "img r2 = meta_only_image meth ps (x, y, z) None"
  shows "(\<exists>r'. read_metadata ops r = Some (Ok (bare_metadata meth ps), r'))
    \<and> (\<exists>r'. unlock C ops r prot name unw
        = Some (Err (if meth = 0x8001 then UnvalidatedEncryptionMethod meth
             else if meth \<notin> {0x8000, 0x8002, 0x8003, 0x8004, 0x8005} then UnsupportedEncryptionMethod meth
             else if prot \<in> set ps then MissingKeyMaterial ''VMK AES-CCM key'' else NoUnlockProtector name ps), r'))
    \<and> (\<exists>r'. unlock C ops r2 prot name unw = Some (Err (NoValidMetadata [x, y, z]), r'))"
proof -
  note bare = bare_unlock [OF assms(4-6), of C meth prot name unw]
  have none: "image_metadata (img r2) = Err (NoValidMetadata [x, y, z])"
    using meta_only_no_block assms(8,9) by simp
  note u = image_reader.unlock_image [OF assms(1), of _ C prot name unw]
  have "\<exists>r'. read_metadata ops r = Some (Ok (bare_metadata meth ps), r')"
    using image_reader.read_metadata_image [OF assms(1,2)] meta_only_metadata [OF assms(4-6), of meth] assms(7) by auto
  then show ?thesis
    using u [OF assms(2)] u [OF assms(3)] bare none unfolding assms(7) by (auto simp: image_unlock_def)
qed

theorem bare_metadata_outcomes_witness:
  "\<exists>r'. unlock_with_password demo cursor_ops (cursor_of (meta_only_image 0x8000 [0x0800] (0, 0x1000, 0) (Some 0x1000))) (lit ''x'')
     = Some (Err (NoUnlockProtector ''password'' [0x0800]), r')"
proof -
  let ?r = "cursor_of (meta_only_image 0x8000 [0x0800] (0, 0x1000, 0) (Some 0x1000))"
  let ?r2 = "cursor_of (meta_only_image 0x8000 [0x0800] (0x1000, 0x1200, 0x1400) None)"
  have "cursor_inv ?r" "cursor_inv ?r2"
    using meta_only_fields(1) [of "[0x0800]" "0x8000" 0 "0x1000" 0] by (simp_all add: cursor_of_def cursor_inv_def length_meta_only)
  then show ?thesis
    using bare_metadata_outcomes [OF cur.image_reader_axioms, of ?r ?r2 "[0x0800]" 0 "0x1000" 0 "0x8000" "0x1000" "0x1200" "0x1400"
        demo PROTECTION_PASSWORD "''password''" "Stretch (password_hash demo (lit ''x''))"]
    by (simp add: unlock_with_password_def cursor_of_def)
qed

text \<open>
  Reading metadata from a reader that breaks after the header: the interruption is retried
  and the hard error reported as it is, unless the answer is known from the header alone (no
  signature, no offset to read at) or the header is empty.
\<close>

lemma flaky_reader_reports:
  "\<exists>r'. read_metadata flaky_ops \<lparr>flaky_header = h, flaky_phase = 0\<rparr>
    = Some (if h = [] then Err (Io EOF_ERROR)
            else if length h < SECTOR_SIZE then Err (Io BOOM)
            else (case VolumeHeader_parse (take SECTOR_SIZE h) of
                    Ok vh \<Rightarrow> Err (if list_all (\<lambda>w. w = 0) (fve_metadata_offsets vh) then NoValidMetadata (fve_metadata_offsets vh)
                                 else Io BOOM)
                  | Err e \<Rightarrow> Err e | Panic \<Rightarrow> Panic), r')"
proof -
  have seek: "seek_op flaky_ops r p = Some (Ok 0, r)" for r p
    by (simp add: flaky_ops_def flaky_seek_def)
  have fill: "read_fill flaky_ops \<lparr>flaky_header = h, flaky_phase = 0\<rparr> SECTOR_SIZE
      = (if h = [] then Some (Err (Io EOF_ERROR), \<lparr>flaky_header = h, flaky_phase = 1\<rparr>)
         else if length h < SECTOR_SIZE then Some (Err (Io BOOM), \<lparr>flaky_header = h, flaky_phase = 3\<rparr>)
         else Some (Ok (take SECTOR_SIZE h), \<lparr>flaky_header = h, flaky_phase = 1\<rparr>))"
    using flaky_fill_first [of SECTOR_SIZE h] by (simp add: read_fill_def read_exact_def pure_io_def)
  show ?thesis
    using flaky_try_offsets [of h]
    by (cases "VolumeHeader_parse (take SECTOR_SIZE h)")
      (simp_all add: read_metadata_def seek fill pure_io_def del: SECTOR_SIZE_def)
qed

end
