(* ===== verification/VolumeTests.thy ===== *)
theory VolumeTests
  imports Shared TestImages ParserTests
begin

text \<open>
  The unit tests of \<^verbatim>\<open>core/src/volume.rs\<close>, each as its assertions over the model, for a build with overflow
  checks (as tests are built) and for any primitives \<open>C\<close>.  They hold for all lawful primitives; the tests
  that only need a wrong key to be noticed say so in their hypothesis.
\<close>

section \<open>Assertions on calls\<close>

text \<open>\<open>opened\<close>: the unlock succeeds; \<open>served\<close>: the call on the volume succeeds; then the assertions that follow.\<close>

definition opened :: "(bde_error, 'r decrypted_volume, 'r) io \<Rightarrow> ('r decrypted_volume \<Rightarrow> bool) \<Rightarrow> bool" where
  "opened call k = (case call of Some (Ok vol, _) \<Rightarrow> k vol | _ \<Rightarrow> False)"

definition served :: "('e, 'a, 's) io \<Rightarrow> ('a \<Rightarrow> 's \<Rightarrow> bool) \<Rightarrow> bool" where
  "served call k = (case call of Some (Ok a, s) \<Rightarrow> k a s | _ \<Rightarrow> False)"

definition fails_with :: "('e, 'a, 's) io \<Rightarrow> ('e \<Rightarrow> bool) \<Rightarrow> bool" where
  "fails_with call p = (case call of Some (Err e, _) \<Rightarrow> p e | _ \<Rightarrow> False)"

text \<open>The pattern most tests end with: the first sector is the plaintext and the method is the one expected.\<close>

definition first_sector_is :: "primitives \<Rightarrow> bytes \<Rightarrow> u16 \<Rightarrow> cursor decrypted_volume \<Rightarrow> bool" where
  "first_sector_is C plain meth vol =
     served (read_at C True cursor_ops vol 0 512) (\<lambda>buf vol. buf = plain \<and> encryption_method (dv_metadata vol) = meth)"

section \<open>Volumes that open\<close>

definition unlock_and_read_synthetic_volume :: "primitives \<Rightarrow> bool" where
  "unlock_and_read_synthetic_volume C =
     (let (image, plain) = build_volume C (lit ''test-pw'')
      in opened (unlock_with_password C cursor_ops (cursor_of image) (lit ''test-pw'')) (\<lambda>vol.
         served (read_at C True cursor_ops vol 0 512) (\<lambda>buf vol.
           buf = plain \<and> encryption_method (dv_metadata vol) = 0x8000
           \<and> served (read_at C True cursor_ops vol META_BLOCK_OFFSET 512) (\<lambda>z vol.
               z = replicate 512 0
               \<and> served (read_at C True cursor_ops vol 0x600 512) (\<lambda>_ vol.
                   served (read_at C True cursor_ops vol ENCRYPTED_SIZE 512) (\<lambda>r _. r = replicate 512 0))))))"

definition unlock_and_read_synthetic_cbc_volume :: "primitives \<Rightarrow> bool" where
  "unlock_and_read_synthetic_cbc_volume C =
     (let (image, plain) = build_cbc_volume C PROTECTION_PASSWORD (password_hash C (lit ''cbc-pw''))
      in opened (unlock_with_password C cursor_ops (cursor_of image) (lit ''cbc-pw'')) (first_sector_is C plain 0x8002))"

definition unlock_and_read_synthetic_recovery_volume :: "primitives \<Rightarrow> bool" where
  "unlock_and_read_synthetic_recovery_volume C =
     (let rk = lit ''111111-111111-111111-111111-111111-111111-111111-111111''
      in unwrapped (recovery_key_hash C rk) (\<lambda>key_hash.
         let (image, plain) = build_cbc_volume C PROTECTION_RECOVERY key_hash
         in opened (unlock_with_recovery_password C cursor_ops (cursor_of image) rk) (first_sector_is C plain 0x8002)))"

definition unlock_and_read_synthetic_cbc256_volume :: "primitives \<Rightarrow> bool" where
  "unlock_and_read_synthetic_cbc256_volume C =
     (let rk = lit ''222222-222222-222222-222222-222222-222222-222222-222222''
      in unwrapped (recovery_key_hash C rk) (\<lambda>key_hash.
         let (image, plain) = build_cbc256_volume C key_hash
         in opened (unlock_with_recovery_password C cursor_ops (cursor_of image) rk) (first_sector_is C plain 0x8003)))"

definition unlock_and_read_synthetic_xts128_volume :: "primitives \<Rightarrow> bool" where
  "unlock_and_read_synthetic_xts128_volume C =
     (let rk = lit ''333333-333333-333333-333333-333333-333333-333333-333333''
      in unwrapped (recovery_key_hash C rk) (\<lambda>key_hash.
         let (image, plain) = build_xts128_volume C key_hash
         in opened (unlock_with_recovery_password C cursor_ops (cursor_of image) rk) (first_sector_is C plain 0x8004)))"

definition unlock_and_read_synthetic_xts256_volume :: "primitives \<Rightarrow> bool" where
  "unlock_and_read_synthetic_xts256_volume C =
     (let rk = lit ''444444-444444-444444-444444-444444-444444-444444-444444''
      in unwrapped (recovery_key_hash C rk) (\<lambda>key_hash.
         let (image, plain) = build_xts256_volume C key_hash
         in opened (unlock_with_recovery_password C cursor_ops (cursor_of image) rk) (first_sector_is C plain 0x8005)))"

definition unlock_and_read_synthetic_clearkey_volume :: "primitives \<Rightarrow> bool" where
  "unlock_and_read_synthetic_clearkey_volume C =
     (let (image, plain) = build_clearkey_volume C True
      in opened (unlock_clear_key C cursor_ops (cursor_of image)) (first_sector_is C plain 0x8004))"

definition unlock_and_read_synthetic_startupkey_volume :: "primitives \<Rightarrow> bool" where
  "unlock_and_read_synthetic_startupkey_volume C =
     (let (image, plain, bek) = build_startupkey_volume C
      in opened (unlock_with_startup_key C cursor_ops (cursor_of image) bek) (first_sector_is C plain 0x8004))"

section \<open>Volumes that do not\<close>

definition is_no_protector :: "string \<Rightarrow> bde_error \<Rightarrow> bool" where
  "is_no_protector name e = (case e of NoUnlockProtector p _ \<Rightarrow> p = name | _ \<Rightarrow> False)"

definition recovery_unlock_rejects_malformed_password :: "primitives \<Rightarrow> bool" where
  "recovery_unlock_rejects_malformed_password C =
     (let rk = lit ''111111-111111-111111-111111-111111-111111-111111-111111''
      in unwrapped (recovery_key_hash C rk) (\<lambda>key_hash.
         let (image, _) = build_cbc_volume C PROTECTION_RECOVERY key_hash
         in fails_with (unlock_with_recovery_password C cursor_ops (cursor_of image) (lit ''nope''))
              (\<lambda>e. case e of InvalidRecoveryPassword _ \<Rightarrow> True | _ \<Rightarrow> False)))"

definition no_recovery_protector_errors :: "primitives \<Rightarrow> bool" where
  "no_recovery_protector_errors C =
     (let rk = lit ''111111-111111-111111-111111-111111-111111-111111-111111'';
          (image, _) = build_cbc_volume C PROTECTION_PASSWORD (password_hash C (lit ''cbc-pw''))
      in fails_with (unlock_with_recovery_password C cursor_ops (cursor_of image) rk)
           (\<lambda>e. case e of NoUnlockProtector _ _ \<Rightarrow> True | _ \<Rightarrow> False))"

definition no_clear_key_protector_errors :: "primitives \<Rightarrow> bool" where
  "no_clear_key_protector_errors C =
     (let (image, _) = build_volume C (lit ''test-pw'')
      in fails_with (unlock_clear_key C cursor_ops (cursor_of image)) (is_no_protector ''clear key''))"

definition clear_key_missing_key_property_errors :: "primitives \<Rightarrow> bool" where
  "clear_key_missing_key_property_errors C =
     (let (image, _) = build_clearkey_volume C False
      in fails_with (unlock_clear_key C cursor_ops (cursor_of image)) (\<lambda>e. e = MissingKeyMaterial ''clear key''))"

definition no_startup_key_protector_errors :: "primitives \<Rightarrow> bool" where
  "no_startup_key_protector_errors C =
     (let (image, _) = build_volume C (lit ''test-pw''); (_, _, bek) = build_startupkey_volume C
      in fails_with (unlock_with_startup_key C cursor_ops (cursor_of image) bek) (is_no_protector ''startup key''))"

definition startup_key_without_external_key_errors :: "primitives \<Rightarrow> bool" where
  "startup_key_without_external_key_errors C =
     (let (image, _, _) = build_startupkey_volume C; empty_bek = replicate 48 0
      in fails_with (unlock_with_startup_key C cursor_ops (cursor_of image) empty_bek)
           (\<lambda>e. e = MissingKeyMaterial ''external key''))"

definition startup_key_external_key_without_key_property_errors :: "primitives \<Rightarrow> bool" where
  "startup_key_external_key_without_key_property_errors C =
     (let (image, _, _) = build_startupkey_volume C;
          ext_entry = entry_bytes 0 VALUE_TYPE_EXTERNAL_KEY (replicate 24 0);
          bek = replicate 48 0 @ ext_entry
      in fails_with (unlock_with_startup_key C cursor_ops (cursor_of image) bek)
           (\<lambda>e. e = MissingKeyMaterial ''external key property''))"

definition recognized_but_unvalidated_method_refuses :: "primitives \<Rightarrow> bool" where
  "recognized_but_unvalidated_method_refuses C =
     (let img = meta_only_image 0x8001 [0x2000] (0x1000, 0, 0) (Some 0x1000)
      in fails_with (unlock_with_password C cursor_ops (cursor_of img) (lit ''x'')) (\<lambda>e. e = UnvalidatedEncryptionMethod 0x8001))"

definition unrecognized_method_errors :: "primitives \<Rightarrow> bool" where
  "unrecognized_method_errors C =
     (let img = meta_only_image 0x1234 [0x2000] (0x1000, 0, 0) (Some 0x1000)
      in fails_with (unlock_with_password C cursor_ops (cursor_of img) (lit ''x'')) (\<lambda>e. e = UnsupportedEncryptionMethod 0x1234))"

definition no_password_protector_errors :: "primitives \<Rightarrow> bool" where
  "no_password_protector_errors C =
     (let img = meta_only_image 0x8000 [0x0800] (0x1000, 0, 0) (Some 0x1000)
      in fails_with (unlock_with_password C cursor_ops (cursor_of img) (lit ''x'')) (is_no_protector ''password''))"

definition no_valid_metadata_errors :: bool where
  "no_valid_metadata_errors =
     (let img = meta_only_image 0x8000 [0x2000] (0x1000, 0x1200, 0x1400) None
      in fails_with (read_metadata cursor_ops (cursor_of img)) (\<lambda>e. case e of NoValidMetadata _ \<Rightarrow> True | _ \<Rightarrow> False))"

definition read_metadata_skips_zero_first_offset :: bool where
  "read_metadata_skips_zero_first_offset =
     (let img = meta_only_image 0x8000 [0x2000] (0, 0x1000, 0) (Some 0x1000)
      in served (read_metadata cursor_ops (cursor_of img)) (\<lambda>m _. encryption_method m = 0x8000))"

definition io_error_during_block_read_propagates :: bool where
  "io_error_during_block_read_propagates =
     (let header = apply_patches (replicate 512 0)
            [(0, [0xeb, 0x58, 0x90]), (3, SIG_TO_GO), (12, [0x02]), (440, to_le (0x1000 :: u64))]
      in fails_with (read_metadata flaky_ops \<lparr>flaky_header = header, flaky_phase = 0\<rparr>)
           (\<lambda>e. case e of Io _ \<Rightarrow> True | _ \<Rightarrow> False))"

definition wrong_password_fails_authentication :: "primitives \<Rightarrow> bool" where
  "wrong_password_fails_authentication C =
     (let (image, _) = build_volume C (lit ''test-pw'')
      in fails_with (unlock_with_password C cursor_ops (cursor_of image) (lit ''wrong''))
           (\<lambda>e. e = AuthenticationFailed ''volume master key''))"

definition non_bitlocker_reader_errors :: "primitives \<Rightarrow> bool" where
  "non_bitlocker_reader_errors C =
     fails_with (unlock_with_password C cursor_ops (cursor_of (replicate 1024 0)) (lit ''x''))
       (\<lambda>e. case e of NotBitLocker _ \<Rightarrow> True | _ \<Rightarrow> False)"

section \<open>Reading and seeking\<close>

definition seek_variants_and_eof :: "primitives \<Rightarrow> bool" where
  "seek_variants_and_eof C =
     (let (image, _) = build_volume C (lit ''test-pw'')
      in opened (unlock_with_password C cursor_ops (cursor_of image) (lit ''test-pw'')) (\<lambda>vol.
         served (dv_seek vol (SeekEnd 0)) (\<lambda>p vol. p = word_of_nat IMAGE_SIZE
         \<and> served (dv_read C True cursor_ops vol 16) (\<lambda>b vol. length b = 0
         \<and> served (dv_seek vol (SeekStart 10)) (\<lambda>p vol. p = 10
         \<and> served (dv_seek vol (SeekCurrent 5)) (\<lambda>p vol. p = 15
         \<and> fails_with (dv_seek vol (SeekCurrent (- 100))) (\<lambda>_. True)))))))"

definition read_and_seek_traits :: "primitives \<Rightarrow> bool" where
  "read_and_seek_traits C =
     (let (image, plain) = build_volume C (lit ''test-pw'')
      in opened (unlock_with_password C cursor_ops (cursor_of image) (lit ''test-pw'')) (\<lambda>vol.
         served (dv_seek vol (SeekStart 0)) (\<lambda>_ vol.
         served (read_exact (dv_ops C True cursor_ops) vol 256) (\<lambda>buf vol.
           buf = take 256 plain \<and> dv_total_size vol = word_of_nat IMAGE_SIZE))))"

definition read_metadata_reports_protectors :: "primitives \<Rightarrow> bool" where
  "read_metadata_reports_protectors C =
     (let (image, _) = build_volume C (lit ''test-pw'')
      in served (read_metadata cursor_ops (cursor_of image)) (\<lambda>m _. protector_types m = [PROTECTION_PASSWORD]))"

section \<open>They pass\<close>

lemma opened_yields:
  "yields_plaintext C True cursor_ops call meth p \<Longrightarrow> opened call (first_sector_is C p meth)"
  by (auto simp: yields_plaintext_def opened_def first_sector_is_def served_def)

lemma unlock_fails:
  assumes "length img < 2 ^ 63" and "image_unlock C img prot name unw = Err e" and "p e"
  shows "fails_with (unlock C cursor_ops (cursor_of img) prot name unw) p"
  using cur.unlock_image [of "cursor_of img" C prot name unw] assms by (auto simp: cursor_of_def cursor_inv_def fails_with_def)

lemma recovery_codes:
  "lit ''111111-111111-111111-111111-111111-111111-111111-111111'' = recovery_text (replicate 8 10101)"
  "lit ''222222-222222-222222-222222-222222-222222-222222-222222'' = recovery_text (replicate 8 20202)"
  "lit ''333333-333333-333333-333333-333333-333333-333333-333333'' = recovery_text (replicate 8 30303)"
  "lit ''444444-444444-444444-444444-444444-444444-444444-444444'' = recovery_text (replicate 8 40404)"
proof -
  have eight: "replicate 8 x = [x, x, x, x, x, x, x, x]" for x :: u16
    by (simp add: numeral_eq_Suc)
  show "lit ''111111-111111-111111-111111-111111-111111-111111-111111'' = recovery_text (replicate 8 10101)"
    "lit ''222222-222222-222222-222222-222222-222222-222222-222222'' = recovery_text (replicate 8 20202)"
    "lit ''333333-333333-333333-333333-333333-333333-333333-333333'' = recovery_text (replicate 8 30303)"
    "lit ''444444-444444-444444-444444-444444-444444-444444-444444'' = recovery_text (replicate 8 40404)"
    unfolding eight by (simp_all add: recovery_text_def recovery_group_def lit_def digits_of_numeral)
qed

lemma recovery_tests_pass:
  assumes "primitives_ok C"
  shows "unlock_and_read_synthetic_recovery_volume C" "unlock_and_read_synthetic_cbc256_volume C"
    "unlock_and_read_synthetic_xts128_volume C" "unlock_and_read_synthetic_xts256_volume C"
proof -
  have h: "length (sha256 C x) = 32" for x
    using primitives_okD(1) [OF assms] by (simp add: sha256_ok_def)
  have hash: "recovery_key_hash C (recovery_text (replicate 8 w)) = Ok (sha256 C (concat (map to_le (replicate 8 w))))" for w :: u16
    using recovery_key_hash_text [of "replicate 8 w" C] by simp
  note opens = opened_yields [OF recovery_fixtures_open [OF assms cur.image_reader_axioms]]
  show "unlock_and_read_synthetic_recovery_volume C"
    unfolding unlock_and_read_synthetic_recovery_volume_def recovery_codes Let_def hash unwrapped.simps case_prod_beta
    by (rule opens) (simp_all add: cursor_of_def cursor_inv_def h build_cbc_volume_def Let_def fixture_lengths assms
        cbc_encrypt_sector_eq primitives_okD(3) [OF assms])
  show "unlock_and_read_synthetic_cbc256_volume C"
    unfolding unlock_and_read_synthetic_cbc256_volume_def recovery_codes Let_def hash unwrapped.simps case_prod_beta
    by (rule opens) (simp_all add: cursor_of_def cursor_inv_def h build_cbc256_volume_def Let_def fixture_lengths assms)
  show "unlock_and_read_synthetic_xts128_volume C"
    unfolding unlock_and_read_synthetic_xts128_volume_def recovery_codes Let_def hash unwrapped.simps case_prod_beta
    by (rule opens) (simp_all add: cursor_of_def cursor_inv_def h build_xts128_volume_def Let_def fixture_lengths assms)
  show "unlock_and_read_synthetic_xts256_volume C"
    unfolding unlock_and_read_synthetic_xts256_volume_def recovery_codes Let_def hash unwrapped.simps case_prod_beta
    by (rule opens) (simp_all add: cursor_of_def cursor_inv_def h build_xts256_volume_def Let_def fixture_lengths assms)
qed

lemma cursor_of_inv: "length bs < 2 ^ 63 \<Longrightarrow> cursor_inv (cursor_of bs)" "cur_data (cursor_of bs) = bs"
  by (simp_all add: cursor_of_def cursor_inv_def)

lemma length_build_cbc: "primitives_ok C \<Longrightarrow> length h = 32 \<Longrightarrow> length (fst (build_cbc_volume C prot h)) = IMAGE_SIZE"
  by (simp add: build_cbc_volume_def fixture_lengths cbc_encrypt_sector_eq primitives_okD(3) Let_def)

lemma credential_tests_pass:
  assumes "primitives_ok C"
  shows "unlock_and_read_synthetic_cbc_volume C" "unlock_and_read_synthetic_clearkey_volume C"
    "unlock_and_read_synthetic_startupkey_volume C"
proof -
  let ?h = "password_hash C (lit ''cbc-pw'')"
  have h: "length ?h = 32"
    using length_password_hash [OF primitives_okD(1) [OF assms]] .
  define r where "r = cursor_of (fst (build_cbc_volume C PROTECTION_PASSWORD ?h))"
  have inv: "cursor_inv r" and i: "cur_data r = fst (build_cbc_volume C PROTECTION_PASSWORD ?h)"
    by (simp_all add: r_def cursor_of_inv length_build_cbc [OF assms h])
  show "unlock_and_read_synthetic_cbc_volume C"
    unfolding unlock_and_read_synthetic_cbc_volume_def case_prod_beta Let_def unlock_with_password_def r_def [symmetric]
    using cur.stretch_fixture_opens [OF assms inv i [unfolded build_cbc_volume_def Let_def fst_conv] h _ _ _ _ _ gates(2) containers(2)]
    by (intro opened_yields) (simp add: build_cbc_volume_def Let_def cbc_encrypt_sector_eq primitives_okD(3) [OF assms])
  show "unlock_and_read_synthetic_clearkey_volume C"
    unfolding unlock_and_read_synthetic_clearkey_volume_def case_prod_beta Let_def
    by (intro opened_yields clearkey_volume_opens [OF assms cur.image_reader_axioms])
      (simp_all add: cursor_of_inv length_build_clearkey [OF assms])
  show "unlock_and_read_synthetic_startupkey_volume C"
    unfolding unlock_and_read_synthetic_startupkey_volume_def case_prod_beta Let_def
    by (intro opened_yields startupkey_volume_opens [OF assms cur.image_reader_axioms])
      (simp_all add: cursor_of_inv length_build_startupkey [OF assms])
qed

text \<open>The password volume: what it unlocks to, and its sectors beyond the first.\<close>

lemma build_volume_opened:
  assumes "primitives_ok C"
    and "\<And>vol. dv_inv cursor_inv cur_data vol \<Longrightarrow> dv_position vol = 0 \<Longrightarrow> dv_total_size vol = word_of_nat IMAGE_SIZE
      \<Longrightarrow> cur_data (dv_reader vol) = fst (build_volume C pw)
      \<Longrightarrow> (\<exists>vd fc. dv_metadata vol = fixture_metadata vd fc 0x8000 \<and> fst (build_volume C pw) = fixture_image vd fc 0x8000 ct
            \<and> length vd + length fc \<le> 10000)
      \<Longrightarrow> view C (dv_cipher vol) (dv_metadata vol) (fst (build_volume C pw)) 0 512 = snd (build_volume C pw) \<Longrightarrow> k vol"
    and "ct = encrypt_sector C (SectorCipher_new (replicate 16 0x11) (replicate 16 0x22)) (pattern 0x5a) RELOCATED_OFFSET"
  shows "opened (unlock_with_password C cursor_ops (cursor_of (fst (build_volume C pw))) pw) k"
proof -
  let ?h = "password_hash C pw" and ?k = "replicate 16 0x11 :: bytes" and ?t = "replicate 16 0x22 :: bytes"
  let ?vd = "stretch_vmk_data C PROTECTION_PASSWORD ?h (replicate 16 0x33) (replicate 12 0x55) (replicate 32 0x44)"
  let ?fc = "aes_ccm_wrap C (replicate 32 0x44) (replicate 12 0x66) (copy_into (copy_into (replicate 76 0) 12 ?k) 44 ?t)"
  have img: "fst (build_volume C pw) = fixture_image ?vd ?fc 0x8000 ct" "snd (build_volume C pw) = pattern 0x5a"
    by (simp_all add: build_volume_def assms(3) Let_def)
  have h: "length ?h = 32" and ct: "length ct = 512"
    using length_password_hash [OF primitives_okD(1) [OF assms(1)]] length_sector [OF assms(1)] by (simp_all add: assms(3))
  note u = stretch_fixture_unlock [OF assms(1) h _ _ _ _ _ gates(1) containers(1) ct refl refl, where salt = "replicate 16 0x33"]
  have len: "length ?vd + length ?fc \<le> 10000"
    by (rule u(2)) simp_all
  have size: "length (fst (build_volume C pw)) = IMAGE_SIZE"
    by (rule length_build_volume [OF assms(1)])
  have un: "image_unlock C (fst (build_volume C pw)) PROTECTION_PASSWORD ''password'' (Stretch ?h)
      = Ok (fixture_metadata ?vd ?fc 0x8000, SectorCipher_new ?k ?t)"
    unfolding img by (rule u(1)) simp_all
  obtain r' where r': "unlock C cursor_ops (cursor_of (fst (build_volume C pw))) PROTECTION_PASSWORD ''password'' (Stretch ?h)
      = Some (Ok \<lparr>dv_reader = r', dv_cipher = SectorCipher_new ?k ?t, dv_metadata = fixture_metadata ?vd ?fc 0x8000,
               dv_total_size = word_of_nat IMAGE_SIZE, dv_position = 0\<rparr>, r')" "cursor_inv r'" "cur_data r' = fst (build_volume C pw)"
    using cur.unlock_image [of "cursor_of (fst (build_volume C pw))" C PROTECTION_PASSWORD "''password''" "Stretch ?h"] un size
    by (auto simp: cursor_of_inv)
  have "view C (SectorCipher_new ?k ?t) (fixture_metadata ?vd ?fc 0x8000) (fixture_image ?vd ?fc 0x8000 ct) 0 512 = pattern 0x5a"
    by (rule fixture_first_sector [OF assms(1) len]) (simp_all add: assms(3))
  then have "k \<lparr>dv_reader = r', dv_cipher = SectorCipher_new ?k ?t, dv_metadata = fixture_metadata ?vd ?fc 0x8000,
               dv_total_size = word_of_nat IMAGE_SIZE, dv_position = 0\<rparr>"
    using r'(2,3) size fixture_safe [OF len] img len by (intro assms(2)) (auto simp: dv_inv_def)
  then show ?thesis
    using r'(1) by (simp add: unlock_with_password_def opened_def)
qed

lemma served_read_at:
  assumes "cursor_inv (dv_reader vol)" and "safe_layout (dv_metadata vol)" and "unat off + n \<le> 2 ^ 64"
    and "\<And>vol'. same_volume cursor_inv cur_data vol vol'
      \<Longrightarrow> k (view C (dv_cipher vol) (dv_metadata vol) (cur_data (dv_reader vol)) (unat off) n) vol'"
  shows "served (read_at C oc cursor_ops vol off n) k"
  using cur.read_at_image [OF assms(1-3), of C oc] assms(4) by (auto simp: served_def)

lemma fixture_sectors:
  assumes "length vd + length fc \<le> 10000" and "length ct = 512"
  shows "view C sc (fixture_metadata vd fc meth) img 0x1000 512 = replicate 512 0"
    and "view C sc (fixture_metadata vd fc meth) (fixture_image vd fc meth ct) 0x4800 512 = replicate 512 0"
proof -
  let ?md = "fixture_metadata vd fc meth" and ?img = "fixture_image vd fc meth ct"
  have sz: "unat (metadata_size ?md) = 88 + length vd + length fc"
    using assms(1) by (simp add: fixture_metadata_def length_fixture_entries unat_of_nat del: of_nat_add)
  have "view C sc ?md img 0x1000 512 = view_sector C sc ?md img 0x1000"
    using view_in_sector [of "0x1000" 512 C sc ?md img] by simp
  also have "\<dots> = replicate 512 0"
    using sz by (simp add: view_sector_def blanked_def) (simp add: fixture_metadata_def)
  finally show "view C sc ?md img 0x1000 512 = replicate 512 0" .
  have "view C sc ?md ?img 0x4800 512 = view_sector C sc ?md ?img 0x4800"
    using view_in_sector [of "0x4800" 512 C sc ?md ?img] by simp
  also have "\<dots> = fit 512 (drop 0x4800 ?img)"
    using sz assms(1) by (simp add: view_sector_def sector_at_def blanked_def physical_of_def stored_plain_def)
      (simp add: fixture_metadata_def)
  also have "\<dots> = take 512 (drop 0x4800 ?img)"
    using fixture_image_fields(1) [OF assms] by (simp add: fit_def)
  also have "\<dots> = replicate 512 0"
    using assms by (simp add: fixture_image_def apply_patches_eq slice_simps Let_def length_fixture_entries)
  finally show "view C sc ?md ?img 0x4800 512 = replicate 512 0" .
qed

lemma password_volume_sectors_served:
  assumes "primitives_ok C"
  shows "unlock_and_read_synthetic_volume C"
  unfolding unlock_and_read_synthetic_volume_def case_prod_beta Let_def
proof (rule build_volume_opened [OF assms _ refl], goal_cases)
  case (1 vol)
  let ?img = "fst (build_volume C (lit ''test-pw''))"
  obtain vd fc where md: "dv_metadata vol = fixture_metadata vd fc 0x8000" "length vd + length fc \<le> 10000"
    "?img = fixture_image vd fc 0x8000 (encrypt_sector C (SectorCipher_new (replicate 16 0x11) (replicate 16 0x22)) (pattern 0x5a) RELOCATED_OFFSET)"
    using 1(5) by blast
  have ok: "cursor_inv (dv_reader vol)" "safe_layout (dv_metadata vol)"
    using 1(1) by (simp_all add: dv_inv_def)
  have read: "served (read_at C True cursor_ops v off 512) k"
    if "same_volume cursor_inv cur_data vol v" "unat off + 512 \<le> 2 ^ 64"
      and "\<And>v'. same_volume cursor_inv cur_data vol v' \<Longrightarrow> k (view C (dv_cipher vol) (dv_metadata vol) ?img (unat off) 512) v'" for v off k
    using that ok 1(4) by (intro served_read_at) (auto simp: same_volume_def)
  have ct: "length (encrypt_sector C (SectorCipher_new (replicate 16 0x11) (replicate 16 0x22)) (pattern 0x5a) RELOCATED_OFFSET) = 512"
    by (rule length_sector [OF assms]) simp
  note z = fixture_sectors [OF md(2) ct, of C "dv_cipher vol" "0x8000", folded md(1) md(3)]
  have z0: "view C (dv_cipher vol) (dv_metadata vol) ?img 0x1000 512 = replicate 512 0"
    unfolding md(1) by (rule fixture_sectors(1) [OF md(2) ct])
  have same: "dv_metadata v = dv_metadata vol" if "same_volume cursor_inv cur_data vol v" for v
    using that by (simp add: same_volume_def)
  show ?case
    using z(2) 1(6) z0 by (intro read conjI same_volume_refl ok) (simp_all add: same md(1) method_of_fixture)
qed

lemma cursor_tests_pass:
  assumes "primitives_ok C"
  shows "seek_variants_and_eof C" "read_and_seek_traits C"
proof -
  show "seek_variants_and_eof C"
    unfolding seek_variants_and_eof_def case_prod_beta Let_def
    by (rule build_volume_opened [OF assms _ refl])
      (simp add: served_def fails_with_def dv_seek_def dv_read_def pure_io_def)
  show "read_and_seek_traits C"
    unfolding read_and_seek_traits_def case_prod_beta Let_def
  proof (rule build_volume_opened [OF assms _ refl], goal_cases)
    case (1 vol)
    let ?v = "vol\<lparr>dv_position := 0\<rparr>"
    have inv: "dv_inv cursor_inv cur_data ?v"
      using 1(1) by (simp add: dv_inv_def)
    have img: "length (dv_img C cur_data ?v) = IMAGE_SIZE" "take 512 (dv_img C cur_data ?v) = snd (build_volume C (lit ''test-pw''))"
      using 1(3,4,6) take_drop_view [of 0 512 IMAGE_SIZE] by (simp_all add: dv_img_def)
    then have "take 256 (dv_img C cur_data ?v) = take 256 (snd (build_volume C (lit ''test-pw'')))"
      using take_take [of 256 512 "dv_img C cur_data ?v"] by simp
    moreover obtain v' where "read_exact (dv_ops C True cursor_ops) ?v 256 = Some (Ok (take 256 (dv_img C cur_data ?v)), v')"
      "dv_inv cursor_inv cur_data v'" "dv_img C cur_data v' = dv_img C cur_data ?v"
      using dvc.fill_loop_image [OF inv, of "[]" 256 C True] img(1) by (auto simp: read_exact_def pure_io_def)
    moreover from this have "dv_total_size v' = word_of_nat IMAGE_SIZE"
      using img(1) by (metis dv_img_def length_view of_nat_unat ucast_id)
    ultimately show ?case
      by (simp add: served_def dv_seek_def pure_io_def)
  qed
qed

text \<open>The images that do not unlock: the error is the one the image determines.\<close>

lemma bare_image_tests_pass:
  "recognized_but_unvalidated_method_refuses C" "unrecognized_method_errors C" "no_password_protector_errors C"
  "no_valid_metadata_errors" "read_metadata_skips_zero_first_offset"
proof -
  have bare: "fails_with (unlock C cursor_ops (cursor_of (meta_only_image meth ps (0x1000, 0, 0) (Some 0x1000))) prot name unw) p"
    if "length ps \<le> 110"
      "p (if meth = 0x8001 then UnvalidatedEncryptionMethod meth
          else if meth \<notin> {0x8000, 0x8002, 0x8003, 0x8004, 0x8005} then UnsupportedEncryptionMethod meth
          else if prot \<in> set ps then MissingKeyMaterial ''VMK AES-CCM key'' else NoUnlockProtector name ps)" for meth ps prot name unw p
    using that bare_unlock [OF that(1), of "0x1000" 0 0 C meth prot name unw] meta_only_fields(1) [OF that(1), of meth "0x1000" 0 0]
    by (intro unlock_fails) simp_all
  show "recognized_but_unvalidated_method_refuses C" "unrecognized_method_errors C" "no_password_protector_errors C"
    unfolding recognized_but_unvalidated_method_refuses_def unrecognized_method_errors_def no_password_protector_errors_def
      unlock_with_password_def Let_def
    by (rule bare; simp add: is_no_protector_def)+
  note meta = cur.read_metadata_image [OF cursor_of_inv(1)]
  show "no_valid_metadata_errors"
    using meta [of "meta_only_image 0x8000 [0x2000] (0x1000, 0x1200, 0x1400) None"]
      meta_only_no_block [of "0x1000" "0x1200" "0x1400" "0x8000" "[0x2000]"]
    by (auto simp: no_valid_metadata_errors_def fails_with_def cursor_of_inv length_meta_only)
  show "read_metadata_skips_zero_first_offset"
    using meta [of "meta_only_image 0x8000 [0x2000] (0, 0x1000, 0) (Some 0x1000)"]
      meta_only_metadata [of "[0x2000]" 0 "0x1000" 0 "0x8000"] meta_only_fields(1) [of "[0x2000]" "0x8000" 0 "0x1000" 0]
    by (auto simp: read_metadata_skips_zero_first_offset_def served_def cursor_of_inv bare_metadata_def)
qed

lemma broken_reader_tests_pass: "io_error_during_block_read_propagates" "non_bitlocker_reader_errors C"
proof -
  define h :: bytes where "h = apply_patches (replicate 512 0) [(0, [0xeb, 0x58, 0x90]), (3, SIG_TO_GO), (12, [0x02]), (440, to_le (0x1000 :: u64))]"
  have eq: "h = patched (replicate 512 0) [(440, to_le (0x1000 :: u64)), (12, [0x02]), (3, SIG_TO_GO), (0, [0xeb, 0x58, 0x90])]"
    by (simp add: h_def apply_patches_eq)
  note s = eq patched_reads slice_simps zeros_read
  have f: "length h = 512" "take 8 (drop 3 h) = SIG_TO_GO" "le_u64 h 440 = 0x1000" "le_u64 h 448 = 0" "le_u64 h 456 = 0"
    by (simp_all add: s)
  have bps: "le_u16 h 11 = 512"
    by (rule sector_size_512) (simp_all add: s)
  have "\<exists>vh. VolumeHeader_parse (take SECTOR_SIZE h) = Ok vh \<and> fve_metadata_offsets vh = [0x1000, 0, 0]"
    using header_of_image [of h] f bps by simp
  then show "io_error_during_block_read_propagates"
    using flaky_reader_reports [of h] f(1)
    unfolding io_error_during_block_read_propagates_def Let_def fails_with_def h_def [symmetric] by auto
  have "VolumeHeader_parse (take 512 (replicate 1024 0)) = Err (NotBitLocker (replicate 8 0))"
    by (simp add: VolumeHeader_parse_def get_range_def Let_def min_def)
  then show "non_bitlocker_reader_errors C"
    unfolding non_bitlocker_reader_errors_def unlock_with_password_def
    by (intro unlock_fails [where e = "NotBitLocker (replicate 8 0)"]) (simp_all add: image_unlock_def image_metadata_def)
qed

lemma unlock_with_recovery_hash:
  "recovery_key_hash C rk = Ok h \<Longrightarrow> unlock_with_recovery_password C ops r rk = unlock C ops r PROTECTION_RECOVERY ''recovery password'' (Stretch h)"
  by (simp add: unlock_with_recovery_password_def)

lemma other_credential_tests_pass:
  assumes "primitives_ok C"
  shows "recovery_unlock_rejects_malformed_password C" "no_recovery_protector_errors C" "no_clear_key_protector_errors C"
    "no_startup_key_protector_errors C"
proof -
  have h: "length (password_hash C pw) = 32" for pw
    using length_password_hash [OF primitives_okD(1) [OF assms]] .
  have hash: "recovery_key_hash C (recovery_text (replicate 8 w)) = Ok (sha256 C (concat (map to_le (replicate 8 w))))" for w :: u16
    using recovery_key_hash_text [of "replicate 8 w" C] by simp
  have other: "image_unlock C (fst (build_volume C pw)) prot name unw = Err (NoUnlockProtector name [PROTECTION_PASSWORD])"
    if "prot \<noteq> PROTECTION_PASSWORD" for pw prot name unw
    unfolding build_volume_def Let_def fst_conv
    by (rule stretch_fixture_other [OF assms h _ _ _ _ _ gates(1) that]) (simp_all add: fixture_lengths assms length_sector)
  show "recovery_unlock_rejects_malformed_password C"
    unfolding recovery_unlock_rejects_malformed_password_def recovery_codes Let_def hash unwrapped.simps case_prod_beta
    by (simp add: fails_with_def unlock_with_recovery_password_def recovery_key_hash_def pure_io_def lit_def str_len_def str_bytes_def utf8_char_def)
  show "no_clear_key_protector_errors C"
    unfolding no_clear_key_protector_errors_def unlock_clear_key_def Let_def case_prod_beta
    by (rule unlock_fails [OF _ other]) (simp_all add: length_build_volume [OF assms] is_no_protector_def)
  show "no_startup_key_protector_errors C"
    unfolding no_startup_key_protector_errors_def Let_def case_prod_beta unlock_with_startup_key_def
    using unlock_fails [OF _ other, of "lit ''test-pw''"]
    by (simp add: build_startupkey_volume_def Let_def parse_build_bek length_build_volume [OF assms] is_no_protector_def)
  show "no_recovery_protector_errors C"
    unfolding no_recovery_protector_errors_def recovery_codes Let_def case_prod_beta unlock_with_recovery_hash [OF hash]
  proof (rule unlock_fails)
    show "image_unlock C (fst (build_cbc_volume C PROTECTION_PASSWORD (password_hash C (lit ''cbc-pw'')))) PROTECTION_RECOVERY
        ''recovery password'' (Stretch (sha256 C (concat (map to_le (replicate 8 (10101 :: u16))))))
      = Err (NoUnlockProtector ''recovery password'' [PROTECTION_PASSWORD])"
      unfolding build_cbc_volume_def Let_def fst_conv
      by (rule stretch_fixture_other [OF assms h _ _ _ _ _ gates(2)])
        (simp_all add: length_wrapped [OF assms] cbc_encrypt_sector_eq primitives_okD(3) [OF assms] length_sector [OF assms])
  qed (simp_all add: length_build_cbc [OF assms h])
qed

lemma missing_key_tests_pass:
  assumes "primitives_ok C"
  shows "clear_key_missing_key_property_errors C" "startup_key_without_external_key_errors C"
    "startup_key_external_key_without_key_property_errors C"
proof -
  let ?e = "\<lparr>entry_type = 0, value_type = VALUE_TYPE_AES_CCM, version = 1,
      entry_data = aes_ccm_wrap C (replicate 32 0x77) (replicate 12 0x5b) (vmk_container (replicate 32 0x4a))\<rparr>"
  let ?fc = "aes_ccm_wrap C (replicate 32 0x4a) (replicate 12 0x6c) (copy_into (replicate 76 0) 12 (replicate 32 0x35))"
  let ?ct = "encrypt_sector C (SectorCipher_new_xts128 (replicate 32 0x35)) (pattern 0x2e) RELOCATED_OFFSET"
  have "image_unlock C (fixture_image (vmk_head PROTECTION_CLEAR @ encode_entries [?e]) ?fc 0x8004 ?ct) PROTECTION_CLEAR ''clear key'' ClearKey
      = Err (MissingKeyMaterial ''clear key'')"
    by (rule fixture_rejects [OF _ _ _ _ _ gates(4), where e = ?e])
      (simp_all add: length_wrapped [OF assms] length_sector [OF assms] encode_entries_def wf_entry_def find_value_def vmk_unwrap_key_def
        fixture_lengths)
  moreover have "fst (build_clearkey_volume C False) = fixture_image (vmk_head PROTECTION_CLEAR @ encode_entries [?e]) ?fc 0x8004 ?ct"
    by (simp add: build_clearkey_volume_def entry_bytes_eq encode_entries_def Let_def)
  ultimately show "clear_key_missing_key_property_errors C"
    unfolding clear_key_missing_key_property_errors_def case_prod_beta Let_def unlock_clear_key_def
    using length_build_clearkey [OF assms, of False] by (intro unlock_fails [where e = "MissingKeyMaterial ''clear key''"]) simp_all
  have "parse_sequence [] = []"
    using parse_encode_entries [of "[]"] by (simp add: encode_entries_def)
  then have "parse_startup_key (replicate 48 0) = Err (MissingKeyMaterial ''external key'')"
    by (simp add: parse_startup_key_def get_from_def find_value_def)
  then show "startup_key_without_external_key_errors C"
    by (simp add: startup_key_without_external_key_errors_def case_prod_beta unlock_with_startup_key_def fails_with_def pure_io_def)
  let ?ext = "\<lparr>entry_type = 0, value_type = VALUE_TYPE_EXTERNAL_KEY, version = 1, entry_data = replicate 24 0\<rparr>"
  have "parse_sequence (encode_entries [?ext]) = [?ext]" "entry_bytes 0 VALUE_TYPE_EXTERNAL_KEY (replicate 24 0) = encode_entries [?ext]"
    by (rule parse_encode_entries) (simp_all add: wf_entry_def encode_entries_def entry_bytes_eq)
  then have "parse_startup_key (replicate 48 0 @ entry_bytes 0 VALUE_TYPE_EXTERNAL_KEY (replicate 24 0))
      = Err (MissingKeyMaterial ''external key property'')"
    using \<open>parse_sequence [] = []\<close> by (simp add: parse_startup_key_def get_from_def find_value_def nested_eq)
  then show "startup_key_external_key_without_key_property_errors C"
    by (simp add: startup_key_external_key_without_key_property_errors_def case_prod_beta unlock_with_startup_key_def fails_with_def pure_io_def
        del: VALUE_TYPE_EXTERNAL_KEY_def)
qed

lemma password_volume_tests_pass:
  assumes "primitives_ok C"
  shows "read_metadata_reports_protectors C"
    and "aes_ccm_unwrap C (stretch_key C (password_hash C (lit ''wrong'')) (replicate 16 0x33))
           (aes_ccm_wrap C (stretch_key C (password_hash C (lit ''test-pw'')) (replicate 16 0x33)) (replicate 12 0x55)
             (vmk_container (replicate 32 0x44))) = None \<Longrightarrow> wrong_password_fails_authentication C"
proof -
  have h: "length (password_hash C pw) = 32" for pw
    using length_password_hash [OF primitives_okD(1) [OF assms]] .
  let ?pw = "lit ''test-pw''"
  let ?vd = "stretch_vmk_data C PROTECTION_PASSWORD (password_hash C ?pw) (replicate 16 0x33) (replicate 12 0x55) (replicate 32 0x44)"
  have len: "length ?vd \<le> 1000"
    using h by (simp add: fixture_lengths assms)
  obtain fc ct where img: "fst (build_volume C ?pw) = fixture_image ?vd fc 0x8000 ct" "length fc \<le> 1000" "length ct = 512"
    by (simp add: build_volume_def Let_def fixture_lengths assms length_sector)
  obtain xs where "?vd = vmk_head PROTECTION_PASSWORD @ xs" "length xs < 10000"
    using len by (auto simp: stretch_vmk_data_def length_vmk_parts Let_def)
  then have "protector_types (fixture_metadata ?vd fc 0x8000) = [PROTECTION_PASSWORD]"
    using vmk_head_reads [of xs PROTECTION_PASSWORD]
    by (simp add: protector_types_def vmk_entries_def fixture_metadata_def is_vmk_def protection_type_def map_filter_simps)
  moreover have "image_metadata (fst (build_volume C ?pw)) = Ok (fixture_metadata ?vd fc 0x8000)"
    unfolding img(1) by (rule fixture_image_metadata) (use len img in simp_all)
  ultimately show "read_metadata_reports_protectors C"
    using cur.read_metadata_image [OF cursor_of_inv(1), of "fst (build_volume C ?pw)"] length_build_volume [OF assms, of ?pw]
    by (auto simp: read_metadata_reports_protectors_def case_prod_beta served_def cursor_of_inv)
  show "wrong_password_fails_authentication C"
    if "aes_ccm_unwrap C (stretch_key C (password_hash C (lit ''wrong'')) (replicate 16 0x33))
           (aes_ccm_wrap C (stretch_key C (password_hash C ?pw) (replicate 16 0x33)) (replicate 12 0x55)
             (vmk_container (replicate 32 0x44))) = None"
    using stretch_fixture_rejects [OF assms h _ _ _ img(2,3) gates(1) that, of PROTECTION_PASSWORD "''password''"]
      unlock_fails [of "fst (build_volume C ?pw)" C PROTECTION_PASSWORD "''password''"] length_build_volume [OF assms, of ?pw]
    by (simp add: wrong_password_fails_authentication_def case_prod_beta unlock_with_password_def img(1))
qed

end
