(* ===== verification/AdapterTests.thy ===== *)
theory AdapterTests
  imports VolumeTests
begin

text \<open>
  The unit tests of \<^verbatim>\<open>core/src/vfs.rs\<close>.  The encrypted source and the cursor over it come from \<^verbatim>\<open>forensic-vfs\<close>
  and are arguments: \<open>mk_source\<close> makes the source of the image, \<open>source_len\<close> its length, \<open>mk_cursor\<close> the cursor.
  The tests pass whenever this cursor is a reader over the image.
\<close>

definition test_layer :: "primitives \<Rightarrow> (bytes \<Rightarrow> 's) \<Rightarrow> ('s \<Rightarrow> u64) \<Rightarrow> 's bitlocker_layer" where
  "test_layer C mk_source source_len = BitlockerLayer_new source_len (mk_source (fst (build_encrypted C (lit ''test-pw''))))"

definition cryptolayer_decrypts_synthetic_and_reads_back ::
    "primitives \<Rightarrow> 'r reader_ops \<Rightarrow> ('s \<Rightarrow> u64 \<Rightarrow> u64 \<Rightarrow> 'r) \<Rightarrow> (bytes \<Rightarrow> 's) \<Rightarrow> ('s \<Rightarrow> u64) \<Rightarrow> bool" where
  "cryptolayer_decrypts_synthetic_and_reads_back C ops mk_cursor mk_source source_len =
     (let plain = snd (build_encrypted C (lit ''test-pw'')); layer = test_layer C mk_source source_len
      in layer_scheme layer = Bitlocker
         \<and> (case layer_open C ops mk_cursor layer [Password (lit ''test-pw'')] of
              Some (Ok dec) \<Rightarrow>
                src_len dec = word_of_nat IMAGE_SIZE
                \<and> served (source_read_at C True ops dec 0 512) (\<lambda>boot dec. length boot = 512 \<and> boot = plain
                \<and> served (source_read_at C True ops dec (word_of_nat IMAGE_SIZE) 512) (\<lambda>got dec. length got = 0
                \<and> served (source_read_at C True ops dec (word_of_nat IMAGE_SIZE - 512) 1024) (\<lambda>got _. length got = 512)))
            | _ \<Rightarrow> False))"

definition cryptolayer_no_credentials_needs_credentials ::
    "primitives \<Rightarrow> 'r reader_ops \<Rightarrow> ('s \<Rightarrow> u64 \<Rightarrow> u64 \<Rightarrow> 'r) \<Rightarrow> (bytes \<Rightarrow> 's) \<Rightarrow> ('s \<Rightarrow> u64) \<Rightarrow> bool" where
  "cryptolayer_no_credentials_needs_credentials C ops mk_cursor mk_source source_len =
     (case layer_open C ops mk_cursor (test_layer C mk_source source_len) [] of
        Some (Err (NeedCredentials scheme _)) \<Rightarrow> scheme = ''bitlocker'' | _ \<Rightarrow> False)"

definition cryptolayer_wrong_password_is_loud_decode ::
    "primitives \<Rightarrow> 'r reader_ops \<Rightarrow> ('s \<Rightarrow> u64 \<Rightarrow> u64 \<Rightarrow> 'r) \<Rightarrow> (bytes \<Rightarrow> 's) \<Rightarrow> ('s \<Rightarrow> u64) \<Rightarrow> bool" where
  "cryptolayer_wrong_password_is_loud_decode C ops mk_cursor mk_source source_len =
     (case layer_open C ops mk_cursor (test_layer C mk_source source_len) [Password (lit ''wrong-pw'')] of
        Some (Err (Decode layer _ _ _)) \<Rightarrow> layer = ''bitlocker'' | _ \<Rightarrow> False)"

definition cryptolayer_recovery_key_branch ::
    "primitives \<Rightarrow> 'r reader_ops \<Rightarrow> ('s \<Rightarrow> u64 \<Rightarrow> u64 \<Rightarrow> 'r) \<Rightarrow> (bytes \<Rightarrow> 's) \<Rightarrow> ('s \<Rightarrow> u64) \<Rightarrow> bool" where
  "cryptolayer_recovery_key_branch C ops mk_cursor mk_source source_len =
     (case layer_open C ops mk_cursor (test_layer C mk_source source_len)
             [RecoveryKey (lit ''000000-000000-000000-000000-000000-000000-000000-000000'')] of
        Some (Err (Decode _ _ _ _)) \<Rightarrow> True | _ \<Rightarrow> False)"

definition cryptolayer_unwired_credential_continues ::
    "primitives \<Rightarrow> 'r reader_ops \<Rightarrow> ('s \<Rightarrow> u64 \<Rightarrow> u64 \<Rightarrow> 'r) \<Rightarrow> (bytes \<Rightarrow> 's) \<Rightarrow> ('s \<Rightarrow> u64) \<Rightarrow> bool" where
  "cryptolayer_unwired_credential_continues C ops mk_cursor mk_source source_len =
     (case layer_open C ops mk_cursor (test_layer C mk_source source_len) [OtherCredential] of
        Some (Err (NeedCredentials _ _)) \<Rightarrow> True | _ \<Rightarrow> False)"

text \<open>The wrong password, where its key does not open the wrapped master key.\<close>

lemma adapter_tests_pass:
  fixes mk_source :: "bytes \<Rightarrow> 's"
  assumes "primitives_ok C" and "image_reader ops ok img pos patience"
    and "\<And>bs. length bs < 2 ^ 63 \<Longrightarrow> ok (mk_cursor (mk_source bs) 0 (source_len (mk_source bs)))"
    and "\<And>bs. img (mk_cursor (mk_source bs) 0 (source_len (mk_source bs))) = bs"
  shows "cryptolayer_decrypts_synthetic_and_reads_back C ops mk_cursor mk_source source_len"
    and "cryptolayer_no_credentials_needs_credentials C ops mk_cursor mk_source source_len"
    and "cryptolayer_recovery_key_branch C ops mk_cursor mk_source source_len"
    and "cryptolayer_unwired_credential_continues C ops mk_cursor mk_source source_len"
    and "aes_ccm_unwrap C (stretch_key C (password_hash C (lit ''wrong-pw'')) (replicate 16 0x33))
           (aes_ccm_wrap C (stretch_key C (password_hash C (lit ''test-pw'')) (replicate 16 0x33)) (replicate 12 0x55)
             (vmk_container (replicate 32 0x44))) = None
         \<Longrightarrow> cryptolayer_wrong_password_is_loud_decode C ops mk_cursor mk_source source_len"
proof -
  let ?layer = "test_layer C mk_source source_len" and ?pw = "lit ''test-pw''"
  let ?r = "mk_cursor (encrypted ?layer) 0 (layer_len ?layer)"
  have r: "ok ?r" "img ?r = fst (build_encrypted C ?pw)"
    using assms(3) [of "fst (build_encrypted C ?pw)"] length_build_volume [OF assms(1), of ?pw]
    by (simp_all add: test_layer_def BitlockerLayer_new_def assms(4) build_encrypted_eq)
  note opens = encrypted_layer_opens [where mk_cursor = mk_cursor and layer = ?layer, OF assms(1,2) r(1) refl r(2)]
  obtain dec where dec: "layer_open C ops mk_cursor ?layer [Password ?pw] = Some (Ok dec)" "dv_inv ok img (src_inner dec)"
    "src_len dec = dv_total_size (src_inner dec)" "src_len dec = word_of_nat IMAGE_SIZE"
    "length (dv_img C img (src_inner dec)) = IMAGE_SIZE" "take 512 (dv_img C img (src_inner dec)) = snd (build_encrypted C ?pw)"
    using opens(1) [of "[]"] by blast
  have read: "served (source_read_at C True ops d off n) k"
    if "same_source ok img dec d"
      and "\<And>d'. same_source ok img dec d' \<Longrightarrow> k (take n (drop (unat off) (dv_img C img (src_inner dec)))) d'" for d off n k
  proof -
    have d: "dv_inv ok img (src_inner d)" "src_len d = dv_total_size (src_inner d)"
      "dv_img C img (src_inner d) = dv_img C img (src_inner dec)"
      using that(1) dec(2,3) by (simp_all add: same_source_def same_volume_def dv_inv_def dv_img_def)
    obtain d' where "source_read_at C True ops d off n = Some (Ok (take n (drop (unat off) (dv_img C img (src_inner dec)))), d')"
      "same_source ok img d d'"
      using image_reader.source_read_at_image [OF assms(2) d(1,2), of C True off n] d(3) by (auto simp: same_source_def)
    with that(2) [OF same_source_trans [OF that(1)]] show ?thesis
      by (simp add: served_def)
  qed
  have "same_source ok img dec dec" "length (snd (build_encrypted C ?pw)) = 512"
    using dec(2,5) by (auto simp: same_source_def dv_inv_def intro: same_volume_refl simp flip: dec(6))
  then show "cryptolayer_decrypts_synthetic_and_reads_back C ops mk_cursor mk_source source_len"
    unfolding cryptolayer_decrypts_synthetic_and_reads_back_def Let_def
    using dec by (auto simp: layer_scheme_def intro!: read)
  show "cryptolayer_no_credentials_needs_credentials C ops mk_cursor mk_source source_len"
    "cryptolayer_unwired_credential_continues C ops mk_cursor mk_source source_len"
    by (simp_all add: cryptolayer_no_credentials_needs_credentials_def cryptolayer_unwired_credential_continues_def layer_open_def)
  show "cryptolayer_recovery_key_branch C ops mk_cursor mk_source source_len"
    using opens(2) [of "lit ''000000-000000-000000-000000-000000-000000-000000-000000''"]
    by (auto simp: cryptolayer_recovery_key_branch_def map_bde_err_def)
  assume wrong: "aes_ccm_unwrap C (stretch_key C (password_hash C (lit ''wrong-pw'')) (replicate 16 0x33))
           (aes_ccm_wrap C (stretch_key C (password_hash C ?pw) (replicate 16 0x33)) (replicate 12 0x55)
             (vmk_container (replicate 32 0x44))) = None"
  have "attempt C (img ?r) (Password (lit ''wrong-pw'')) = Some (Err (AuthenticationFailed ''volume master key''))"
    unfolding r(2) build_encrypted_eq build_volume_def Let_def fst_conv attempt.simps option.inject
    by (rule stretch_fixture_rejects [OF assms(1) _ _ _ _ _ _ gates(1) wrong])
      (simp_all add: length_password_hash [OF primitives_okD(1) [OF assms(1)]] fixture_lengths assms(1) length_sector)
  from image_reader.try_step [OF assms(2) r(1) this]
  show "cryptolayer_wrong_password_is_loud_decode C ops mk_cursor mk_source source_len"
    by (auto simp: cryptolayer_wrong_password_is_loud_decode_def layer_open_def map_bde_err_def)
qed

end
