(* ===== verification/Forensic.thy ===== *)
theory Forensic
  imports Volume
begin

text \<open>
  \<^verbatim>\<open>forensic/src/lib.rs\<close>: the auditor that grades what the metadata shows without any credential.  The
  report types of the \<^verbatim>\<open>forensicnomicon\<close> crate are outside the repository: of \<^verbatim>\<open>Severity\<close>,
  \<^verbatim>\<open>Category\<close>, \<^verbatim>\<open>Evidence\<close> and \<^verbatim>\<open>Source\<close> only the constructors and fields used here are represented, and
  the trait method \<^verbatim>\<open>to_finding\<close> is an argument.
\<close>

section \<open>The code\<close>

definition PROT_CLEAR_KEY :: u16 where [simp]: "PROT_CLEAR_KEY = 0x0000"
definition PROT_TPM :: u16 where [simp]: "PROT_TPM = 0x0100"
definition PROT_STARTUP_KEY :: u16 where [simp]: "PROT_STARTUP_KEY = 0x0200"
definition PROT_TPM_PIN :: u16 where [simp]: "PROT_TPM_PIN = 0x0500"
definition PROT_RECOVERY :: u16 where [simp]: "PROT_RECOVERY = 0x0800"
definition PROT_PASSWORD :: u16 where [simp]: "PROT_PASSWORD = 0x2000"

datatype severity = High | Low | Info

datatype category = Integrity | Provenance | Structure

record evidence_item =
  ev_field :: string
  ev_value :: string

record report_source =
  rs_analyzer :: string
  rs_scope :: string
  rs_version :: "string option"

datatype anomaly_kind =
    ClearKeyPresent
  | Protector (protector_type: u16)
  | WeakCipher (weak_method: u16)
  | ToGo

definition ANALYZER :: string where
  "ANALYZER = ''bitlocker-forensic''"

fun kind_severity :: "anomaly_kind \<Rightarrow> severity" where
  "kind_severity ClearKeyPresent = High"
| "kind_severity (WeakCipher _) = Low"
| "kind_severity (Protector _) = Info"
| "kind_severity ToGo = Info"

fun kind_code :: "anomaly_kind \<Rightarrow> string" where
  "kind_code ClearKeyPresent = ''BDE-CLEAR-KEY-PRESENT''"
| "kind_code (Protector _) = ''BDE-PROTECTOR-INVENTORY''"
| "kind_code (WeakCipher _) = ''BDE-WEAK-CIPHER''"
| "kind_code ToGo = ''BDE-TO-GO''"

fun kind_category :: "anomaly_kind \<Rightarrow> category" where
  "kind_category ClearKeyPresent = Integrity"
| "kind_category (WeakCipher _) = Integrity"
| "kind_category (Protector _) = Provenance"
| "kind_category ToGo = Structure"

definition protector_name :: "u16 \<Rightarrow> string" where
  "protector_name t =
     (if t = PROT_CLEAR_KEY then ''clear key'' else if t = PROT_TPM then ''TPM''
      else if t = PROT_STARTUP_KEY then ''startup key'' else if t = PROT_TPM_PIN then ''TPM and PIN''
      else if t = PROT_RECOVERY then ''recovery password'' else if t = PROT_PASSWORD then ''password''
      else ''other/unknown'')"

definition cipher_name :: "u16 \<Rightarrow> string" where
  "cipher_name m =
     (if m = 0x8000 then ''AES-128-CBC + Elephant Diffuser'' else if m = 0x8001 then ''AES-256-CBC + Elephant Diffuser''
      else if m = 0x8002 then ''AES-128-CBC'' else if m = 0x8003 then ''AES-256-CBC''
      else if m = 0x8004 then ''AES-128-XTS'' else if m = 0x8005 then ''AES-256-XTS'' else ''unknown'')"

definition is_aes_xts :: "u16 \<Rightarrow> bool" where
  "is_aes_xts m \<longleftrightarrow> m = 0x8004 \<or> m = 0x8005"

text \<open>The dash in the first note is U+2014, here as its three UTF-8 bytes.\<close>

fun kind_note :: "anomaly_kind \<Rightarrow> string" where
  "kind_note ClearKeyPresent =
     ''a clear-key protector (type 0x0000) is present; the volume master key is stored unprotected, so the volume can be decrypted with no credential ''
     @ [CHR 0xE2, CHR 0x80, CHR 0x94]
     @ '' it is effectively unencrypted (bitlocker-core unlocks it via unlock_clear_key)''"
| "kind_note (Protector t) =
     ''key protector present: '' @ protector_name t @ '' (type 0x'' @ fmt_hex 4 (unat t) @ '')''"
| "kind_note (WeakCipher m) =
     ''volume cipher is '' @ cipher_name m @ '' (method 0x'' @ fmt_hex 4 (unat m)
     @ ''); AES-CBC, with or without the Elephant Diffuser, is weaker than AES-XTS and is consistent with an older Windows version''"
| "kind_note ToGo =
     ''the volume is a BitLocker To Go volume (removable-media BitLocker on a FAT-formatted volume)''"

definition evidence :: "string \<Rightarrow> string \<Rightarrow> evidence_item" where
  "evidence f v = \<lparr>ev_field = f, ev_value = v\<rparr>"

fun kind_evidence :: "anomaly_kind \<Rightarrow> evidence_item list" where
  "kind_evidence (Protector t) = [evidence ''protector_type'' (''0x'' @ fmt_hex 4 (unat t))]"
| "kind_evidence (WeakCipher m) = [evidence ''encryption_method'' (''0x'' @ fmt_hex 4 (unat m))]"
| "kind_evidence ClearKeyPresent = []"
| "kind_evidence ToGo = []"

record anomaly =
  an_severity :: severity
  an_code :: string
  an_kind :: anomaly_kind
  an_note :: string

definition Anomaly_new :: "anomaly_kind \<Rightarrow> anomaly" where
  "Anomaly_new k = \<lparr>an_severity = kind_severity k, an_code = kind_code k, an_kind = k, an_note = kind_note k\<rparr>"

fun audit_protectors :: "u16 list \<Rightarrow> anomaly list" where
  "audit_protectors [] = []"
| "audit_protectors (t # ts) =
     (if t = PROT_CLEAR_KEY then [Anomaly_new ClearKeyPresent] else []) @ Anomaly_new (Protector t) # audit_protectors ts"

definition audit :: "fve_metadata \<Rightarrow> bool \<Rightarrow> anomaly list" where
  "audit metadata to_go =
     (if to_go then [Anomaly_new ToGo] else [])
     @ (if \<not> is_aes_xts (encryption_method metadata) then [Anomaly_new (WeakCipher (encryption_method metadata))] else [])
     @ audit_protectors (protector_types metadata)"

definition audit_reader :: "'r reader_ops \<Rightarrow> 'r \<Rightarrow> (bde_error, anomaly list, 'r) io" where
  "audit_reader ops r =
     bind_io (bde_io (seek_op ops r (SeekStart 0))) (\<lambda>_ r1.
     bind_io (bde_io (read_exact ops r1 512)) (\<lambda>header r2.
     bind_io (pure_io (VolumeHeader_parse header) r2) (\<lambda>vh r3.
     bind_io (read_metadata ops r3) (\<lambda>metadata r4.
       pure_io (Ok (audit metadata (variant vh = BitLockerToGo))) r4))))"

text \<open>\<open>pkg_version\<close> is the crate version compiled in; \<open>to_finding\<close> is the report crate's conversion.\<close>

definition audit_findings ::
    "string \<Rightarrow> (anomaly \<Rightarrow> report_source \<Rightarrow> 'f) \<Rightarrow> 'r reader_ops \<Rightarrow> 'r \<Rightarrow> string \<Rightarrow> (bde_error, 'f list, 'r) io" where
  "audit_findings pkg_version to_finding ops r scope =
     (let source = \<lparr>rs_analyzer = ANALYZER, rs_scope = scope, rs_version = Some pkg_version\<rparr>
      in bind_io (audit_reader ops r) (\<lambda>anomalies r1.
           pure_io (Ok (map (\<lambda>a. to_finding a source) anomalies)) r1))"

section \<open>Specification\<close>

text \<open>What the audit of an image is, from its bytes.\<close>

definition image_audit :: "bytes \<Rightarrow> (bde_error, anomaly list) outcome" where
  "image_audit img =
     bind_outcome (image_metadata img) (\<lambda>m.
       Ok (audit m (take 8 (drop 3 img) = SIG_TO_GO)))"

section \<open>Lemmas\<close>

lemma audit_protectors_kinds:
  "map an_kind (audit_protectors ts)
   = concat (map (\<lambda>t. if t = PROT_CLEAR_KEY then [ClearKeyPresent, Protector t] else [Protector t]) ts)"
  by (induction ts) (auto simp: Anomaly_new_def)

lemma audit_protectors_new: "a \<in> set (audit_protectors ts) \<Longrightarrow> a = Anomaly_new (an_kind a)"
  by (induction ts) (auto simp: Anomaly_new_def split: if_splits)

lemma audit_new: "a \<in> set (audit m tg) \<Longrightarrow> a = Anomaly_new (an_kind a)"
  using audit_protectors_new by (auto simp: audit_def Anomaly_new_def split: if_splits)

lemma audit_kinds:
  "map an_kind (audit m to_go)
   = (if to_go then [ToGo] else [])
     @ (if encryption_method m \<in> {0x8004, 0x8005} then [] else [WeakCipher (encryption_method m)])
     @ concat (map (\<lambda>t. if t = PROT_CLEAR_KEY then [ClearKeyPresent, Protector t] else [Protector t]) (protector_types m))"
  by (auto simp: audit_def is_aes_xts_def Anomaly_new_def audit_protectors_kinds)

lemma header_variant:
  assumes "VolumeHeader_parse (take 512 img) = Ok vh" and "512 \<le> length img"
  shows "variant vh = BitLockerToGo \<longleftrightarrow> take 8 (drop 3 img) = SIG_TO_GO"
  using assms by (auto simp: VolumeHeader_parse_def Let_def get_range_def drop_take min_def split: if_splits)

context image_reader
begin

lemma audit_reader_image:
  assumes "inv r"
  shows "\<exists>r'. audit_reader ops r = Some (image_audit (img r), r') \<and> inv r' \<and> img r' = img r"
proof -
  obtain r1 where r1: "seek_op ops r (SeekStart 0) = Some (Ok 0, r1)" "inv r1" "img r1 = img r" "pos r1 = 0"
    using seek_start [OF assms, of 0] by auto
  obtain r2 where r2: "read_fill ops r1 512
      = Some (if 512 \<le> length (img r) then Ok (take 512 (img r)) else Err (Io EOF_ERROR), r2)"
    "inv r2" "img r2 = img r"
    using read_fill_image [OF r1(2), of 512] r1(3,4) by auto
  obtain r3 where r3: "read_metadata ops r2 = Some (image_metadata (img r), r3)" "inv r3" "img r3 = img r"
    using read_metadata_image [OF r2(2)] r2(3) by auto
  show ?thesis
  proof (cases "512 \<le> length (img r)")
    case False
    then show ?thesis
      using r1 r2 by (auto simp: audit_reader_def image_audit_def image_metadata_def simp flip: read_fill_def)
  next
    case True
    show ?thesis
    proof (cases "VolumeHeader_parse (take 512 (img r))")
      case (Ok vh)
      then show ?thesis
        using r1 r2 r3 True header_variant [OF Ok True]
        by (auto simp: audit_reader_def image_audit_def pure_io_def bind_io_def simp flip: read_fill_def split: outcome.split)
    next
      case (Err e)
      then show ?thesis
        using r1 r2 True by (auto simp: audit_reader_def image_audit_def image_metadata_def pure_io_def simp flip: read_fill_def)
    qed (use header_no_panic in auto)
  qed
qed

end

section \<open>Properties\<close>

text \<open>
  Property C36.  The clear-key alarm is the reader's own verdict: it is raised exactly when unlocking with
  the clear key would find a protector to use, that is, when key derivation does not fail for want of one.
\<close>

theorem clear_key_alarm_iff_unlockable:
  "ClearKeyPresent \<in> an_kind ` set (audit m to_go)
   \<longleftrightarrow> (\<forall>ts. derive_cipher C m kind PROTECTION_CLEAR ''clear key'' ClearKey \<noteq> Err (NoUnlockProtector ''clear key'' ts))"
proof -
  have "ClearKeyPresent \<in> set (map an_kind (audit m to_go)) \<longleftrightarrow> PROT_CLEAR_KEY \<in> set (protector_types m)"
    by (auto simp: audit_def Anomaly_new_def audit_protectors_kinds)
  then show ?thesis
    by (simp add: no_protector_iff)
qed

text \<open>
  Property C37.  Auditing through any reader over an image returns, never panics, and reports what the
  image determines, failing exactly as the metadata lookup fails.
\<close>

theorem audit_from_image:
  assumes "image_reader ops ok img pos patience" and "ok r"
  shows "(\<exists>r'. audit_reader ops r = Some (image_audit (img r), r') \<and> ok r' \<and> img r' = img r)
    \<and> image_audit (img r) \<noteq> Panic"
  using image_reader.audit_reader_image [OF assms] image_metadata_no_panic
  by (auto simp: image_audit_def bind_outcome_Panic_iff)

theorem audit_from_image_witness:
  "\<exists>r'. audit_reader cursor_ops (cursor_of []) = Some (Err (Io EOF_ERROR), r')"
  using audit_from_image [OF cur.image_reader_axioms, of "cursor_of []"]
  by (auto simp: cursor_of_def cursor_inv_def image_audit_def image_metadata_def)

end
