(* ===== verification/AuditTests.thy ===== *)
theory AuditTests
  imports Forensic TestImages ParserTests
begin

text \<open>
  The unit tests of the auditor, \<^verbatim>\<open>forensic/src/tests.rs\<close>, each as its assertions over the model, and that they
  hold.  On the disk image they build, the audit is then stated for every method, layout and list of
  protectors.  The conversion to the report crate's findings is an argument; its test passes for any
  conversion that keeps code, severity and source.
\<close>

section \<open>Fixtures\<close>

definition vmk_entry :: "u16 \<Rightarrow> metadata_entry" where
  "vmk_entry protector =
     \<lparr>entry_type = 0x0002, value_type = 0x0008, version = 1, entry_data = copy_into (replicate 28 0) 26 (to_le protector)\<rparr>"

definition test_metadata :: "u16 \<Rightarrow> u16 list \<Rightarrow> fve_metadata" where
  "test_metadata meth protectors =
     \<lparr>encryption_method = meth, volume_guid = replicate 16 0, creation_time = 0, entries = map vmk_entry protectors,
      encrypted_volume_size = 0, volume_header_offset = 0, volume_header_size = 0, metadata_offsets = replicate 3 0,
      metadata_size = 0\<rparr>"

definition has_code :: "anomaly list \<Rightarrow> string \<Rightarrow> bool" where
  "has_code anomalies code = list_ex (\<lambda>a. an_code a = code) anomalies"

definition build_image :: "u16 \<Rightarrow> bool \<Rightarrow> u16 list \<Rightarrow> bytes" where
  "build_image meth to_go protectors =
     (let ents = concat (map (\<lambda>p. entry_bytes 0x0002 0x0008 (copy_into (replicate 28 0) 26 (to_le p))) protectors);
          size' = 48 + length ents;
          mb = 0x1000 :: nat;
          image = apply_patches (replicate 0x2000 0) [(0, [0xeb, 0x58, 0x90]), (12, [0x02])];
          image = apply_patches image
            (if to_go then [(3, SIG_TO_GO), (440, to_le (word_of_nat mb :: u64))]
             else [(3, SIG_FVE), (176, to_le (word_of_nat mb :: u64))])
      in apply_patches image
           [(mb, SIG_FVE), (mb + 10, to_le (2 :: u16)), (mb + 32, to_le (word_of_nat mb :: u64)),
            (mb + 64, to_le (word_of_nat size' :: u32)), (mb + 64 + 36, to_le meth), (mb + 64 + 48, ents)])"

section \<open>The tests\<close>

definition clear_key_yields_high_finding :: bool where
  "clear_key_yields_high_finding \<longleftrightarrow>
     (let a = audit (test_metadata 0x8000 [PROT_CLEAR_KEY, PROT_PASSWORD]) True
      in (case find (\<lambda>x. an_code x = ''BDE-CLEAR-KEY-PRESENT'') a of Some clear \<Rightarrow> an_severity clear = High | None \<Rightarrow> False)
         \<and> has_code a ''BDE-TO-GO'' \<and> list_ex (\<lambda>x. an_code x = ''BDE-WEAK-CIPHER'' \<and> an_severity x = Low) a
         \<and> length (filter (\<lambda>x. an_code x = ''BDE-PROTECTOR-INVENTORY'') a) = 2)"

definition xts_and_non_to_go_are_quiet :: bool where
  "xts_and_non_to_go_are_quiet \<longleftrightarrow>
     (let a = audit (test_metadata 0x8004 [PROT_PASSWORD]) False
      in \<not> has_code a ''BDE-WEAK-CIPHER'' \<and> \<not> has_code a ''BDE-TO-GO'' \<and> \<not> has_code a ''BDE-CLEAR-KEY-PRESENT''
         \<and> has_code a ''BDE-PROTECTOR-INVENTORY'')"

definition contains :: "string \<Rightarrow> string \<Rightarrow> bool" where
  "contains s pat = list_ex (\<lambda>i. take (length pat) (drop i s) = pat) [0..<Suc (length s)]"

definition protector_note_includes_type_and_name :: bool where
  "protector_note_includes_type_and_name \<longleftrightarrow>
     (let a = audit (test_metadata 0x8000 [PROT_RECOVERY]) False
      in case find (\<lambda>x. an_code x = ''BDE-PROTECTOR-INVENTORY'') a of
           Some p \<Rightarrow> contains (an_note p) ''recovery password'' \<and> contains (an_note p) ''0x0800'' | None \<Rightarrow> False)"

definition cipher_and_protector_names :: bool where
  "cipher_and_protector_names \<longleftrightarrow>
     cipher_name 0x8000 = ''AES-128-CBC + Elephant Diffuser'' \<and> cipher_name 0x8001 = ''AES-256-CBC + Elephant Diffuser''
     \<and> cipher_name 0x8002 = ''AES-128-CBC'' \<and> cipher_name 0x8003 = ''AES-256-CBC'' \<and> cipher_name 0x8004 = ''AES-128-XTS''
     \<and> cipher_name 0x8005 = ''AES-256-XTS'' \<and> cipher_name 0x9999 = ''unknown''
     \<and> protector_name 0x0000 = ''clear key'' \<and> protector_name 0x0100 = ''TPM'' \<and> protector_name 0x0200 = ''startup key''
     \<and> protector_name 0x0500 = ''TPM and PIN'' \<and> protector_name 0x0800 = ''recovery password''
     \<and> protector_name 0x2000 = ''password'' \<and> protector_name 0x1234 = ''other/unknown''"

definition audit_reader_on_to_go_password_volume :: bool where
  "audit_reader_on_to_go_password_volume \<longleftrightarrow>
     (case audit_reader cursor_ops (cursor_of (build_image 0x8000 True [PROT_PASSWORD])) of
        Some (Ok a, _) \<Rightarrow> has_code a ''BDE-TO-GO'' \<and> has_code a ''BDE-WEAK-CIPHER'' \<and> has_code a ''BDE-PROTECTOR-INVENTORY''
      | _ \<Rightarrow> False)"

text \<open>\<open>code_of\<close>, \<open>severity_of\<close> and \<open>source_of\<close> read the fields of a finding.\<close>

definition audit_findings_map_source_and_severity ::
    "string \<Rightarrow> (anomaly \<Rightarrow> report_source \<Rightarrow> 'f) \<Rightarrow> ('f \<Rightarrow> string) \<Rightarrow> ('f \<Rightarrow> severity option) \<Rightarrow> ('f \<Rightarrow> report_source) \<Rightarrow> bool" where
  "audit_findings_map_source_and_severity pkg_version to_finding code_of severity_of source_of \<longleftrightarrow>
     (case audit_findings pkg_version to_finding cursor_ops (cursor_of (build_image 0x8000 True [PROT_CLEAR_KEY])) ''evidence.raw'' of
        Some (Ok findings, _) \<Rightarrow>
          list_all (\<lambda>f. rs_analyzer (source_of f) = ANALYZER) findings
          \<and> list_ex (\<lambda>f. code_of f = ''BDE-CLEAR-KEY-PRESENT'' \<and> severity_of f = Some High) findings
      | _ \<Rightarrow> False)"

definition audit_reader_rejects_non_bitlocker :: bool where
  "audit_reader_rejects_non_bitlocker \<longleftrightarrow>
     (case audit_reader cursor_ops (cursor_of (replicate 1024 0)) of
        Some (Err e, _) \<Rightarrow> (case e of NotBitLocker _ \<Rightarrow> True | _ \<Rightarrow> False) | _ \<Rightarrow> False)"

section \<open>They pass\<close>

lemma vmk_entry_eq: "vmk_entry = bare_entry"
  by (simp add: fun_eq_iff vmk_entry_def bare_entry_def vmk_head_def)

lemma test_protectors: "protector_types (test_metadata meth ps) = ps"
proof -
  have "protector_types (test_metadata meth ps) = protector_types (bare_metadata meth ps)"
    by (simp add: protector_types_def vmk_entries_def test_metadata_def bare_metadata_def vmk_entry_eq)
  then show ?thesis
    by (simp add: bare_protectors)
qed

lemma containsI: "s = a @ pat @ b \<Longrightarrow> contains s pat"
  by (auto simp: contains_def list_ex_iff intro!: bexI [of _ "length a"])

lemma test_method: "encryption_method (test_metadata meth ps) = meth"
  by (simp add: test_metadata_def)

lemma audit_tests_pass:
  "clear_key_yields_high_finding" "xts_and_non_to_go_are_quiet" "protector_note_includes_type_and_name" "cipher_and_protector_names"
proof -
  note eval = audit_def test_protectors test_method is_aes_xts_def Anomaly_new_def has_code_def Let_def
  show "clear_key_yields_high_finding"
    by (simp add: clear_key_yields_high_finding_def eval)
  show "xts_and_non_to_go_are_quiet"
    by (simp add: xts_and_non_to_go_are_quiet_def eval)
  show "cipher_and_protector_names"
    by (simp add: cipher_and_protector_names_def cipher_name_def protector_name_def)
  have four: "(4 :: nat) = Suc (Suc (Suc (Suc 0)))"
    by simp
  have hex: "fmt_hex 4 0x800 = ''0800''"
    unfolding four by (subst fmt_hex_eq_fixed) (simp_all add: digit_char_def)
  have "contains (''key protector present: recovery password (type 0x'' @ ''0800'' @ '')'') ''recovery password''"
    by (rule containsI [of _ "''key protector present: ''" _ "'' (type 0x0800)''"]) simp
  moreover have "contains (''key protector present: recovery password (type 0x'' @ ''0800'' @ '')'') ''0x0800''"
    by (rule containsI [of _ "''key protector present: recovery password (type ''" _ "'')''"]) simp
  ultimately show "protector_note_includes_type_and_name"
    by (simp add: protector_note_includes_type_and_name_def eval protector_name_def hex)
qed

text \<open>The image of these tests is the metadata-only image of the reader's tests, in another order of writing.\<close>

lemma bare_method: "encryption_method (bare_metadata meth ps) = meth"
  by (simp add: bare_metadata_def)

lemma copy_into_swap:
  assumes "i + length a \<le> j" and "j + length b \<le> length xs"
  shows "copy_into (copy_into xs j b) i a = copy_into (copy_into xs i a) j b"
proof (rule nth_equalityI)
  fix k
  assume "k < length (copy_into (copy_into xs j b) i a)"
  then show "copy_into (copy_into xs j b) i a ! k = copy_into (copy_into xs i a) j b ! k"
    using assms by (simp add: copy_into_def nth_append)
qed (use assms in simp)

lemma copy_into_same: "take (length a) (drop i xs) = a \<Longrightarrow> i + length a \<le> length xs \<Longrightarrow> copy_into xs i a = xs"
  by (metis append_take_drop_id copy_into_def drop_drop add.commute)

lemma build_image_to_go: "build_image meth True ps = meta_only_image meth ps (0x1000, 0, 0) (Some 0x1000)"
proof -
  let ?z = "replicate 0x2000 0 :: bytes"
  let ?x = "copy_into (copy_into (copy_into (copy_into ?z 0 [0xeb, 0x58, 0x90]) 3 SIG_TO_GO) 12 [0x02]) 440 (to_le (0x1000 :: u64))"
  have swap: "copy_into (copy_into (copy_into ?z 0 [0xeb, 0x58, 0x90]) 12 [0x02]) 3 SIG_TO_GO
      = copy_into (copy_into (copy_into ?z 0 [0xeb, 0x58, 0x90]) 3 SIG_TO_GO) 12 [0x02]"
    by (rule copy_into_swap) (simp_all add: SIG_TO_GO_def)
  have "replicate 8 (0 :: u8) = [0, 0, 0, 0, 0, 0, 0, 0]"
    by (simp add: numeral_eq_Suc)
  then have zero: "to_le (0 :: u64) = replicate 8 0"
    by (simp only:) (simp add: to_le_def)
  let ?p = "patched ?z [(440, to_le (0x1000 :: u64)), (12, [0x02]), (3, SIG_TO_GO), (0, [0xeb, 0x58, 0x90])]"
  have "?x = ?p" "take 8 (drop 448 ?p) = replicate 8 0" "take 8 (drop 456 ?p) = replicate 8 0"
    by (simp add: patched.simps) (simp_all add: slice_simps)
  then have "take 8 (drop 448 ?x) = replicate 8 0" "take 8 (drop 456 ?x) = replicate 8 0"
    by (simp_all only:)
  then have "copy_into ?x 448 (replicate 8 0) = ?x" "copy_into ?x 456 (replicate 8 0) = ?x"
    using copy_into_same [of "replicate 8 0" 448 ?x] copy_into_same [of "replicate 8 0" 456 ?x] by (simp_all add: SIG_TO_GO_def)
  then show ?thesis
    by (simp add: build_image_def meta_only_image_def bare_vmk_def [abs_def] Let_def swap zero)
qed

lemma audit_image_tests_pass: "audit_reader_on_to_go_password_volume" "audit_reader_rejects_non_bitlocker"
    "(\<And>a src. code_of (to_finding a src) = an_code a \<and> severity_of (to_finding a src) = Some (an_severity a) \<and> source_of (to_finding a src) = src)
     \<Longrightarrow> audit_findings_map_source_and_severity pkg_version to_finding code_of severity_of source_of"
proof -
  have audit: "\<exists>c. audit_reader cursor_ops (cursor_of (build_image meth True ps)) = Some (Ok (audit (bare_metadata meth ps) True), c)"
    if "length ps \<le> 110" for meth ps
    using cur.audit_reader_image [of "cursor_of (build_image meth True ps)"] meta_only_metadata [OF that, of "0x1000" 0 0 meth]
      meta_only_fields(1,2) [OF that, of meth "0x1000" 0 0]
    by (auto simp: build_image_to_go cursor_of_def cursor_inv_def image_audit_def)
  show "audit_reader_on_to_go_password_volume"
    using audit [of "[PROT_PASSWORD]" "0x8000"]
    by (auto simp: audit_reader_on_to_go_password_volume_def audit_def bare_protectors is_aes_xts_def Anomaly_new_def has_code_def bare_method)
  have "image_metadata (replicate 1024 0) = Err (NotBitLocker (replicate 8 0))"
    by (simp add: image_metadata_def VolumeHeader_parse_def get_range_def Let_def min_def)
  then show "audit_reader_rejects_non_bitlocker"
    using cur.audit_reader_image [of "cursor_of (replicate 1024 0)"]
    by (auto simp: audit_reader_rejects_non_bitlocker_def cursor_of_def cursor_inv_def image_audit_def)
  show "audit_findings_map_source_and_severity pkg_version to_finding code_of severity_of source_of"
    if "\<And>a src. code_of (to_finding a src) = an_code a \<and> severity_of (to_finding a src) = Some (an_severity a) \<and> source_of (to_finding a src) = src"
    using audit [of "[PROT_CLEAR_KEY]" "0x8000"] that
    by (auto simp: audit_findings_map_source_and_severity_def audit_findings_def audit_def bare_protectors is_aes_xts_def Anomaly_new_def
        pure_io_def list_all_iff bare_method)
qed

section \<open>Auditing a disk image\<close>

text \<open>Both layouts of the image carry the same block; only the header sector differs.\<close>

lemma drop_copy_into:
  "i + length a \<le> n \<Longrightarrow> n \<le> length xs \<Longrightarrow> drop n (copy_into xs i a) = drop n xs"
  "n \<le> i \<Longrightarrow> i \<le> length xs \<Longrightarrow> drop n (copy_into xs i a) = copy_into (drop n xs) (i - n) a"
  by (simp_all add: copy_into_def drop_take)

lemma candidate_cong: "drop 0x1000 a = drop 0x1000 b \<Longrightarrow> candidate a bps 0x1000 = candidate b bps 0x1000"
  by (simp add: candidate_def block_at_def)

lemma build_image_block:
  "drop 0x1000 (build_image meth False ps) = drop 0x1000 (meta_only_image meth ps (0x1000, 0, 0) (Some 0x1000))"
  by (simp add: build_image_def meta_only_image_def bare_vmk_def [abs_def] Let_def drop_copy_into SIG_TO_GO_def SIG_FVE_def)

lemma build_image_header:
  assumes "length ps \<le> 110"
  shows "VolumeHeader_parse (take 512 (build_image meth False ps)) = Ok \<lparr>variant = Windows7OrLater, bytes_per_sector = 512,
      bitlocker_guid = read_guid (take 512 (build_image meth False ps)) 160, fve_metadata_offsets = [0x1000, 0, 0]\<rparr>"
    and "length (build_image meth False ps) = 0x2000" and "take 8 (drop 3 (build_image meth False ps)) = SIG_FVE"
proof -
  define w where "w = build_image meth False ps"
  have eq: "w = patched (replicate 0x2000 0)
      [(0x1070, concat (map bare_vmk ps)), (0x1064, to_le meth), (0x1040, to_le (word_of_nat (48 + 36 * length ps) :: u32)),
       (0x1020, to_le (0x1000 :: u64)), (0x100A, to_le (2 :: u16)), (0x1000, SIG_FVE),
       (176, to_le (0x1000 :: u64)), (3, SIG_FVE), (12, [0x02]), (0, [0xeb, 0x58, 0x90])]"
    using length_bare [of ps]
    by (simp add: w_def build_image_def apply_patches_eq Let_def flip: patched_append bare_vmk_def [abs_def])
  note s = eq patched_reads slice_simps length_bare zeros_read
  have f: "length w = 0x2000" "take 8 (drop 3 w) = SIG_FVE" "take 3 (drop 0 w) = [0xeb, 0x58, 0x90]"
    "le_u64 w 176 = 0x1000" "le_u64 w 184 = 0" "le_u64 w 192 = 0"
    using assms by (simp_all add: s del: drop_0)
  have bps: "le_u16 w 11 = 512"
    by (rule sector_size_512) (use assms in \<open>simp_all add: s\<close>)
  have sig: "get_range (take 512 w) 3 11 = Some SIG_FVE" "get_range (take 512 w) 0 3 = Some BOOT_WIN7"
    using f(1-3) by (simp_all add: get_range_def drop_take min_def BOOT_WIN7_def)
  show "VolumeHeader_parse (take 512 (build_image meth False ps)) = Ok \<lparr>variant = Windows7OrLater, bytes_per_sector = 512,
      bitlocker_guid = read_guid (take 512 (build_image meth False ps)) 160, fve_metadata_offsets = [0x1000, 0, 0]\<rparr>"
    using f bps sig unfolding w_def [symmetric]
    by (simp add: VolumeHeader_parse_def Let_def le16.rd_take le64.rd_take signature_distinct)
  show "length (build_image meth False ps) = 0x2000" "take 8 (drop 3 (build_image meth False ps)) = SIG_FVE"
    using f(1,2) by (simp_all add: w_def)
qed

lemma build_image_metadata:
  assumes "length ps \<le> 110"
  shows "image_metadata (build_image meth to_go ps) = Ok (bare_metadata meth ps)"
    and "take 8 (drop 3 (build_image meth to_go ps)) = (if to_go then SIG_TO_GO else SIG_FVE)"
    and "length (build_image meth to_go ps) = 0x2000"
proof -
  have "candidate (build_image meth False ps) 512 0x1000 = Some (bare_metadata meth ps)"
    using meta_only_candidate [OF assms, of meth "0x1000" 0 0] candidate_cong [OF build_image_block] by simp
  moreover have "candidate img 512 0 = None" for img
    by (simp add: candidate_def)
  ultimately have "image_metadata (build_image meth False ps) = Ok (bare_metadata meth ps)"
    using build_image_header [OF assms, of meth] by (simp add: image_metadata_def map_filter_simps)
  moreover have "image_metadata (build_image meth True ps) = Ok (bare_metadata meth ps)"
    using meta_only_metadata [OF assms, of "0x1000" 0 0 meth] by (simp add: build_image_to_go)
  ultimately show "image_metadata (build_image meth to_go ps) = Ok (bare_metadata meth ps)"
    by (cases to_go) simp_all
  show "take 8 (drop 3 (build_image meth to_go ps)) = (if to_go then SIG_TO_GO else SIG_FVE)"
    "length (build_image meth to_go ps) = 0x2000"
    using build_image_header(2,3) [OF assms, of meth] meta_only_fields(1,2) [OF assms, of meth "0x1000" 0 0]
    by (cases to_go; simp add: build_image_to_go)+
qed

lemma audit_codes:
  "map (\<lambda>a. (an_code a, an_severity a)) (audit m to_go) = map (\<lambda>k. (kind_code k, kind_severity k)) (map an_kind (audit m to_go))"
proof -
  have "an_code a = kind_code (an_kind a) \<and> an_severity a = kind_severity (an_kind a)" if "a \<in> set (audit m to_go)" for a
    using audit_new [OF that] by (metis Anomaly_new_def anomaly.select_convs(1,2))
  then show ?thesis
    by simp
qed

section \<open>Property\<close>

text \<open>
  Property C35.  The audit of a disk image, from its bytes to the report: through any reader over an image
  with any method and up to 110 protectors, in the To Go or the Windows 7 layout, the audit succeeds and
  reports, in order, To Go exactly for that layout, the weak cipher at low severity exactly for the
  methods other than the two XTS ones, and for each protector an inventory entry, preceded for a clear key
  by the alarm at high severity; the inventory lists the protector types as they lie on the disk.
\<close>

theorem audit_of_disk_image:
  assumes "image_reader ops ok img pos patience" and "ok r" and "length ps \<le> 110" and "img r = build_image meth to_go ps"
  shows "\<exists>as r'. audit_reader ops r = Some (Ok as, r')
    \<and> map (\<lambda>a. (an_code a, an_severity a)) as
      = (if to_go then [(''BDE-TO-GO'', Info)] else [])
        @ (if meth \<in> {0x8004, 0x8005} then [] else [(''BDE-WEAK-CIPHER'', Low)])
        @ concat (map (\<lambda>p. (if p = 0 then [(''BDE-CLEAR-KEY-PRESENT'', High)] else []) @ [(''BDE-PROTECTOR-INVENTORY'', Info)]) ps)
    \<and> List.map_filter (\<lambda>a. case an_kind a of Protector t \<Rightarrow> Some t | _ \<Rightarrow> None) as = ps"
proof -
  let ?as = "audit (bare_metadata meth ps) to_go"
  obtain r' where "audit_reader ops r = Some (Ok ?as, r')"
    using image_reader.audit_reader_image [OF assms(1,2)] build_image_metadata [OF assms(3), of meth to_go] assms(4)
    by (auto simp: image_audit_def split: if_splits)
  moreover have "map (\<lambda>k. (kind_code k, kind_severity k))
        (concat (map (\<lambda>t. if t = PROT_CLEAR_KEY then [ClearKeyPresent, Protector t] else [Protector t]) ps))
      = concat (map (\<lambda>p. (if p = 0 then [(''BDE-CLEAR-KEY-PRESENT'', High)] else []) @ [(''BDE-PROTECTOR-INVENTORY'', Info)]) ps)"
    by (induction ps) auto
  then have "map (\<lambda>a. (an_code a, an_severity a)) ?as
      = (if to_go then [(''BDE-TO-GO'', Info)] else [])
        @ (if meth \<in> {0x8004, 0x8005} then [] else [(''BDE-WEAK-CIPHER'', Low)])
        @ concat (map (\<lambda>p. (if p = 0 then [(''BDE-CLEAR-KEY-PRESENT'', High)] else []) @ [(''BDE-PROTECTOR-INVENTORY'', Info)]) ps)"
    unfolding audit_codes audit_kinds bare_method bare_protectors(3) map_append by simp
  moreover have "List.map_filter (\<lambda>k. case k of Protector t \<Rightarrow> Some t | _ \<Rightarrow> None)
      (concat (map (\<lambda>t. if t = PROT_CLEAR_KEY then [ClearKeyPresent, Protector t] else [Protector t]) ps)) = ps"
    by (induction ps) (simp_all add: map_filter_simps)
  then have "List.map_filter (\<lambda>k. case k of Protector t \<Rightarrow> Some t | _ \<Rightarrow> None) (map an_kind ?as) = ps"
    unfolding audit_kinds bare_method bare_protectors(3) by (simp add: map_filter_simps)
  then have "List.map_filter (\<lambda>a. case an_kind a of Protector t \<Rightarrow> Some t | _ \<Rightarrow> None) ?as = ps"
    by (simp add: List.map_filter_def filter_map comp_def)
  ultimately show ?thesis
    by blast
qed

theorem audit_of_disk_image_witness:
  "\<exists>as r'. audit_reader cursor_ops (cursor_of (build_image 0x8003 False [0, 0x2000])) = Some (Ok as, r')
     \<and> map an_code as = [''BDE-WEAK-CIPHER'', ''BDE-CLEAR-KEY-PRESENT'', ''BDE-PROTECTOR-INVENTORY'', ''BDE-PROTECTOR-INVENTORY'']"
proof -
  let ?r = "cursor_of (build_image 0x8003 False [0, 0x2000])"
  have "cursor_inv ?r"
    using build_image_metadata(3) [of "[0, 0x2000]" "0x8003" False] by (simp add: cursor_of_def cursor_inv_def)
  then obtain as r' where "audit_reader cursor_ops ?r = Some (Ok as, r')"
    "map (\<lambda>a. (an_code a, an_severity a)) as = [(''BDE-WEAK-CIPHER'', Low), (''BDE-CLEAR-KEY-PRESENT'', High),
      (''BDE-PROTECTOR-INVENTORY'', Info), (''BDE-PROTECTOR-INVENTORY'', Info)]"
    using audit_of_disk_image [OF cur.image_reader_axioms, of ?r "[0, 0x2000]" "0x8003" False] by (auto simp: cursor_of_def)
  moreover from this(2) have "map fst (map (\<lambda>a. (an_code a, an_severity a)) as)
      = [''BDE-WEAK-CIPHER'', ''BDE-CLEAR-KEY-PRESENT'', ''BDE-PROTECTOR-INVENTORY'', ''BDE-PROTECTOR-INVENTORY'']"
    by simp
  ultimately show ?thesis
    by (auto simp: comp_def)
qed

end
