(* ===== verification/Spec2Isabelle.thy ===== *)
theory Spec2Isabelle
  imports Session Faults Fuzz CryptoTests AdapterTests AuditTests
begin

text \<open>
  A verification library for \<^verbatim>\<open>bitlocker-forensic\<close>: a read-only BitLocker decryptor (\<^verbatim>\<open>core/\<close>) and an auditor
  of BitLocker metadata (\<^verbatim>\<open>forensic/\<close>).

  \<^bold>\<open>The program.\<close>  A volume header sector names up to three offsets of FVE metadata blocks; the first block
  that parses lists entries, among them volume master keys (VMK), each wrapped under a protector, and the
  full volume key (FVEK) wrapped under the VMK.  Unlocking walks this chain from a credential to a sector
  cipher.  The decrypted volume then serves reads and seeks, sector by sector: metadata regions are
  blanked, the relocated volume header is redirected, sectors beyond the encrypted size are passed
  through, the rest is decrypted.  A VFS adapter offers credentials to the unlock and shares the opened
  volume behind a lock; the auditor reports findings from the metadata alone.

  \<^bold>\<open>The model, theory by theory\<close> (sources under \<^verbatim>\<open>core/src\<close> unless said otherwise).

  \<^item> \<open>Prelude\<close>: outcomes (\<open>Ok\<close>, \<open>Err\<close>, \<open>Panic\<close>), slices with Rust's bounds, checked and wrapping arithmetic,
    patches of byte buffers, the collections the other theories share.
  \<^item> \<open>Fmt\<close>, \<open>Rust_Str\<close>: the parts of Rust's formatting and string library that the code uses (hexadecimal and
    decimal printing, UTF-8, UTF-16, \<^verbatim>\<open>split\<close>, \<^verbatim>\<open>parse::<u32>\<close>).
  \<^item> \<open>Bytes\<close> (\<^verbatim>\<open>bytes.rs\<close>), \<open>Guid\<close> (\<^verbatim>\<open>guid.rs\<close>), \<open>Errors\<close> (\<^verbatim>\<open>error.rs\<close>), \<open>Header\<close> (\<^verbatim>\<open>header.rs\<close>), \<open>Method\<close>
    (\<^verbatim>\<open>method.rs\<close>), \<open>Metadata\<close> (\<^verbatim>\<open>metadata.rs\<close>): the parsers, one definition per function.  The contract of the
    three little-endian readers is the locale \<open>le_reader\<close>.
  \<^item> \<open>Crypto\<close> (\<^verbatim>\<open>crypto.rs\<close>): key hashes, the stretch loop, AES-CCM key wrapping and the five sector ciphers
    over a record \<open>primitives\<close> of the functions the cryptographic crates provide.
  \<^item> \<open>Reader\<close>: readers as records of a read and a seek function on a state, a call being \<open>None\<close> when it does
    not return; the fill loops of \<^verbatim>\<open>volume.rs\<close>; the locale \<open>image_reader\<close>, the contract of a reader over a fixed
    image that may return short or be interrupted finitely often, interpreted for \<^verbatim>\<open>Cursor\<close>.
  \<^item> \<open>Volume\<close> (\<^verbatim>\<open>volume.rs\<close>, to line 365): finding the metadata, key derivation and the four unlock entry points.
  \<^item> \<open>ReadPath\<close> (\<^verbatim>\<open>volume.rs\<close>, to line 491): \<^verbatim>\<open>read_at\<close>, \<^verbatim>\<open>Read\<close> and \<^verbatim>\<open>Seek\<close> of a decrypted volume.  Its plaintext is
    the function \<open>view\<close> of the image; a decrypted volume is itself an \<open>image_reader\<close> over it.
  \<^item> \<open>Session\<close>: sequences of reads and seeks as a step relation, and the plain file they refine.
  \<^item> \<open>Faults\<close>: the same code on a reader that fails from some call on.
  \<^item> \<open>Vfs\<close> (\<^verbatim>\<open>vfs.rs\<close>): the layer and its source; \<open>Shared\<close>: the source shared by clients behind its lock, with
    panics that poison it, as a step relation; the volume of the adapter's tests.
  \<^item> \<open>Forensic\<close> (\<^verbatim>\<open>forensic/src/lib.rs\<close>): the audit and its texts.
  \<^item> \<open>Fuzz\<close> (\<^verbatim>\<open>core/fuzz\<close>): the fuzz target, on every input.
  \<^item> \<open>Fixtures\<close>, \<open>TestImages\<close>: the image builders of the unit tests, which are the repository's statement of
    the on-disk format, and its failing reader.  \<open>ParserTests\<close>, \<open>CryptoTests\<close>, \<open>VolumeTests\<close>, \<open>AdapterTests\<close>, \<open>AuditTests\<close>: the unit
    tests, each as its assertions, and that they hold, which ties the definitions to the behaviour the
    repository checks its code for.

  \<^bold>\<open>What is proved.\<close>  End to end, for all lawful primitives and all readers over the image: every kind of
  volume the code can open opens with its credential and reads back, and a key that fails to authenticate
  is refused.  The unlock is a function of the image; every volume it returns has a validated cipher with
  keys of its length.  The read path computes the view, and sessions on it are those of a file, for
  metadata whose sums stay within 64 bits (\<open>safe_layout\<close>); unlocking does not check this, and what reads
  do without it is stated separately (\<open>read_at_any_metadata\<close>, \<open>relocation_overflow\<close>).  The
  parsers are characterised by what they accept (round trips with an encoder and the converse), never
  panic, and return well-typed values.  The key stretch equals its recurrence; recovery passwords are
  exactly the printed forms of eight words.  I/O errors are reported as they are, interleaved clients do
  not disturb one another, and the audit raises the clear-key alarm exactly when a clear-key unlock would
  find its protector.  Where the code deviates from its documentation (unchecked sums of on-disk values,
  seeks that wrap, reads past the end that are not zero) the theorems state what it does.

  \<^bold>\<open>Hypotheses on code outside the repository.\<close>  \<open>primitives_ok\<close>: SHA-256 gives 32 bytes, AES-CCM opens what it
  sealed, CBC, XTS and the Elephant diffuser invert their encryption and keep lengths.  Sealing is
  taken to succeed for every length; the real AES-CCM refuses plaintexts of \<open>2 ^ 24\<close> bytes or more, where
  \<^verbatim>\<open>aes_ccm_wrap\<close>, which only tests call, would panic (the containers they seal have at most 76 bytes).
  An \<open>image_reader\<close> accepts every 64-bit seek offset, as a \<^verbatim>\<open>Cursor\<close> does; a file refuses offsets above
  \<open>2 ^ 63 - 1\<close>, where the code passes the error on.  \<open>demo\<close> is a toy instance that satisfies it, used by witnesses only.  Theorems
  about overflow take the build mode as the flag \<open>oc\<close> (overflow checks on or off).

  \<^bold>\<open>Termination.\<close>  There is no fuel.  Loops over buffers terminate by a measure; the fill loop, which may run
  forever on a reader that is interrupted forever, is a partial function, and the theorems say that it
  returns on every \<open>image_reader\<close>.  Buffers are assumed shorter than \<open>2 ^ 63\<close>, which Rust guarantees.

  \<^bold>\<open>Not modelled.\<close>  The crate roots (re-exports only); the cryptographic crates, \<^verbatim>\<open>forensic-vfs\<close> and
  \<^verbatim>\<open>forensicnomicon\<close> (outside the repository; what the code uses of them are parameters; the tests
  of \<^verbatim>\<open>crypto.rs\<close> that compare digests or ciphertexts are therefore reduced to facts about the primitives); the
  oracle tests, which read external disk images.
\<close>

section \<open>End to end\<close>

text \<open>
  Property C1.  A password volume, end to end: for any lawful primitives, any password and any reader
  serving the image, unlocking with the password succeeds with method 0x8000 and the relocated first
  sector reads back as the plaintext.
\<close>

theorem password_volume_opens:
  assumes "primitives_ok C" and "image_reader ops ok img pos patience" and "ok r"
    and "img r = fst (build_volume C pw)"
  shows "yields_plaintext C oc ops (unlock_with_password C ops r pw) 0x8000 (snd (build_volume C pw))"
  by (rule password_fixture_opens [OF assms])

theorem password_volume_opens_witness:
  "yields_plaintext demo True cursor_ops
     (unlock_with_password demo cursor_ops (cursor_of (fst (build_volume demo (lit ''test-pw'')))) (lit ''test-pw''))
     0x8000 (snd (build_volume demo (lit ''test-pw'')))"
  by (rule password_volume_opens [OF demo_ok cur.image_reader_axioms])
    (simp_all add: cursor_of_def cursor_inv_def length_build_volume [OF demo_ok])

text \<open>
  Property C10.  The four recovery volumes of the other ciphers (0x8002 to 0x8005), end to end: any
  eight-word recovery password opens the volume built for its key hash, and the first sector reads back.
\<close>

theorem recovery_volumes_open:
  assumes "primitives_ok C" and "image_reader ops ok img pos patience" and "ok r" and "length ws = 8"
    and "(meth, img r, p) \<in>
      {(0x8002, build_cbc_volume C PROTECTION_RECOVERY (sha256 C (concat (map to_le ws)))),
       (0x8003, build_cbc256_volume C (sha256 C (concat (map to_le ws)))),
       (0x8004, build_xts128_volume C (sha256 C (concat (map to_le ws)))),
       (0x8005, build_xts256_volume C (sha256 C (concat (map to_le ws))))}"
  shows "yields_plaintext C oc ops (unlock_with_recovery_password C ops r (recovery_text ws)) meth p"
  by (rule recovery_fixtures_open [OF assms])

theorem recovery_volumes_open_witness:
  "yields_plaintext demo True cursor_ops
     (unlock_with_recovery_password demo cursor_ops
        (cursor_of (fst (build_xts128_volume demo (sha256 demo (concat (map to_le (replicate 8 (7 :: u16)))))))) (recovery_text (replicate 8 7)))
     0x8004 (snd (build_xts128_volume demo (sha256 demo (concat (map to_le (replicate 8 (7 :: u16)))))))"
  by (rule recovery_volumes_open [OF demo_ok cur.image_reader_axioms])
    (use primitives_okD(1) [OF demo_ok] in
      \<open>simp_all add: cursor_of_def cursor_inv_def sha256_ok_def length_build_xts128 [OF demo_ok]\<close>)

text \<open>
  Property C11.  Volumes that need no secret typed in: a clear-key volume opens with nothing at all, a
  startup-key volume with its \<^verbatim>\<open>.BEK\<close> file, and each first sector reads back.
\<close>

theorem keyless_volumes_open:
  assumes "primitives_ok C" and "image_reader ops ok img pos patience" and "ok r" and "ok r'"
    and "img r = fst (build_clearkey_volume C True)" and "img r' = fst (build_startupkey_volume C)"
  shows "yields_plaintext C oc ops (unlock_clear_key C ops r) 0x8004 (snd (build_clearkey_volume C True))
    \<and> yields_plaintext C oc ops (unlock_with_startup_key C ops r' (snd (snd (build_startupkey_volume C)))) 0x8004
        (fst (snd (build_startupkey_volume C)))"
  by (intro conjI clearkey_volume_opens [OF assms(1,2,3,5)] startupkey_volume_opens [OF assms(1,2,4,6)])

theorem keyless_volumes_open_witness:
  "yields_plaintext demo True cursor_ops (unlock_clear_key demo cursor_ops (cursor_of (fst (build_clearkey_volume demo True))))
     0x8004 (snd (build_clearkey_volume demo True))"
  using keyless_volumes_open [OF demo_ok cur.image_reader_axioms, of "cursor_of (fst (build_clearkey_volume demo True))"
      "cursor_of (fst (build_startupkey_volume demo))" True]
  by (simp add: cursor_of_def cursor_inv_def length_build_clearkey [OF demo_ok] length_build_startupkey [OF demo_ok])

theorem unlocked_volume_wf_witness:
  "\<exists>dv r'. unlock_clear_key demo cursor_ops (cursor_of (fst (build_clearkey_volume demo True))) = Some (Ok dv, r')
     \<and> wf_transform (transform (dv_cipher dv)) \<and> encryption_method (dv_metadata dv) \<noteq> METHOD_NONE"
proof -
  let ?r = "cursor_of (fst (build_clearkey_volume demo True))"
  have ok: "cursor_inv ?r"
    by (simp add: cursor_of_def cursor_inv_def length_build_clearkey [OF demo_ok])
  have "yields_plaintext demo True cursor_ops (unlock_clear_key demo cursor_ops ?r) 0x8004 (snd (build_clearkey_volume demo True))"
    by (rule clearkey_volume_opens [OF demo_ok cur.image_reader_axioms ok]) (simp add: cursor_of_def)
  then obtain dv r' where u: "unlock_clear_key demo cursor_ops ?r = Some (Ok dv, r')"
    by (auto simp: yields_plaintext_def)
  then show ?thesis
    using unlocked_volume_wf [OF cur.image_reader_axioms ok u [unfolded unlock_clear_key_def]] by blast
qed

text \<open>
  Property C12.  A wrong password is refused, not guessed at: on a password volume, whenever the AES-CCM
  tag of the wrapped VMK does not verify under the key stretched from the password given, unlocking
  ends with the authentication error for the volume master key.
\<close>

theorem wrong_password_rejected:
  assumes "primitives_ok C" and "image_reader ops ok img pos patience" and "ok r"
    and "img r = fst (build_volume C pw)"
    and "aes_ccm_unwrap C (stretch_key C (password_hash C pw') (replicate 16 0x33))
           (aes_ccm_wrap C (stretch_key C (password_hash C pw) (replicate 16 0x33)) (replicate 12 0x55)
             (vmk_container (replicate 32 0x44))) = None"
  shows "\<exists>r'. unlock_with_password C ops r pw' = Some (Err (AuthenticationFailed ''volume master key''), r')"
proof -
  note i = assms(4) [unfolded build_volume_def Let_def fst_conv]
  have "image_unlock C (img r) PROTECTION_PASSWORD ''password'' (Stretch (password_hash C pw'))
      = Err (AuthenticationFailed ''volume master key'')"
    using stretch_fixture_rejects [OF assms(1) _ _ _ _ _ _ gates(1) assms(5)] i
      length_password_hash [OF primitives_okD(1) [OF assms(1)]]
    by (simp add: fixture_lengths assms(1))
  then show ?thesis
    using image_reader.unlock_image [OF assms(2,3), of C PROTECTION_PASSWORD "''password''" "Stretch (password_hash C pw')"]
    by (auto simp: unlock_with_password_def)
qed

theorem wrong_password_rejected_witness:
  "\<exists>r'. unlock_with_password demo cursor_ops (cursor_of (fst (build_volume demo (lit ''test-pw'')))) (lit ''wrong'')
     = Some (Err (AuthenticationFailed ''volume master key''), r')"
proof -
  have stretch: "stretch_key demo h (replicate 16 0x33) = h" if "length h = 32" for h
  proof -
    have it: "stretch_iter demo h (replicate 16 0x33) n = h" if "0 < n" for n
      using that
    proof (induction n)
      case (Suc n)
      then show ?case
        using \<open>length h = 32\<close> by (cases n) (simp_all add: demo_def)
    qed simp
    show ?thesis
      using stretch_key_n_eq [OF primitives_okD(1) [OF demo_ok] that, of "replicate 16 0x33"]
      by (simp add: stretch_key_def it STRETCH_ITERATIONS_def)
  qed
  let ?k = "password_hash demo (lit ''test-pw'')" and ?k' = "password_hash demo (lit ''wrong'')"
  have k: "length ?k = 32" "length ?k' = 32"
    using length_password_hash [OF primitives_okD(1) [OF demo_ok]] by simp_all
  have "?k ! 0 \<noteq> ?k' ! 0"
    by (simp add: password_hash_def encode_utf16_def utf16_char_def to_le_def demo_def fit_def lit_def)
  then have "take 16 ?k \<noteq> take 16 ?k'"
    by (metis nth_take zero_less_numeral)
  then have "aes_ccm_unwrap demo (stretch_key demo ?k' (replicate 16 0x33))
      (aes_ccm_wrap demo (stretch_key demo ?k (replicate 16 0x33)) (replicate 12 0x55) (vmk_container (replicate 32 0x44))) = None"
    using k by (simp add: stretch demo_wrong_key)
  then show ?thesis
    using wrong_password_rejected [OF demo_ok cur.image_reader_axioms, of "cursor_of (fst (build_volume demo (lit ''test-pw'')))"]
    by (simp add: cursor_of_def cursor_inv_def length_build_volume [OF demo_ok])
qed

end
